(* ===== verification/Wapc_Prelude.thy ===== *)
theory Wapc_Prelude
  imports Main "HOL-Library.Word"
begin

text \<open>
  Shared vocabulary of the development: the machine types of the Rust code, the outcome of a
  computation that may panic or be undefined, Rust strings as UTF-8 byte strings, and the
  generic lemmas on lists, slices and words that the components use.

  \<^item> \<open>u8\<close>, \<open>i32\<close>, \<open>u64\<close>, \<open>usize\<close> are words. An \<open>i32\<close> is a \<open>32 word\<close> read with
    \<open>sint\<close>; \<open>usize\<close> is 64 bits wide, that of the hosts the engine crates support.
  \<^item> A Rust \<open>String\<close> or \<open>&str\<close> is a HOL \<open>string\<close> whose characters are the bytes of its
    UTF-8 encoding, so that \<open>length\<close> is \<open>str::len\<close> and \<open>as_bytes\<close> is the identity on bytes.
  \<^item> \<open>outcome\<close> is what running a piece of Rust can do: return, panic, or (in an \<open>unsafe\<close>
    block whose requirements are not met) be undefined.
\<close>

type_synonym u8 = "8 word"
type_synonym i32 = "32 word"
type_synonym u64 = "64 word"
type_synonym usize = "64 word"
type_synonym bytes = "u8 list"

named_theorems outcome_simps "rewriting of sequenced outcomes"
named_theorems slice_simps "reading and writing blocks of a byte list"
named_theorems ms_simps "what the accessors of a module state return after its updates"

subsection \<open>Outcomes\<close>

datatype panic_reason =
    Unwrap_None
  | Unwrap_Err
  | Index_Out_Of_Bounds
  | Not_Implemented
  | No_Tokio_Runtime
  | Callback_Panic
  | Explicit_Panic

datatype 'a outcome = Ret 'a | Panic panic_reason | Undefined

primrec obind :: "'a outcome \<Rightarrow> ('a \<Rightarrow> 'b outcome) \<Rightarrow> 'b outcome" where
  "obind (Ret x) f = f x"
| "obind (Panic r) f = Panic r"
| "obind Undefined f = Undefined"

primrec returns :: "'a outcome \<Rightarrow> bool" where
  "returns (Ret x) = True"
| "returns (Panic r) = False"
| "returns Undefined = False"

text \<open>\<open>Option::unwrap\<close> and \<open>Result::unwrap\<close>.\<close>

definition unwrap :: "'a option \<Rightarrow> 'a outcome" where
  "unwrap x = (case x of Some v \<Rightarrow> Ret v | None \<Rightarrow> Panic Unwrap_None)"

definition unwrap_result :: "'a option \<Rightarrow> 'a outcome" where
  "unwrap_result x = (case x of Some v \<Rightarrow> Ret v | None \<Rightarrow> Panic Unwrap_Err)"

lemma obind_assoc [outcome_simps]:
  "obind (obind m f) g = obind m (\<lambda>x. obind (f x) g)"
  by (cases m) simp_all

lemma obind_Ret_right [simp]: "obind m Ret = m"
  by (cases m) simp_all

lemma obind_eq_Ret_iff: "obind m f = Ret y \<longleftrightarrow> (\<exists>x. m = Ret x \<and> f x = Ret y)"
  by (cases m) simp_all

lemma obind_RetE [elim]:
  assumes "obind m f = Ret y"
  obtains x where "m = Ret x" and "f x = Ret y"
  using assms by (cases m) simp_all

lemma obind_eq_Panic_iff:
  "obind m f = Panic r \<longleftrightarrow> m = Panic r \<or> (\<exists>x. m = Ret x \<and> f x = Panic r)"
  by (cases m) auto

text \<open>Inverting a match on a result or an option.\<close>

lemma case_sum_eq_iff:
  "(case r of Inl a \<Rightarrow> f a | Inr b \<Rightarrow> g b) = y \<longleftrightarrow>
   (\<exists>a. r = Inl a \<and> f a = y) \<or> (\<exists>b. r = Inr b \<and> g b = y)"
  by (cases r) auto

lemma case_option_eq_iff:
  "(case r of None \<Rightarrow> a | Some b \<Rightarrow> g b) = y \<longleftrightarrow>
   (r = None \<and> a = y) \<or> (\<exists>b. r = Some b \<and> g b = y)"
  by (cases r) auto

lemmas outcome_inversion = obind_eq_Ret_iff case_sum_eq_iff case_option_eq_iff

lemma returns_iff: "returns m \<longleftrightarrow> (\<exists>x. m = Ret x)"
  by (cases m) simp_all

lemma unwrap_simps [simp, outcome_simps]:
  "unwrap (Some v) = Ret v"
  "unwrap None = Panic Unwrap_None"
  "unwrap_result (Some v) = Ret v"
  "unwrap_result None = Panic Unwrap_Err"
  by (simp_all add: unwrap_def unwrap_result_def)

lemma unwrap_eq_Ret [simp]:
  "unwrap x = Ret v \<longleftrightarrow> x = Some v"
  "unwrap_result x = Ret v \<longleftrightarrow> x = Some v"
  by (cases x; simp)+

subsection \<open>Blocks of a byte list\<close>

text \<open>The \<open>n\<close> bytes from \<open>p\<close>, and the list with the bytes from \<open>p\<close> overwritten by \<open>bs\<close>.\<close>

definition block :: "nat \<Rightarrow> nat \<Rightarrow> 'a list \<Rightarrow> 'a list" where
  "block p n m = take n (drop p m)"

definition overwrite :: "nat \<Rightarrow> 'a list \<Rightarrow> 'a list \<Rightarrow> 'a list" where
  "overwrite p bs m = take p m @ bs @ drop (p + length bs) m"

lemma length_block [simp, slice_simps]: "p + n \<le> length m \<Longrightarrow> length (block p n m) = n"
  by (simp add: block_def)

lemma block_0 [simp, slice_simps]: "block p 0 m = []"
  by (simp add: block_def)

lemma overwrite_Nil [simp, slice_simps]: "overwrite p [] m = m"
  by (simp add: overwrite_def)

lemma length_overwrite [simp, slice_simps]:
  "p + length bs \<le> length m \<Longrightarrow> length (overwrite p bs m) = length m"
  by (simp add: overwrite_def)

lemma block_overwrite_same [simp, slice_simps]:
  "p + length bs \<le> length m \<Longrightarrow> block p (length bs) (overwrite p bs m) = bs"
  by (simp add: block_def overwrite_def)

lemma block_overwrite_before:
  assumes "q + n \<le> p" and "p + length bs \<le> length m"
  shows "block q n (overwrite p bs m) = block q n m"
  using assms by (simp add: block_def overwrite_def take_drop min_absorb1)

lemma block_overwrite_after:
  assumes "p + length bs \<le> q" and "p + length bs \<le> length m"
  shows "block q n (overwrite p bs m) = block q n m"
proof -
  have "drop q (overwrite p bs m) = drop (q - (p + length bs)) (drop (p + length bs) m)"
    using assms by (simp add: overwrite_def)
  then show ?thesis
    using assms(1) by (simp add: block_def)
qed

text \<open>Two blocks that share no address.\<close>

definition disjnt_blocks :: "nat \<Rightarrow> nat \<Rightarrow> nat \<Rightarrow> nat \<Rightarrow> bool" where
  "disjnt_blocks p n q k \<longleftrightarrow> p + n \<le> q \<or> q + k \<le> p \<or> n = 0 \<or> k = 0"

lemma disjnt_blocks_sym: "disjnt_blocks p n q k = disjnt_blocks q k p n"
  by (auto simp: disjnt_blocks_def)

lemma block_overwrite_disjnt [slice_simps]:
  assumes "disjnt_blocks q n p (length bs)" and "p + length bs \<le> length m"
  shows "block q n (overwrite p bs m) = block q n m"
  using assms block_overwrite_before [of q n p bs m] block_overwrite_after [of p bs q m n]
  by (auto simp: disjnt_blocks_def)

lemma block_block: "k + l \<le> n \<Longrightarrow> block k l (block p n m) = block (p + k) l m"
  by (simp add: block_def drop_take min_absorb1 add.commute)

lemma disjnt_blocks_part: "disjnt_blocks p n q k \<Longrightarrow> i + l \<le> n \<Longrightarrow> disjnt_blocks (p + i) l q k"
  by (auto simp: disjnt_blocks_def)

lemma block_overwrite_part:
  assumes "k + l \<le> length bs" and "p + length bs \<le> length m"
  shows "block (p + k) l (overwrite p bs m) = block k l bs"
  using block_block [of k l "length bs" p "overwrite p bs m"] assms by simp

subsection \<open>Strings and their bytes\<close>

text \<open>
  \<open>str::as_bytes\<close> and the byte-for-byte reading back. A Rust string is a byte string that
  passes the validity check of \<open>core::str::from_utf8\<close>, written out in \<open>utf8_valid\<close>.
\<close>

definition u8_of_char :: "char \<Rightarrow> u8" where
  "u8_of_char c = of_nat (of_char c)"

definition char_of_u8 :: "u8 \<Rightarrow> char" where
  "char_of_u8 b = char_of (unat b)"

definition as_bytes :: "string \<Rightarrow> bytes" where
  "as_bytes s = map u8_of_char s"

definition string_of_bytes :: "bytes \<Rightarrow> string" where
  "string_of_bytes bs = map char_of_u8 bs"

definition in_range :: "u8 \<Rightarrow> u8 \<Rightarrow> u8 \<Rightarrow> bool" where
  "in_range lo hi b \<longleftrightarrow> lo \<le> b \<and> b \<le> hi"

definition is_cont :: "u8 \<Rightarrow> bool" where
  "is_cont b \<longleftrightarrow> in_range 0x80 0xBF b"

text \<open>The first byte of a character and the range it allows for the second one.\<close>

definition utf8_width :: "u8 \<Rightarrow> nat" where
  "utf8_width b =
     (if b \<le> 0x7F then 1
      else if in_range 0xC2 0xDF b then 2
      else if in_range 0xE0 0xEF b then 3
      else if in_range 0xF0 0xF4 b then 4
      else 0)"

definition utf8_second_ok :: "u8 \<Rightarrow> u8 \<Rightarrow> bool" where
  "utf8_second_ok b c =
     (if b = 0xE0 then in_range 0xA0 0xBF c
      else if b = 0xED then in_range 0x80 0x9F c
      else if b = 0xF0 then in_range 0x90 0xBF c
      else if b = 0xF4 then in_range 0x80 0x8F c
      else is_cont c)"

fun utf8_valid :: "bytes \<Rightarrow> bool" where
  "utf8_valid [] = True"
| "utf8_valid (b # bs) =
     (if utf8_width b = 1 then utf8_valid bs
      else if utf8_width b = 2 then
        (case bs of c # rest \<Rightarrow> utf8_second_ok b c \<and> utf8_valid rest | _ \<Rightarrow> False)
      else if utf8_width b = 3 then
        (case bs of c # d # rest \<Rightarrow> utf8_second_ok b c \<and> is_cont d \<and> utf8_valid rest
         | _ \<Rightarrow> False)
      else if utf8_width b = 4 then
        (case bs of c # d # e # rest \<Rightarrow>
           utf8_second_ok b c \<and> is_cont d \<and> is_cont e \<and> utf8_valid rest
         | _ \<Rightarrow> False)
      else False)"

text \<open>\<open>String::from_utf8\<close> and \<open>str::from_utf8\<close>; the error value is not used by the code.\<close>

definition from_utf8 :: "bytes \<Rightarrow> string option" where
  "from_utf8 bs = (if utf8_valid bs then Some (string_of_bytes bs) else None)"

definition rust_str :: "string \<Rightarrow> bool" where
  "rust_str s \<longleftrightarrow> utf8_valid (as_bytes s)"

lemma char_of_u8_inverse [simp]: "char_of_u8 (u8_of_char c) = c"
  by (simp add: char_of_u8_def u8_of_char_def unat_of_nat take_bit_eq_mod [symmetric])

lemma u8_of_char_inverse [simp]: "u8_of_char (char_of_u8 b) = b"
proof -
  have "unat b < 256"
    using unsigned_less [of b] by simp
  then show ?thesis
    by (simp add: char_of_u8_def u8_of_char_def)
qed

lemma length_as_bytes [simp]: "length (as_bytes s) = length s"
  by (simp add: as_bytes_def)

lemma length_string_of_bytes [simp]: "length (string_of_bytes bs) = length bs"
  by (simp add: string_of_bytes_def)

lemma string_of_bytes_as_bytes [simp]: "string_of_bytes (as_bytes s) = s"
  by (simp add: as_bytes_def string_of_bytes_def comp_def)

lemma as_bytes_string_of_bytes [simp]: "as_bytes (string_of_bytes bs) = bs"
  by (simp add: as_bytes_def string_of_bytes_def comp_def)

lemma as_bytes_append [simp]: "as_bytes (s @ t) = as_bytes s @ as_bytes t"
  by (simp add: as_bytes_def)

lemma as_bytes_inject [simp]: "as_bytes s = as_bytes t \<longleftrightarrow> s = t"
  by (metis string_of_bytes_as_bytes)

lemma utf8_valid_append:
  "utf8_valid xs \<Longrightarrow> utf8_valid (xs @ ys) = utf8_valid ys"
proof (induction xs rule: utf8_valid.induct)
  case 1
  show ?case by simp
next
  case (2 b bs)
  then show ?case
    by (auto split: if_splits list.splits)
qed

lemma from_utf8_as_bytes [simp]: "rust_str s \<Longrightarrow> from_utf8 (as_bytes s) = Some s"
  by (simp add: from_utf8_def rust_str_def)

lemma from_utf8_eq_Some:
  "from_utf8 bs = Some s \<longleftrightarrow> rust_str s \<and> bs = as_bytes s"
  by (auto simp: from_utf8_def rust_str_def)

lemma rust_str_append: "rust_str s \<Longrightarrow> rust_str (s @ t) = rust_str t"
  by (simp add: rust_str_def utf8_valid_append)

subsection \<open>Conversions between integer types\<close>

text \<open>\<open>n as i32\<close> for a \<open>usize\<close> truncates; \<open>p as usize\<close> for an \<open>i32\<close> sign-extends.\<close>

definition i32_of_len :: "nat \<Rightarrow> i32" where
  "i32_of_len n = of_nat n"

definition usize_of_i32 :: "i32 \<Rightarrow> usize" where
  "usize_of_i32 p = scast p"

lemma sint_i32_of_len: "n < 2 ^ 31 \<Longrightarrow> sint (i32_of_len n) = int n"
  by (simp add: i32_of_len_def signed_of_nat signed_take_bit_int_eq_self)

lemma unat_i32_of_len: "n < 2 ^ 32 \<Longrightarrow> unat (i32_of_len n) = n"
  by (simp add: i32_of_len_def unat_of_nat)

lemma sint_i32_range: "- (2 ^ 31) \<le> sint (p :: i32)" "sint (p :: i32) < 2 ^ 31"
  using sint_greater_eq [of p] sint_less [of p] by simp_all

lemma uint_usize_of_i32: "uint (usize_of_i32 p) = sint p mod 2 ^ 64"
  unfolding usize_of_i32_def scast_eq by (subst uint_word_of_int) simp

lemma unat_usize_of_i32_nonneg: "0 \<le> sint p \<Longrightarrow> unat (usize_of_i32 p) = nat (sint p)"
  using uint_usize_of_i32 [of p] sint_i32_range [of p] by (simp add: unat_eq_nat_uint)

lemma unat_usize_of_i32_neg:
  assumes "sint p < 0"
  shows "2 ^ 63 \<le> unat (usize_of_i32 p)"
proof -
  have "sint p mod 2 ^ 64 = sint p + 2 ^ 64"
    using mod_pos_pos_trivial [of "sint p + 2 ^ 64" "2 ^ 64"] assms sint_i32_range [of p] by simp
  then have "uint (usize_of_i32 p) = sint p + 2 ^ 64"
    by (simp add: uint_usize_of_i32)
  then show ?thesis
    using sint_i32_range [of p] by (simp add: unat_eq_nat_uint nat_le_iff le_nat_iff)
qed

end
