(* ===== verification/Wapc_Errors.thy ===== *)
theory Wapc_Errors
  imports Wapc_Prelude
begin

text \<open>
  The error type of the host crate (\<open>crates/wapc/src/errors.rs\<close>). A
  \<open>Box<dyn std::error::Error>\<close> is used by the code through its \<open>Display\<close> only, so a boxed
  error is the string it displays. \<open>error_to_string\<close> is the \<open>Display\<close> that \<open>thiserror\<close>
  derives from the \<open>#[error(...)]\<close> attributes.
\<close>

type_synonym dyn_error = string

datatype wapc_error =
    NoSuchFunction string
  | IO string
  | WasmMisc string
  | HostCallFailure dyn_error
  | Context string
  | InitFailed string
  | NewContext string
  | GuestCallFailure string
  | ReplacementFailed string
  | ProviderFailure dyn_error
  | General string

fun error_to_string :: "wapc_error \<Rightarrow> string" where
  "error_to_string (NoSuchFunction s) = ''No such function in Wasm module''"
| "error_to_string (IO e) = ''I/O Error: '' @ e"
| "error_to_string (WasmMisc s) = ''WebAssembly failure: '' @ s"
| "error_to_string (HostCallFailure e) = ''Error during host call: '' @ e"
| "error_to_string (Context s) = ''Context creation failed: '' @ s"
| "error_to_string (InitFailed s) = ''Initialization failed: '' @ s"
| "error_to_string (NewContext s) = ''Could not create new execution context: '' @ s"
| "error_to_string (GuestCallFailure s) = ''Guest call failure: '' @ s"
| "error_to_string (ReplacementFailed s) = ''Module replacement failed: '' @ s"
| "error_to_string (ProviderFailure e) = ''WASM Provider failure: '' @ e"
| "error_to_string (General s) = ''General: '' @ s"

text \<open>\<open>Result::map_err\<close>, and the \<open>?\<close> operator on a result whose error is converted.\<close>

definition map_err :: "('e \<Rightarrow> 'f) \<Rightarrow> 'e + 'a \<Rightarrow> 'f + 'a" where
  "map_err f r = (case r of Inl e \<Rightarrow> Inl (f e) | Inr v \<Rightarrow> Inr v)"

lemma map_err_simps [simp]:
  "map_err f (Inl e) = Inl (f e)"
  "map_err f (Inr v) = Inr v"
  by (simp_all add: map_err_def)

lemma map_err_eq_Inr [simp]: "map_err f r = Inr v \<longleftrightarrow> r = Inr v"
  by (cases r) simp_all

end
