(* ===== verification/Module_State.thy ===== *)
theory Module_State
  imports Wapc_Errors
begin

text \<open>
  The state a host and an engine share during a waPC conversation
  (\<open>crates/wapc/src/wapchost/modulestate.rs\<close>, \<open>Invocation\<close> and the callback types of
  \<open>crates/wapc/src/lib.rs\<close>).

  \<^item> \<open>calls\<close> is the \<open>HashMap<i32, CallState>\<close> behind the mutex; \<open>call_index\<close> is the
    \<open>AtomicI32\<close>, whose \<open>fetch_add\<close> wraps around.
  \<^item> A \<open>tokio::sync::oneshot\<close> channel is a slot of the list \<open>oneshots\<close>; its two ends are
    the index of the slot. A slot records what the receiver can see: nothing yet, the value
    sent, or that the sender was dropped without sending.
  \<^item> Every method is one or two critical sections on the mutex, so it is a function from the
    state to the new state; the callbacks run between critical sections. \<open>do_host_call\<close> and
    the spawned task of \<open>do_async_host_call\<close> end with the same section, \<open>record_host_result\<close>.
  \<^item> A callback is a closure of the embedder: it may read and change the world \<open>'w\<close> outside
    the host and may panic.
\<close>

type_synonym host_result = "dyn_error + bytes"

type_synonym 'w host_callback =
  "i32 \<Rightarrow> string \<Rightarrow> string \<Rightarrow> string \<Rightarrow> bytes \<Rightarrow> 'w \<Rightarrow> (host_result \<times> 'w) outcome"

record invocation =
  operation :: string
  msg :: bytes

definition Invocation_new :: "string \<Rightarrow> bytes \<Rightarrow> invocation" where
  "Invocation_new op m = \<lparr>operation = op, msg = m\<rparr>"

record call_state =
  guest_request :: "invocation option"
  guest_response :: "bytes option"
  host_response :: "bytes option"
  guest_error :: "string option"
  host_error :: "string option"
  channel :: "nat option"

definition default_call_state :: call_state where
  "default_call_state =
     \<lparr>guest_request = None, guest_response = None, host_response = None,
      guest_error = None, host_error = None, channel = None\<rparr>"

datatype call_status = Complete call_state | Error call_state

datatype 'a oneshot = Pending | Sent 'a | Sender_Dropped

record 'w module_state =
  calls :: "i32 \<rightharpoonup> call_state"
  async_hostcall :: "'w host_callback option"
  sync_hostcall :: "'w host_callback option"
  call_index :: i32
  module_id :: u64
  oneshots :: "call_status oneshot list"

definition ModuleState_new ::
    "'w host_callback option \<Rightarrow> 'w host_callback option \<Rightarrow> u64 \<Rightarrow> 'w module_state" where
  "ModuleState_new sync async mid =
     \<lparr>calls = Map.empty, async_hostcall = async, sync_hostcall = sync, call_index = 1,
      module_id = mid, oneshots = []\<rparr>"

subsection \<open>Oneshot channels\<close>

text \<open>
  \<open>channel()\<close>, \<open>Sender::send\<close> (the result is ignored by the code) and dropping a sender.
  A channel keeps the first thing that happens to it, as \<open>send\<close> consumes the sender. That the code never
  gets to a second use of a sender is a property of the code (\<open>finish_delivers_once\<close>).
\<close>

definition oneshot_channel :: "'w module_state \<Rightarrow> nat \<times> 'w module_state" where
  "oneshot_channel ms = (length (oneshots ms), ms\<lparr>oneshots := oneshots ms @ [Pending]\<rparr>)"

definition oneshot_resolve :: "nat \<Rightarrow> call_status oneshot \<Rightarrow> 'w module_state \<Rightarrow> 'w module_state" where
  "oneshot_resolve tx v ms =
     (if tx < length (oneshots ms) \<and> oneshots ms ! tx = Pending
      then ms\<lparr>oneshots := (oneshots ms)[tx := v]\<rparr> else ms)"

definition oneshot_send :: "nat \<Rightarrow> call_status \<Rightarrow> 'w module_state \<Rightarrow> 'w module_state" where
  "oneshot_send tx v = oneshot_resolve tx (Sent v)"

definition drop_call_state :: "call_state \<Rightarrow> 'w module_state \<Rightarrow> 'w module_state" where
  "drop_call_state cs ms =
     (case channel cs of None \<Rightarrow> ms | Some tx \<Rightarrow> oneshot_resolve tx Sender_Dropped ms)"

text \<open>\<open>HashMap::insert\<close>, which drops the value it replaces.\<close>

definition calls_insert :: "i32 \<Rightarrow> call_state \<Rightarrow> 'w module_state \<Rightarrow> 'w module_state" where
  "calls_insert i cs ms =
     (let ms' = ms\<lparr>calls := (calls ms)(i \<mapsto> cs)\<rparr>
      in case calls ms i of None \<Rightarrow> ms' | Some old \<Rightarrow> drop_call_state old ms')"

subsection \<open>Creating and finishing calls\<close>

definition next_call_index :: "'w module_state \<Rightarrow> i32 \<times> 'w module_state" where
  "next_call_index ms = (call_index ms, ms\<lparr>call_index := call_index ms + 1\<rparr>)"

definition init_host_call :: "i32 \<Rightarrow> 'w module_state \<Rightarrow> 'w module_state" where
  "init_host_call i ms = calls_insert i default_call_state ms"

definition new_invocation :: "invocation \<Rightarrow> 'w module_state \<Rightarrow> i32 \<times> nat \<times> 'w module_state" where
  "new_invocation iv ms =
     (let (i, ms1) = next_call_index ms;
          (ch, ms2) = oneshot_channel ms1;
          cs = default_call_state\<lparr>guest_request := Some iv, channel := Some ch\<rparr>
      in (i, ch, calls_insert i cs ms2))"

text \<open>
  The channel of the removed state is unwrapped: it is there for a guest invocation and missing
  for a host call.
\<close>

definition finish_guest_invocation ::
    "i32 \<Rightarrow> i32 \<Rightarrow> 'w module_state \<Rightarrow> 'w module_state outcome" where
  "finish_guest_invocation i code ms =
     (case calls ms i of
        None \<Rightarrow> Ret ms
      | Some c \<Rightarrow>
          let ms1 = ms\<lparr>calls := (calls ms)(i := None)\<rparr>; c1 = c\<lparr>channel := None\<rparr>
          in obind (unwrap (channel c)) (\<lambda>tx.
               Ret (oneshot_send tx (if code = 0 then Complete c1 else Error c1) ms1)))"

definition take_state :: "i32 \<Rightarrow> 'w module_state \<Rightarrow> call_state option \<times> 'w module_state" where
  "take_state i ms = (calls ms i, ms\<lparr>calls := (calls ms)(i := None)\<rparr>)"

subsection \<open>Accessors for the engine\<close>

definition get_guest_request :: "i32 \<Rightarrow> 'w module_state \<Rightarrow> invocation option" where
  "get_guest_request i ms = Option.bind (calls ms i) guest_request"

definition get_host_response :: "i32 \<Rightarrow> 'w module_state \<Rightarrow> bytes option" where
  "get_host_response i ms = Option.bind (calls ms i) host_response"

definition get_guest_response :: "i32 \<Rightarrow> 'w module_state \<Rightarrow> bytes option" where
  "get_guest_response i ms = Option.bind (calls ms i) guest_response"

definition get_host_error :: "i32 \<Rightarrow> 'w module_state \<Rightarrow> string option" where
  "get_host_error i ms = Option.bind (calls ms i) host_error"

text \<open>\<open>if let Some(c) = calls.get_mut(&id) { ... }\<close>\<close>

definition update_call :: "i32 \<Rightarrow> (call_state \<Rightarrow> call_state) \<Rightarrow> 'w module_state \<Rightarrow> 'w module_state" where
  "update_call i f ms =
     (case calls ms i of None \<Rightarrow> ms | Some c \<Rightarrow> ms\<lparr>calls := (calls ms)(i \<mapsto> f c)\<rparr>)"

definition set_guest_error :: "i32 \<Rightarrow> string \<Rightarrow> 'w module_state \<Rightarrow> 'w module_state" where
  "set_guest_error i e = update_call i (\<lambda>c. c\<lparr>guest_error := Some e\<rparr>)"

definition set_guest_response :: "i32 \<Rightarrow> bytes \<Rightarrow> 'w module_state \<Rightarrow> 'w module_state" where
  "set_guest_response i r = update_call i (\<lambda>c. c\<lparr>guest_response := Some r\<rparr>)"

definition set_guest_call_complete ::
    "i32 \<Rightarrow> i32 \<Rightarrow> bytes \<Rightarrow> 'w module_state \<Rightarrow> 'w module_state outcome" where
  "set_guest_call_complete i code r ms =
     finish_guest_invocation i code (update_call i (\<lambda>c. c\<lparr>guest_response := Some r\<rparr>) ms)"

subsection \<open>Host calls\<close>

text \<open>
  The last section of both host calls: store the callback's result in the call's state and
  return the code for the guest, the call's id for a success and 0 for a failure.
\<close>

definition record_host_result :: "i32 \<Rightarrow> host_result \<Rightarrow> 'w module_state \<Rightarrow> i32 \<times> 'w module_state" where
  "record_host_result i r ms =
     (case r of
        Inr v \<Rightarrow> (i, update_call i (\<lambda>c. c\<lparr>host_response := Some v\<rparr>) ms)
      | Inl e \<Rightarrow> (0, update_call i (\<lambda>c. c\<lparr>host_error := Some e\<rparr>) ms))"

definition run_callback ::
    "'w host_callback option \<Rightarrow> i32 \<Rightarrow> string \<Rightarrow> string \<Rightarrow> string \<Rightarrow> bytes \<Rightarrow> 'w
     \<Rightarrow> (host_result \<times> 'w) outcome" where
  "run_callback cb i binding namespace op payload w =
     (case cb of
        Some f \<Rightarrow> f i binding namespace op payload w
      | None \<Rightarrow> Ret (Inl ''Missing host callback function!'', w))"

definition do_host_call ::
    "string \<Rightarrow> string \<Rightarrow> string \<Rightarrow> bytes \<Rightarrow> 'w module_state \<Rightarrow> 'w
     \<Rightarrow> ((dyn_error + i32) \<times> 'w module_state \<times> 'w) outcome" where
  "do_host_call binding namespace op payload ms w =
     (let (i, ms1) = next_call_index ms;
          ms2 = init_host_call i ms1
      in obind (run_callback (sync_hostcall ms2) i binding namespace op payload w) (\<lambda>(r, w').
           let (code, ms3) = record_host_result i r ms2
           in Ret (Inr code, ms3, w')))"

text \<open>
  \<open>do_async_host_call\<close> hands the callback's future to \<open>tokio::spawn\<close>: what is spawned is the
  call with its arguments, and \<open>finish_async_host_call\<close> is the end of that task once the
  callback's future is ready, which returns the arguments of the completion callback.
\<close>

record host_task =
  task_id :: i32
  task_binding :: string
  task_namespace :: string
  task_operation :: string
  task_payload :: bytes

definition do_async_host_call ::
    "string \<Rightarrow> string \<Rightarrow> string \<Rightarrow> bytes \<Rightarrow> bool \<Rightarrow> 'w module_state
     \<Rightarrow> ((dyn_error + i32) \<times> host_task \<times> 'w module_state) outcome" where
  "do_async_host_call binding namespace op payload in_runtime ms =
     (let (i, ms1) = next_call_index ms;
          ms2 = init_host_call i ms1;
          task = \<lparr>task_id = i, task_binding = binding, task_namespace = namespace,
                  task_operation = op, task_payload = payload\<rparr>
      in if in_runtime then Ret (Inr i, task, ms2) else Panic No_Tokio_Runtime)"

definition finish_async_host_call ::
    "host_task \<Rightarrow> 'w module_state \<Rightarrow> 'w \<Rightarrow> ((i32 \<times> i32) \<times> 'w module_state \<times> 'w) outcome" where
  "finish_async_host_call t ms w =
     obind (run_callback (async_hostcall ms) (task_id t) (task_binding t) (task_namespace t)
              (task_operation t) (task_payload t) w) (\<lambda>(r, w').
       let (code, ms') = record_host_result (task_id t) r ms
       in Ret ((task_id t, code), ms', w'))"

text \<open>
  What the process around a module state holds: the embedder's world, what was printed, whether
  the current thread runs inside a Tokio runtime, the tasks spawned on it and the two global
  counters of \<open>wapchost.rs\<close>. Logging through \<open>trace!\<close> and its kin is left out.
\<close>

record 'w env =
  world :: 'w
  stdout :: "string list"
  in_runtime :: bool
  spawned :: "host_task list"
  module_count :: u64
  context_count :: u64

definition do_console_log :: "string \<Rightarrow> 'w env \<Rightarrow> 'w env" where
  "do_console_log m ev = ev\<lparr>stdout := stdout ev @ [m]\<rparr>"

subsection \<open>What the operations do to the table of calls\<close>

lemma calls_update_call:
  "calls (update_call i f ms) = (calls ms)(i := map_option f (calls ms i))"
  by (auto simp: update_call_def fun_eq_iff split: option.splits)

lemma update_call_frame [simp, ms_simps]:
  "async_hostcall (update_call i f ms) = async_hostcall ms"
  "sync_hostcall (update_call i f ms) = sync_hostcall ms"
  "call_index (update_call i f ms) = call_index ms"
  "module_id (update_call i f ms) = module_id ms"
  "oneshots (update_call i f ms) = oneshots ms"
  by (simp_all add: update_call_def split: option.splits)

lemma oneshot_resolve_frame [simp, ms_simps]:
  "calls (oneshot_resolve tx v ms) = calls ms"
  "async_hostcall (oneshot_resolve tx v ms) = async_hostcall ms"
  "sync_hostcall (oneshot_resolve tx v ms) = sync_hostcall ms"
  "call_index (oneshot_resolve tx v ms) = call_index ms"
  "module_id (oneshot_resolve tx v ms) = module_id ms"
  "length (oneshots (oneshot_resolve tx v ms)) = length (oneshots ms)"
  by (simp_all add: oneshot_resolve_def)

lemma drop_call_state_frame [simp, ms_simps]:
  "calls (drop_call_state cs ms) = calls ms"
  "async_hostcall (drop_call_state cs ms) = async_hostcall ms"
  "sync_hostcall (drop_call_state cs ms) = sync_hostcall ms"
  "call_index (drop_call_state cs ms) = call_index ms"
  "module_id (drop_call_state cs ms) = module_id ms"
  "length (oneshots (drop_call_state cs ms)) = length (oneshots ms)"
  by (simp_all add: drop_call_state_def split: option.splits)

lemma calls_insert_frame [simp, ms_simps]:
  "calls (calls_insert i cs ms) = (calls ms)(i \<mapsto> cs)"
  "async_hostcall (calls_insert i cs ms) = async_hostcall ms"
  "sync_hostcall (calls_insert i cs ms) = sync_hostcall ms"
  "call_index (calls_insert i cs ms) = call_index ms"
  "module_id (calls_insert i cs ms) = module_id ms"
  "length (oneshots (calls_insert i cs ms)) = length (oneshots ms)"
  by (simp_all add: calls_insert_def Let_def split: option.splits)

lemma init_host_call_frame [simp, ms_simps]:
  "calls (init_host_call i ms) = (calls ms)(i \<mapsto> default_call_state)"
  "async_hostcall (init_host_call i ms) = async_hostcall ms"
  "sync_hostcall (init_host_call i ms) = sync_hostcall ms"
  "call_index (init_host_call i ms) = call_index ms"
  "module_id (init_host_call i ms) = module_id ms"
  by (simp_all add: init_host_call_def)

lemma call_index_record_host_result [simp, ms_simps]:
  "call_index (snd (record_host_result i r ms)) = call_index ms"
  by (simp add: record_host_result_def split: sum.splits)

lemma default_call_state_simps [simp, ms_simps]:
  "guest_request default_call_state = None"
  "guest_response default_call_state = None"
  "host_response default_call_state = None"
  "guest_error default_call_state = None"
  "host_error default_call_state = None"
  "channel default_call_state = None"
  by (simp_all add: default_call_state_def)

text \<open>What survives a change to one call.\<close>

lemma get_update_call:
  "get_guest_request j (update_call i f ms) =
     (if j = i then Option.bind (calls ms i) (guest_request \<circ> f) else get_guest_request j ms)"
  "get_host_response j (update_call i f ms) =
     (if j = i then Option.bind (calls ms i) (host_response \<circ> f) else get_host_response j ms)"
  "get_guest_response j (update_call i f ms) =
     (if j = i then Option.bind (calls ms i) (guest_response \<circ> f) else get_guest_response j ms)"
  "get_host_error j (update_call i f ms) =
     (if j = i then Option.bind (calls ms i) (host_error \<circ> f) else get_host_error j ms)"
  by (simp_all add: calls_update_call get_guest_request_def get_host_response_def
        get_guest_response_def get_host_error_def bind_map_option comp_def)

lemmas call_accessor_defs =
  get_guest_request_def get_host_response_def get_guest_response_def get_host_error_def

subsection \<open>The table as a store of results\<close>

text \<open>
  The contract between the code that records a result under a call's id and the code that reads
  it back: while the call is live a read returns the last write, writes to one call do not
  disturb another, and a write to a call that is gone is lost without effect.
\<close>

locale result_store =
  fixes live :: "'s \<Rightarrow> i32 \<Rightarrow> bool"
    and put :: "i32 \<Rightarrow> 'v \<Rightarrow> 's \<Rightarrow> 's"
    and get :: "i32 \<Rightarrow> 's \<Rightarrow> 'v option"
  assumes get_put_same: "live s i \<Longrightarrow> get i (put i v s) = Some v"
    and get_put_other: "i \<noteq> j \<Longrightarrow> get j (put i v s) = get j s"
    and put_dead: "\<not> live s i \<Longrightarrow> put i v s = s"
    and get_dead: "\<not> live s i \<Longrightarrow> get i s = None"
    and live_put: "live (put i v s) j = live s j"
begin

lemma get_put: "get j (put i v s) = (if j = i \<and> live s i then Some v else get j s)"
  using get_put_same get_put_other put_dead by (cases "j = i"; cases "live s i"; simp)

lemma last_write_wins: "get j (put i v (put i u s)) = get j (put i v s)"
  by (simp add: get_put live_put)

lemma writes_commute:
  assumes "i \<noteq> j"
  shows "get k (put i u (put j v s)) = get k (put j v (put i u s))"
  using assms by (auto simp: get_put live_put)

lemma read_is_live: "get i s = Some v \<Longrightarrow> live s i"
  using get_dead by fastforce

end

definition call_live :: "'w module_state \<Rightarrow> i32 \<Rightarrow> bool" where
  "call_live ms i \<longleftrightarrow> calls ms i \<noteq> None"

definition put_host_response :: "i32 \<Rightarrow> bytes \<Rightarrow> 'w module_state \<Rightarrow> 'w module_state" where
  "put_host_response i v ms = snd (record_host_result i (Inr v) ms)"

definition put_host_error :: "i32 \<Rightarrow> string \<Rightarrow> 'w module_state \<Rightarrow> 'w module_state" where
  "put_host_error i e ms = snd (record_host_result i (Inl e) ms)"

lemma update_call_dead: "\<not> call_live ms i \<Longrightarrow> update_call i f ms = ms"
  by (simp add: call_live_def update_call_def)

lemma call_live_update_call [simp, ms_simps]: "call_live (update_call i f ms) j = call_live ms j"
  by (simp add: call_live_def calls_update_call)

lemma bind_call_live: "call_live ms i \<Longrightarrow> Option.bind (calls ms i) (\<lambda>c. Some v) = Some v"
  by (auto simp: call_live_def)

lemma accessor_dead:
  "\<not> call_live ms i \<Longrightarrow> get_guest_request i ms = None"
  "\<not> call_live ms i \<Longrightarrow> get_guest_response i ms = None"
  "\<not> call_live ms i \<Longrightarrow> get_host_response i ms = None"
  "\<not> call_live ms i \<Longrightarrow> get_host_error i ms = None"
  by (simp_all add: call_live_def call_accessor_defs)

interpretation guest_responses: result_store call_live set_guest_response get_guest_response
  by unfold_locales
     (auto simp: set_guest_response_def get_update_call update_call_dead accessor_dead
        bind_call_live comp_def)

interpretation host_responses: result_store call_live put_host_response get_host_response
  by unfold_locales
     (auto simp: put_host_response_def record_host_result_def get_update_call update_call_dead
        accessor_dead bind_call_live comp_def)

interpretation host_errors: result_store call_live put_host_error get_host_error
  by unfold_locales
     (auto simp: put_host_error_def record_host_result_def get_update_call update_call_dead
        accessor_dead bind_call_live comp_def)

end
