(* ===== verification/Wapc_Traits.thy ===== *)
theory Wapc_Traits
  imports Module_State
begin

text \<open>
  The engine traits of \<open>crates/wapc/src/wapchost/traits.rs\<close> and the WASI parameters of
  \<open>crates/wapc/src/wasi.rs\<close>. A \<open>Box<dyn WebAssemblyEngineProvider>\<close> is a value of type \<open>'e\<close> with
  the table of its methods; the contexts it makes have type \<open>'c\<close>. The module state handed to
  \<open>new_context\<close> is shared, so every method that runs guest code takes and returns it. A boxed error
  is what it displays.
\<close>

record ('e, 'c, 'w) engine_provider =
  engine_init :: "'e \<Rightarrow> ((dyn_error + unit) \<times> 'e) outcome"
  engine_new_context ::
    "'e \<Rightarrow> 'w module_state \<Rightarrow> 'w env \<Rightarrow> ((dyn_error + 'c) \<times> 'w module_state \<times> 'w env) outcome"
  engine_replace :: "'e \<Rightarrow> bytes \<Rightarrow> ((dyn_error + unit) \<times> 'e) outcome"
  context_init ::
    "'c \<Rightarrow> 'w module_state \<Rightarrow> 'w env
     \<Rightarrow> ((dyn_error + unit) \<times> 'c \<times> 'w module_state \<times> 'w env) outcome"
  context_call ::
    "'c \<Rightarrow> i32 \<Rightarrow> i32 \<Rightarrow> i32 \<Rightarrow> 'w module_state \<Rightarrow> 'w env
     \<Rightarrow> ((dyn_error + i32) \<times> 'c \<times> 'w module_state \<times> 'w env) outcome"
  context_call_async ::
    "'c \<Rightarrow> i32 \<Rightarrow> i32 \<Rightarrow> i32 \<Rightarrow> 'w module_state \<Rightarrow> 'w env
     \<Rightarrow> ((dyn_error + i32) \<times> 'c \<times> 'w module_state \<times> 'w env) outcome"

text \<open>The default bodies of the two \<open>init\<close> methods.\<close>

definition default_engine_init :: "'e \<Rightarrow> ((dyn_error + unit) \<times> 'e) outcome" where
  "default_engine_init e = Ret (Inr (), e)"

definition default_context_init ::
    "'c \<Rightarrow> 'w module_state \<Rightarrow> 'w env
     \<Rightarrow> ((dyn_error + unit) \<times> 'c \<times> 'w module_state \<times> 'w env) outcome" where
  "default_context_init c ms ev = Ret (Inr (), c, ms, ev)"

record wasi_params =
  argv :: "string list"
  map_dirs :: "(string \<times> string) list"
  env_vars :: "(string \<times> string) list"
  preopened_dirs :: "string list"

definition WasiParams_new ::
    "string list \<Rightarrow> (string \<times> string) list \<Rightarrow> (string \<times> string) list \<Rightarrow> string list
     \<Rightarrow> wasi_params" where
  "WasiParams_new a m e p = \<lparr>argv = a, map_dirs = m, env_vars = e, preopened_dirs = p\<rparr>"

definition WasiParams_default :: wasi_params where
  "WasiParams_default = \<lparr>argv = [], map_dirs = [], env_vars = [], preopened_dirs = []\<rparr>"

end
