(* ===== verification/Call_Lifecycle.thy ===== *)
theory Call_Lifecycle
  imports Module_State
begin

text \<open>
  The life of a call in the shared state of \<open>Module_State\<close>: the invariant that ties the table
  of calls to the oneshot channels, the steps that any interleaving of the host, the engine,
  the guest and the spawned host-call tasks is made of, and what holds in every reachable state.

  A step is one critical section or one atomic operation, so that \<open>fetch_add\<close> and the insertion
  that follows it are two steps and other threads may run in between. Taking a call's state out
  (\<open>take_state\<close>) is taken together with dropping it, which is where the sender of its channel
  goes.
\<close>

subsection \<open>The invariant\<close>

definition holds_sender :: "'w module_state \<Rightarrow> i32 \<Rightarrow> nat \<Rightarrow> bool" where
  "holds_sender ms i tx \<longleftrightarrow> (\<exists>c. calls ms i = Some c \<and> channel c = Some tx)"

text \<open>Every sender in the table belongs to a channel nothing was sent on, no two calls hold the
  same sender, every unresolved channel has its sender in the table, and exactly the guest
  invocations hold a sender.\<close>

definition senders_pending :: "'w module_state \<Rightarrow> bool" where
  "senders_pending ms \<longleftrightarrow>
     (\<forall>i tx. holds_sender ms i tx \<longrightarrow> tx < length (oneshots ms) \<and> oneshots ms ! tx = Pending)"

definition senders_unique :: "'w module_state \<Rightarrow> bool" where
  "senders_unique ms \<longleftrightarrow> (\<forall>i j tx. holds_sender ms i tx \<longrightarrow> holds_sender ms j tx \<longrightarrow> i = j)"

definition pending_held :: "'w module_state \<Rightarrow> bool" where
  "pending_held ms \<longleftrightarrow>
     (\<forall>tx < length (oneshots ms). oneshots ms ! tx = Pending \<longrightarrow> (\<exists>i. holds_sender ms i tx))"

definition call_kinds :: "'w module_state \<Rightarrow> bool" where
  "call_kinds ms \<longleftrightarrow>
     (\<forall>i c. calls ms i = Some c \<longrightarrow> (guest_request c = None \<longleftrightarrow> channel c = None))"

definition ms_wf :: "'w module_state \<Rightarrow> bool" where
  "ms_wf ms \<longleftrightarrow> senders_pending ms \<and> senders_unique ms \<and> pending_held ms \<and> call_kinds ms"

lemmas ms_wf_defs = ms_wf_def senders_pending_def senders_unique_def pending_held_def call_kinds_def

lemma ms_wf_new [simp]: "ms_wf (ModuleState_new sync async mid)"
  by (simp add: ms_wf_defs ModuleState_new_def holds_sender_def)

lemma ms_wf_cong:
  assumes "calls ms' = calls ms" and "oneshots ms' = oneshots ms"
  shows "ms_wf ms' = ms_wf ms"
  using assms by (simp add: ms_wf_defs holds_sender_def)

text \<open>A change to one call that keeps its request and its sender keeps the invariant.\<close>

lemma holds_sender_update_call:
  assumes "\<And>c. channel (f c) = channel c"
  shows "holds_sender (update_call i f ms) j tx = holds_sender ms j tx"
  using assms by (auto simp: holds_sender_def calls_update_call)

lemma ms_wf_update_call:
  assumes "\<And>c. channel (f c) = channel c" and "\<And>c. guest_request (f c) = guest_request c"
    and "ms_wf ms"
  shows "ms_wf (update_call i f ms)"
proof -
  have "call_kinds (update_call i f ms)"
    using assms by (auto simp: ms_wf_def call_kinds_def calls_update_call)
  then show ?thesis
    using assms(3) by (simp add: ms_wf_def senders_pending_def senders_unique_def pending_held_def
        holds_sender_update_call assms(1))
qed

text \<open>Removing a call and resolving the channel whose sender it held.\<close>

definition remove_call :: "i32 \<Rightarrow> 'w module_state \<Rightarrow> 'w module_state" where
  "remove_call i ms = ms\<lparr>calls := (calls ms)(i := None)\<rparr>"

lemma holds_sender_remove_call:
  "holds_sender (remove_call i ms) j tx \<longleftrightarrow> j \<noteq> i \<and> holds_sender ms j tx"
  by (auto simp: holds_sender_def remove_call_def)

lemma remove_call_frame [simp]:
  "oneshots (remove_call i ms) = oneshots ms"
  "call_index (remove_call i ms) = call_index ms"
  "sync_hostcall (remove_call i ms) = sync_hostcall ms"
  "async_hostcall (remove_call i ms) = async_hostcall ms"
  "calls (remove_call i ms) = (calls ms)(i := None)"
  by (simp_all add: remove_call_def)

lemma call_kinds_remove: "call_kinds ms \<Longrightarrow> call_kinds (remove_call i ms)"
  by (simp add: call_kinds_def)

lemma ms_wf_remove_silent:
  assumes "ms_wf ms" and "\<And>tx. \<not> holds_sender ms i tx"
  shows "ms_wf (remove_call i ms)"
proof -
  have same: "holds_sender (remove_call i ms) j tx = holds_sender ms j tx" for j tx
    using assms(2) by (auto simp: holds_sender_remove_call)
  show ?thesis
    using assms(1) call_kinds_remove [of ms i]
    by (simp add: ms_wf_def senders_pending_def senders_unique_def pending_held_def same)
qed

lemma oneshots_resolve:
  assumes "tx < length (oneshots ms)" and "oneshots ms ! tx = Pending"
  shows "oneshots (oneshot_resolve tx v ms) = (oneshots ms)[tx := v]"
  using assms by (simp add: oneshot_resolve_def)

lemma holds_sender_resolve [simp]:
  "holds_sender (oneshot_resolve tx v ms) i t = holds_sender ms i t"
  by (simp add: holds_sender_def)

lemma call_kinds_resolve [simp]: "call_kinds (oneshot_resolve tx v ms) = call_kinds ms"
  by (simp add: call_kinds_def)

lemma ms_wf_remove_resolve:
  assumes wf: "ms_wf ms" and tx: "holds_sender ms i tx" and v: "v \<noteq> Pending"
  shows "ms_wf (oneshot_resolve tx v (remove_call i ms))"
proof -
  let ?r = "remove_call i ms"
  have at: "tx < length (oneshots ms)" "oneshots ms ! tx = Pending"
    using wf tx by (auto simp: ms_wf_def senders_pending_def)
  have slots: "oneshots (oneshot_resolve tx v ?r) = (oneshots ms)[tx := v]"
    using at by (simp add: oneshots_resolve)
  have other: "t \<noteq> tx" if "holds_sender ?r j t" for j t
    using that tx wf by (auto simp: holds_sender_remove_call ms_wf_def senders_unique_def)
  have "senders_pending (oneshot_resolve tx v ?r)"
    using wf other by (force simp: senders_pending_def slots ms_wf_def holds_sender_remove_call)
  moreover have "senders_unique (oneshot_resolve tx v ?r)"
    using wf by (auto simp: senders_unique_def ms_wf_def holds_sender_remove_call)
  moreover have "pending_held (oneshot_resolve tx v ?r)"
    unfolding pending_held_def
  proof (intro allI impI)
    fix t
    assume t: "t < length (oneshots (oneshot_resolve tx v ?r))"
      and pend: "oneshots (oneshot_resolve tx v ?r) ! t = Pending"
    have "t \<noteq> tx"
      using pend v at by (auto simp: slots)
    with t pend wf obtain j where j: "holds_sender ms j t"
      by (auto simp: slots ms_wf_def pending_held_def)
    have "j \<noteq> i"
      using j tx \<open>t \<noteq> tx\<close> by (auto simp: holds_sender_def)
    with j show "\<exists>j. holds_sender (oneshot_resolve tx v ?r) j t"
      by (auto simp: holds_sender_remove_call)
  qed
  ultimately show ?thesis
    using wf call_kinds_remove [of ms i] by (simp add: ms_wf_def)
qed

text \<open>Clearing a key of the table, as \<open>HashMap::insert\<close> does before it stores the new value.\<close>

definition evict :: "i32 \<Rightarrow> 'w module_state \<Rightarrow> 'w module_state" where
  "evict i ms =
     (case calls ms i of None \<Rightarrow> ms | Some c \<Rightarrow> drop_call_state c (remove_call i ms))"

definition put_call :: "i32 \<Rightarrow> call_state \<Rightarrow> 'w module_state \<Rightarrow> 'w module_state" where
  "put_call i cs ms = ms\<lparr>calls := (calls ms)(i \<mapsto> cs)\<rparr>"

lemma oneshot_resolve_calls_update:
  "oneshot_resolve tx v (ms\<lparr>calls := t\<rparr>) = (oneshot_resolve tx v ms)\<lparr>calls := t\<rparr>"
  by (simp add: oneshot_resolve_def)

lemma calls_insert_evict: "calls_insert i cs ms = put_call i cs (evict i ms)"
  by (cases "calls ms i")
     (simp_all add: calls_insert_def evict_def put_call_def drop_call_state_def remove_call_def
        oneshot_resolve_calls_update split: option.splits)

lemma ms_wf_evict: "ms_wf ms \<Longrightarrow> ms_wf (evict i ms)"
  by (cases "calls ms i")
     (auto simp: evict_def drop_call_state_def holds_sender_def split: option.splits
        intro!: ms_wf_remove_silent ms_wf_remove_resolve)

lemma evict_frame [simp]:
  "calls (evict i ms) = (calls ms)(i := None)"
  "length (oneshots (evict i ms)) = length (oneshots ms)"
  by (auto simp: evict_def fun_eq_iff split: option.splits)

lemma evict_new_channel:
  assumes "ms_wf ms"
  shows "evict i (ms\<lparr>oneshots := oneshots ms @ [Pending]\<rparr>)
       = (evict i ms)\<lparr>oneshots := oneshots (evict i ms) @ [Pending]\<rparr>"
proof (cases "\<exists>c tx. calls ms i = Some c \<and> channel c = Some tx")
  case True
  then obtain c tx where c: "calls ms i = Some c" "channel c = Some tx"
    by blast
  then have "tx < length (oneshots ms)" "oneshots ms ! tx = Pending"
    using assms by (auto simp: ms_wf_def senders_pending_def holds_sender_def)
  with c show ?thesis
    by (simp add: evict_def drop_call_state_def oneshot_resolve_def remove_call_def
          nth_append list_update_append)
next
  case False
  then show ?thesis
    by (auto simp: evict_def drop_call_state_def remove_call_def split: option.splits)
qed

lemma holds_sender_put_call:
  "holds_sender (put_call i cs ms) j tx \<longleftrightarrow>
     (if j = i then channel cs = Some tx else holds_sender ms j tx)"
  by (simp add: holds_sender_def put_call_def)

lemma put_call_frame [simp]:
  "oneshots (put_call i cs ms) = oneshots ms"
  "calls (put_call i cs ms) = (calls ms)(i \<mapsto> cs)"
  by (simp_all add: put_call_def)

lemma ms_wf_put_silent:
  assumes "ms_wf ms" and "calls ms i = None" and "channel cs = None" and "guest_request cs = None"
  shows "ms_wf (put_call i cs ms)"
proof -
  have same: "holds_sender (put_call i cs ms) j tx = holds_sender ms j tx" for j tx
    using assms(2,3) by (auto simp: holds_sender_put_call) (simp add: holds_sender_def)
  show ?thesis
    using assms by (simp add: ms_wf_def senders_pending_def senders_unique_def pending_held_def
        call_kinds_def same)
qed

lemma ms_wf_put_sender:
  assumes wf: "ms_wf ms" and free: "calls ms i = None"
    and cs: "channel cs = Some (length (oneshots ms))" "guest_request cs \<noteq> None"
  shows "ms_wf (put_call i cs (ms\<lparr>oneshots := oneshots ms @ [Pending]\<rparr>))"
    (is "ms_wf ?ms'")
proof -
  have holds: "holds_sender ?ms' j tx \<longleftrightarrow>
      (if j = i then tx = length (oneshots ms) else holds_sender ms j tx)" for j tx
    using cs(1) by (auto simp: holds_sender_put_call) (simp_all add: holds_sender_def)
  have old: "tx < length (oneshots ms)" "oneshots ms ! tx = Pending" if "holds_sender ms j tx" for j tx
    using that wf by (auto simp: ms_wf_def senders_pending_def)
  have "senders_pending ?ms'"
    using old by (auto simp: senders_pending_def holds nth_append less_Suc_eq)
  moreover have "senders_unique ?ms'"
    using old wf by (fastforce simp: senders_unique_def holds ms_wf_def split: if_splits)
  moreover have "pending_held ?ms'"
    unfolding pending_held_def
  proof (intro allI impI)
    fix tx
    assume "tx < length (oneshots ?ms')" and "oneshots ?ms' ! tx = Pending"
    then consider "tx = length (oneshots ms)" | "tx < length (oneshots ms)" "oneshots ms ! tx = Pending"
      by (auto simp: nth_append less_Suc_eq split: if_splits)
    then show "\<exists>j. holds_sender ?ms' j tx"
    proof cases
      case 1
      then show ?thesis by (auto simp: holds)
    next
      case 2
      then obtain j where j: "holds_sender ms j tx"
        using wf by (auto simp: ms_wf_def pending_held_def)
      then have "j \<noteq> i"
        using free by (auto simp: holds_sender_def)
      with j show ?thesis by (auto simp: holds)
    qed
  qed
  moreover have "call_kinds ?ms'"
    using wf cs by (auto simp: call_kinds_def ms_wf_def)
  ultimately show ?thesis
    by (simp add: ms_wf_def)
qed

subsection \<open>Every operation keeps the invariant\<close>

lemma ms_wf_next_call_index [simp]: "ms_wf (snd (next_call_index ms)) = ms_wf ms"
  by (rule ms_wf_cong) (simp_all add: next_call_index_def)

lemma ms_wf_init_host_call: "ms_wf ms \<Longrightarrow> ms_wf (init_host_call i ms)"
  by (simp add: init_host_call_def calls_insert_evict ms_wf_put_silent ms_wf_evict)

lemma ms_wf_insert_invocation:
  assumes "ms_wf ms" and "oneshot_channel ms = (ch, ms1)"
  shows "ms_wf (calls_insert i (default_call_state\<lparr>guest_request := Some iv, channel := Some ch\<rparr>) ms1)"
  using assms evict_new_channel [of ms i]
  by (auto simp: oneshot_channel_def calls_insert_evict intro!: ms_wf_put_sender ms_wf_evict)

lemma ms_wf_new_invocation:
  assumes "ms_wf ms" and "new_invocation iv ms = (i, ch, ms')"
  shows "ms_wf ms'"
  using assms ms_wf_insert_invocation [of "snd (next_call_index ms)"]
  by (auto simp: new_invocation_def Let_def split: prod.splits)

lemma ms_wf_record_host_result: "ms_wf ms \<Longrightarrow> ms_wf (snd (record_host_result i r ms))"
  by (auto simp: record_host_result_def intro!: ms_wf_update_call split: sum.splits)

lemma ms_wf_set_guest_error: "ms_wf ms \<Longrightarrow> ms_wf (set_guest_error i e ms)"
  by (simp add: set_guest_error_def ms_wf_update_call)

lemma ms_wf_set_guest_response: "ms_wf ms \<Longrightarrow> ms_wf (set_guest_response i r ms)"
  by (simp add: set_guest_response_def ms_wf_update_call)

lemma finish_guest_invocation_live:
  assumes "calls ms i = Some c" and "channel c = Some tx"
  shows "finish_guest_invocation i code ms =
           Ret (oneshot_resolve tx
                  (Sent ((if code = 0 then Complete else Error) (c\<lparr>channel := None\<rparr>)))
                  (remove_call i ms))"
  using assms by (simp add: finish_guest_invocation_def oneshot_send_def remove_call_def Let_def)

lemma ms_wf_finish:
  assumes wf: "ms_wf ms" and fin: "finish_guest_invocation i code ms = Ret ms'"
  shows "ms_wf ms'"
proof (cases "calls ms i")
  case None
  with assms show ?thesis by (simp add: finish_guest_invocation_def)
next
  case (Some c)
  with fin obtain tx where tx: "channel c = Some tx"
    by (auto simp: finish_guest_invocation_def Let_def)
  have "holds_sender ms i tx"
    using Some tx by (simp add: holds_sender_def)
  then show ?thesis
    using fin wf by (auto simp: finish_guest_invocation_live [OF Some tx]
        intro!: ms_wf_remove_resolve)
qed

lemma ms_wf_complete:
  assumes "ms_wf ms" and "set_guest_call_complete i code r ms = Ret ms'"
  shows "ms_wf ms'"
  using assms ms_wf_finish ms_wf_update_call [of "\<lambda>c. c\<lparr>guest_response := Some r\<rparr>" ms i]
  by (auto simp: set_guest_call_complete_def)

lemma take_drop_evict:
  "take_state i ms = (st, ms1) \<Longrightarrow>
     (case st of None \<Rightarrow> ms1 | Some c \<Rightarrow> drop_call_state c ms1) = remove_call i (evict i ms)"
  by (cases "calls ms i")
     (auto simp: take_state_def evict_def remove_call_def drop_call_state_def oneshot_resolve_def
        split: option.splits)

lemma ms_wf_take_drop:
  assumes "ms_wf ms" and "take_state i ms = (st, ms1)"
  shows "ms_wf (case st of None \<Rightarrow> ms1 | Some c \<Rightarrow> drop_call_state c ms1)"
  unfolding take_drop_evict [OF assms(2)]
  by (rule ms_wf_remove_silent [OF ms_wf_evict [OF assms(1)]]) (simp add: holds_sender_def)

lemmas ms_wf_ops =
  ms_wf_init_host_call ms_wf_insert_invocation ms_wf_new_invocation ms_wf_record_host_result
  ms_wf_set_guest_error ms_wf_set_guest_response ms_wf_finish ms_wf_complete ms_wf_take_drop

subsection \<open>Interleavings\<close>

inductive ms_step :: "'w module_state \<Rightarrow> 'w module_state \<Rightarrow> bool" where
  fetch: "ms_step ms (snd (next_call_index ms))"
| invoke: "oneshot_channel ms = (ch, ms1) \<Longrightarrow>
     ms_step ms
       (calls_insert i (default_call_state\<lparr>guest_request := Some iv, channel := Some ch\<rparr>) ms1)"
| begin_host_call: "ms_step ms (init_host_call i ms)"
| end_host_call: "ms_step ms (snd (record_host_result i r ms))"
| guest_failed: "ms_step ms (set_guest_error i e ms)"
| guest_replied: "ms_step ms (set_guest_response i b ms)"
| finished: "finish_guest_invocation i code ms = Ret ms' \<Longrightarrow> ms_step ms ms'"
| completed: "set_guest_call_complete i code b ms = Ret ms' \<Longrightarrow> ms_step ms ms'"
| taken: "take_state i ms = (st, ms1) \<Longrightarrow>
     ms_step ms (case st of None \<Rightarrow> ms1 | Some c \<Rightarrow> drop_call_state c ms1)"

inductive ms_steps :: "'w module_state \<Rightarrow> 'w module_state \<Rightarrow> bool" where
  refl: "ms_steps ms ms"
| step: "ms_steps ms ms' \<Longrightarrow> ms_step ms' ms'' \<Longrightarrow> ms_steps ms ms''"

lemma ms_step_wf: "ms_step ms ms' \<Longrightarrow> ms_wf ms \<Longrightarrow> ms_wf ms'"
  by (induction rule: ms_step.induct) (auto intro: ms_wf_ops)

lemma ms_steps_wf: "ms_steps ms ms' \<Longrightarrow> ms_wf ms \<Longrightarrow> ms_wf ms'"
  by (induction rule: ms_steps.induct) (auto intro: ms_step_wf)

text \<open>C10: in every state that any interleaving of the operations reaches from a fresh module
  state, each sender in the table of calls belongs to a channel nothing was sent on, no two calls
  share a sender, exactly the guest invocations hold one, and a receiver still waiting has its
  call in the table.\<close>

theorem module_state_invariant:
  assumes "ms_steps (ModuleState_new sync async mid) ms"
  shows "ms_wf ms"
  using assms by (rule ms_steps_wf) simp

definition sample_invocation :: invocation where
  "sample_invocation = Invocation_new ''echo'' [1, 2, 3]"

lemma sample_invoked_reachable:
  "ms_steps (ModuleState_new sync async mid)
     (snd (snd (new_invocation sample_invocation (ModuleState_new sync async mid))))"
proof -
  let ?new = "ModuleState_new sync async mid"
  obtain ch ms2 where ch: "oneshot_channel (snd (next_call_index ?new)) = (ch, ms2)"
    by (cases "oneshot_channel (snd (next_call_index ?new))")
  have "ms_steps ?new (snd (next_call_index ?new))"
    by (rule ms_steps.step [OF ms_steps.refl ms_step.fetch])
  from ms_steps.step [OF this ms_step.invoke [OF ch, of "call_index ?new" sample_invocation]] ch
  show ?thesis
    by (simp add: new_invocation_def next_call_index_def)
qed

theorem module_state_invariant_witness:
  "ms_wf (snd (snd (new_invocation sample_invocation (ModuleState_new None None 1 :: nat module_state))))"
  by (rule module_state_invariant [OF sample_invoked_reachable])

subsection \<open>A channel is resolved at most once\<close>

lemma oneshot_resolve_keeps:
  assumes "tx < length (oneshots ms)" and "oneshots ms ! tx \<noteq> Pending"
  shows "oneshots (oneshot_resolve t v ms) ! tx = oneshots ms ! tx"
  using assms by (simp add: oneshot_resolve_def nth_list_update)

lemma drop_call_state_keeps:
  assumes "tx < length (oneshots ms)" and "oneshots ms ! tx \<noteq> Pending"
  shows "oneshots (drop_call_state c ms) ! tx = oneshots ms ! tx"
  using assms by (simp add: drop_call_state_def oneshot_resolve_keeps split: option.splits)

lemma calls_insert_keeps:
  assumes "tx < length (oneshots ms)" and "oneshots ms ! tx \<noteq> Pending"
  shows "oneshots (calls_insert i cs ms) ! tx = oneshots ms ! tx"
  using assms by (simp add: calls_insert_def Let_def drop_call_state_keeps split: option.splits)

lemma finish_keeps:
  assumes "finish_guest_invocation i code ms = Ret ms'"
    and "tx < length (oneshots ms)" and "oneshots ms ! tx \<noteq> Pending"
  shows "oneshots ms' ! tx = oneshots ms ! tx" "length (oneshots ms') = length (oneshots ms)"
  using assms
  by (auto simp: finish_guest_invocation_def Let_def oneshot_send_def oneshot_resolve_keeps
      split: option.splits)

lemma length_oneshots_finish:
  "finish_guest_invocation i code ms = Ret ms' \<Longrightarrow> length (oneshots ms') = length (oneshots ms)"
  by (auto simp: finish_guest_invocation_def Let_def oneshot_send_def split: option.splits)

lemma ms_step_length: "ms_step ms ms' \<Longrightarrow> length (oneshots ms) \<le> length (oneshots ms')"
  by (induction rule: ms_step.induct)
     (auto simp: next_call_index_def oneshot_channel_def init_host_call_def record_host_result_def
        set_guest_error_def set_guest_response_def set_guest_call_complete_def take_state_def
        dest!: length_oneshots_finish split: sum.splits option.splits)

lemma ms_step_keeps:
  assumes "ms_step ms ms'" and "tx < length (oneshots ms)" and "oneshots ms ! tx \<noteq> Pending"
  shows "oneshots ms' ! tx = oneshots ms ! tx"
  using assms
  by (induction rule: ms_step.induct)
     (auto simp: next_call_index_def oneshot_channel_def init_host_call_def record_host_result_def
        set_guest_error_def set_guest_response_def set_guest_call_complete_def take_state_def
        calls_insert_keeps drop_call_state_keeps nth_append finish_keeps
        split: sum.splits option.splits)

lemma ms_steps_keeps:
  assumes "ms_steps ms ms'" and "tx < length (oneshots ms)" and "oneshots ms ! tx \<noteq> Pending"
  shows "tx < length (oneshots ms') \<and> oneshots ms' ! tx = oneshots ms ! tx"
  using assms
proof (induction rule: ms_steps.induct)
  case (refl ms)
  then show ?case by simp
next
  case (step ms ms' ms'')
  then show ?case
    using ms_step_keeps [of ms' ms'' tx] ms_step_length [of ms' ms''] by simp
qed

definition sample_state :: "nat module_state" where
  "sample_state = snd (snd (new_invocation sample_invocation (ModuleState_new None None 1)))"

lemmas sample_defs =
  sample_state_def sample_invocation_def Invocation_new_def ModuleState_new_def
  new_invocation_def next_call_index_def oneshot_channel_def calls_insert_def set_guest_response_def
  update_call_def finish_guest_invocation_def oneshot_send_def oneshot_resolve_def Let_def

subsection \<open>Starting and finishing a guest invocation\<close>

text \<open>A new invocation gets the current index as its id, its request is what the engine reads
  under that id, no response or error is set, its channel is open, and no other call changes.\<close>

theorem new_invocation_stores_request:
  assumes "new_invocation iv ms = (i, ch, ms')"
  shows "i = call_index ms \<and> call_index ms' = i + 1
    \<and> get_guest_request i ms' = Some iv \<and> get_guest_response i ms' = None
    \<and> get_host_response i ms' = None \<and> get_host_error i ms' = None
    \<and> holds_sender ms' i ch \<and> ch = length (oneshots ms)
    \<and> (\<forall>j. j \<noteq> i \<longrightarrow> calls ms' j = calls ms j)"
  using assms
  by (auto simp: new_invocation_def next_call_index_def oneshot_channel_def call_accessor_defs
      holds_sender_def)

theorem new_invocation_stores_request_witness:
  "get_guest_request 1 sample_state = Some sample_invocation \<and> calls sample_state 7 = None"
proof -
  have "new_invocation sample_invocation (ModuleState_new None None 1)
      = (1, 0, sample_state)"
    by (simp add: sample_defs)
  from new_invocation_stores_request [OF this]
  have "get_guest_request 1 sample_state = Some sample_invocation"
    and "\<forall>j. j \<noteq> 1 \<longrightarrow> calls sample_state j = calls (ModuleState_new None None 1 :: nat module_state) j"
    by simp_all
  then show ?thesis
    by (simp add: ModuleState_new_def)
qed

lemma finish_absent: "calls ms i = None \<Longrightarrow> finish_guest_invocation i code ms = Ret ms"
  by (simp add: finish_guest_invocation_def)

lemma finish_delivers:
  assumes "ms_wf ms" and "calls ms i = Some c" and "guest_request c \<noteq> None"
  obtains tx ms' where "holds_sender ms i tx" and "tx < length (oneshots ms)" and "oneshots ms ! tx = Pending"
    and "finish_guest_invocation i code ms = Ret ms'" and "calls ms' = (calls ms)(i := None)"
    and "oneshots ms' ! tx = Sent ((if code = 0 then Complete else Error) (c\<lparr>channel := None\<rparr>))"
proof -
  obtain tx where tx: "channel c = Some tx"
    using assms by (auto simp: ms_wf_def call_kinds_def)
  have held: "holds_sender ms i tx"
    using assms(2) tx by (simp add: holds_sender_def)
  then have at: "tx < length (oneshots ms)" "oneshots ms ! tx = Pending"
    using assms(1) by (auto simp: ms_wf_def senders_pending_def)
  have fin: "finish_guest_invocation i code ms = Ret (oneshot_resolve tx
      (Sent ((if code = 0 then Complete else Error) (c\<lparr>channel := None\<rparr>))) (remove_call i ms))"
    (is "_ = Ret ?ms'")
    by (rule finish_guest_invocation_live [OF assms(2) tx])
  show thesis
    by (rule that [OF held at fin]) (use at oneshots_resolve [of tx "remove_call i ms"] in simp_all)
qed

lemma sample_state_wf: "ms_wf sample_state"
  unfolding sample_state_def by (rule ms_steps_wf [OF sample_invoked_reachable ms_wf_new])

text \<open>C37: a guest call is answered once. In every state the operations reach, finishing a live guest
  invocation takes it out of the table and sends its state on its channel, which nothing was sent on
  before, as \<open>Complete\<close> for code 0 and as \<open>Error\<close> for any other code. From then on, whatever operations
  follow, no call in the table holds a sender of this channel, so none can send on it or close it again,
  and finishing a call under this id before the id is used again does nothing.\<close>

theorem finish_delivers_once:
  assumes "ms_steps (ModuleState_new sync async mid) ms" and "calls ms i = Some c" and "guest_request c \<noteq> None"
  shows "\<exists>tx ms1. holds_sender ms i tx \<and> oneshots ms ! tx = Pending
    \<and> finish_guest_invocation i code ms = Ret ms1 \<and> calls ms1 = (calls ms)(i := None)
    \<and> oneshots ms1 ! tx = Sent ((if code = 0 then Complete else Error) (c\<lparr>channel := None\<rparr>))
    \<and> (\<forall>ms2. ms_steps ms1 ms2 \<longrightarrow>
         (\<forall>j. \<not> holds_sender ms2 j tx) \<and> (calls ms2 i = None \<longrightarrow> finish_guest_invocation i code' ms2 = Ret ms2))"
proof -
  have wf: "ms_wf ms"
    using assms(1) by (rule ms_steps_wf) simp
  obtain tx ms1 where held: "holds_sender ms i tx" and at: "tx < length (oneshots ms)" "oneshots ms ! tx = Pending"
    and fin: "finish_guest_invocation i code ms = Ret ms1" and calls: "calls ms1 = (calls ms)(i := None)"
    and sent: "oneshots ms1 ! tx = Sent ((if code = 0 then Complete else Error) (c\<lparr>channel := None\<rparr>))"
    by (rule finish_delivers [OF wf assms(2,3)])
  have "\<not> holds_sender ms2 j tx" if "ms_steps ms1 ms2" for ms2 j
  proof -
    have "oneshots ms2 ! tx \<noteq> Pending"
      using ms_steps_keeps [OF that] length_oneshots_finish [OF fin] at(1) sent by simp
    moreover have "ms_wf ms2"
      by (rule ms_steps_wf [OF that ms_wf_finish [OF wf fin]])
    ultimately show ?thesis
      by (auto simp: ms_wf_def senders_pending_def)
  qed
  then show ?thesis
    using held at(2) fin calls sent finish_absent by blast
qed

text \<open>The call is finished, a host call begins under its id, and it is finished again.\<close>

theorem finish_delivers_once_witness:
  "\<exists>tx ms1. finish_guest_invocation 1 0 sample_state = Ret ms1
     \<and> oneshots ms1 ! tx = Sent (Complete (default_call_state\<lparr>guest_request := Some sample_invocation\<rparr>))
     \<and> finish_guest_invocation 1 1 ms1 = Ret ms1 \<and> \<not> holds_sender (init_host_call 1 ms1) 1 tx"
proof -
  have reached: "ms_steps (ModuleState_new None None 1) sample_state"
    unfolding sample_state_def by (rule sample_invoked_reachable)
  have c: "calls sample_state 1 =
      Some (default_call_state\<lparr>guest_request := Some sample_invocation, channel := Some 0\<rparr>)" (is "_ = Some ?c")
    by (simp add: sample_defs)
  have req: "guest_request ?c \<noteq> None"
    by simp
  have clear: "?c\<lparr>channel := None\<rparr> = default_call_state\<lparr>guest_request := Some sample_invocation\<rparr>"
    by (simp add: default_call_state_def)
  obtain tx ms1 where fin: "finish_guest_invocation 1 0 sample_state = Ret ms1"
    and gone: "calls ms1 = (calls sample_state)(1 := None)"
    and sent: "oneshots ms1 ! tx = Sent (Complete (?c\<lparr>channel := None\<rparr>))"
    and later: "\<And>ms2. ms_steps ms1 ms2 \<Longrightarrow>
      (\<forall>j. \<not> holds_sender ms2 j tx) \<and> (calls ms2 1 = None \<longrightarrow> finish_guest_invocation 1 1 ms2 = Ret ms2)"
    using finish_delivers_once [OF reached c req, of 0 1] by auto
  have "ms_steps ms1 (init_host_call 1 ms1)"
    by (rule ms_steps.step [OF ms_steps.refl ms_step.begin_host_call])
  then show ?thesis
    using fin sent gone later [OF ms_steps.refl] later by (metis clear fun_upd_same)
qed

text \<open>C38: finishing panics exactly on the id of a live host call, whose state has no channel to
  unwrap; on any other id it returns.\<close>

theorem finish_guest_invocation_panics_iff:
  assumes "ms_wf ms"
  shows "(finish_guest_invocation i code ms = Panic Unwrap_None
           \<longleftrightarrow> (\<exists>c. calls ms i = Some c \<and> guest_request c = None))
    \<and> (returns (finish_guest_invocation i code ms)
           \<longleftrightarrow> \<not> (\<exists>c. calls ms i = Some c \<and> guest_request c = None))"
proof (cases "calls ms i")
  case None
  then show ?thesis by (simp add: finish_absent)
next
  case (Some c)
  then have "guest_request c = None \<longleftrightarrow> channel c = None"
    using assms by (simp add: ms_wf_def call_kinds_def)
  with Some show ?thesis
    by (cases "channel c") (simp_all add: finish_guest_invocation_def Let_def)
qed

theorem finish_guest_invocation_panics_iff_witness:
  "finish_guest_invocation 2 1 (init_host_call 2 sample_state) = Panic Unwrap_None
   \<and> returns (finish_guest_invocation 1 1 (init_host_call 2 sample_state))"
proof -
  have wf: "ms_wf (init_host_call 2 sample_state)"
    by (rule ms_wf_init_host_call [OF sample_state_wf])
  have "calls (init_host_call 2 sample_state) 1 =
      Some (default_call_state\<lparr>guest_request := Some sample_invocation, channel := Some 0\<rparr>)"
    by (simp add: sample_defs)
  then show ?thesis
    using finish_guest_invocation_panics_iff [OF wf, of 2 1]
      finish_guest_invocation_panics_iff [OF wf, of 1 1] by simp
qed

subsection \<open>Host calls\<close>

definition callback_outcome ::
    "'w module_state \<Rightarrow> string \<Rightarrow> string \<Rightarrow> string \<Rightarrow> bytes \<Rightarrow> 'w \<Rightarrow> (host_result \<times> 'w) outcome" where
  "callback_outcome ms binding namespace op payload w =
     run_callback (sync_hostcall ms) (call_index ms) binding namespace op payload w"

lemma do_host_call_eq:
  "do_host_call binding namespace op payload ms w =
     obind (callback_outcome ms binding namespace op payload w) (\<lambda>(r, w').
       Ret (Inr (fst (record_host_result (call_index ms) r (init_host_call (call_index ms) (snd (next_call_index ms))))),
            snd (record_host_result (call_index ms) r (init_host_call (call_index ms) (snd (next_call_index ms)))),
            w'))"
  by (simp add: do_host_call_def next_call_index_def callback_outcome_def Let_def
        case_prod_unfold)

text \<open>A host call runs the host's callback on the guest's arguments under a new id. If the
  callback succeeds the guest gets that id as the return code and finds the response under it; if it
  fails the guest gets 0 and the error is stored under the id. Every other call is untouched.\<close>

theorem do_host_call_result:
  assumes "callback_outcome ms binding namespace op payload w = Ret (r, w')"
  shows "\<exists>code ms'. do_host_call binding namespace op payload ms w = Ret (Inr code, ms', w')
    \<and> call_index ms' = call_index ms + 1
    \<and> code = (case r of Inr v \<Rightarrow> call_index ms | Inl e \<Rightarrow> 0)
    \<and> get_host_response (call_index ms) ms' = (case r of Inr v \<Rightarrow> Some v | Inl e \<Rightarrow> None)
    \<and> get_host_error (call_index ms) ms' = (case r of Inr v \<Rightarrow> None | Inl e \<Rightarrow> Some e)
    \<and> (\<forall>j. j \<noteq> call_index ms \<longrightarrow> calls ms' j = calls ms j)"
  using assms
  by (cases r)
     (simp_all add: do_host_call_eq record_host_result_def get_update_call calls_update_call
        next_call_index_def call_accessor_defs)

definition sample_callback :: "nat host_callback" where
  "sample_callback i binding namespace op payload w =
     Ret (if op = ''fail'' then Inl ''refused'' else Inr (payload @ payload), Suc w)"

theorem do_host_call_result_witness:
  "\<exists>ms'. do_host_call ''b'' ''n'' ''op'' [7] (ModuleState_new (Some sample_callback) None 1) 0
           = Ret (Inr 1, ms', 1) \<and> get_host_response 1 ms' = Some [7, 7]"
proof -
  let ?ms = "ModuleState_new (Some sample_callback) None 1"
  have "callback_outcome ?ms ''b'' ''n'' ''op'' [7] 0 = Ret (Inr [7, 7], 1)"
    by (simp add: callback_outcome_def run_callback_def ModuleState_new_def sample_callback_def)
  from do_host_call_result [OF this] show ?thesis
    by (auto simp: ModuleState_new_def)
qed

subsection \<open>Ids\<close>

text \<open>The first \<open>n\<close> ids handed out from a state.\<close>

primrec issue_ids :: "nat \<Rightarrow> 'w module_state \<Rightarrow> i32 list" where
  "issue_ids 0 ms = []"
| "issue_ids (Suc n) ms = fst (next_call_index ms) # issue_ids n (snd (next_call_index ms))"

lemma issue_ids_eq: "issue_ids n ms = map (\<lambda>k. call_index ms + of_nat k) [0..<n]"
proof (induction n arbitrary: ms)
  case 0
  then show ?case by simp
next
  case (Suc n)
  have "map (\<lambda>k. call_index ms + of_nat k) [0..<Suc n]
      = call_index ms # map (\<lambda>k. call_index ms + of_nat (Suc k)) [0..<n]"
    by (simp add: upt_conv_Cons map_Suc_upt [symmetric] del: upt_Suc)
  then show ?case
    by (simp add: Suc.IH next_call_index_def algebra_simps)
qed

lemma unat_of_nat_i32: "a < 2 ^ 32 \<Longrightarrow> unat (of_nat a :: i32) = a"
  using unat_i32_of_len [of a] unfolding i32_of_len_def .

lemma of_nat_i32_eq_iff:
  assumes "a < 2 ^ 32" and "b < 2 ^ 32"
  shows "(of_nat a :: i32) = of_nat b \<longleftrightarrow> a = b"
  using unat_of_nat_i32 [OF assms(1)] unat_of_nat_i32 [OF assms(2)] by metis

text \<open>The ids a fresh module state hands out are pairwise different up to the wrap-around of the
  32-bit counter, and never 0, the code of a failed host call, before it.\<close>

theorem call_ids_unique:
  assumes "n < 2 ^ 32"
  shows "distinct (issue_ids n (ModuleState_new sync async mid))
    \<and> 0 \<notin> set (issue_ids n (ModuleState_new sync async mid))"
proof -
  have ids: "issue_ids n (ModuleState_new sync async mid) = map of_nat [1..<Suc n]"
    by (simp add: issue_ids_eq ModuleState_new_def map_Suc_upt [symmetric] comp_def del: upt_Suc)
  have small: "k < 2 ^ 32" if "k \<in> set [1..<Suc n]" for k
    using that assms by (simp only: set_upt atLeastLessThan_iff) linarith
  have "inj_on (of_nat :: nat \<Rightarrow> i32) (set [1..<Suc n])"
    using of_nat_i32_eq_iff small by (auto simp only: inj_on_def)
  moreover have "0 \<noteq> (of_nat k :: i32)" if k: "k \<in> set [1..<Suc n]" for k
  proof -
    have "k \<noteq> 0"
      using k by (simp only: set_upt atLeastLessThan_iff) linarith
    then show ?thesis
      using of_nat_i32_eq_iff [of 0 k] small [OF k] by simp
  qed
  then have "0 \<notin> (of_nat :: nat \<Rightarrow> i32) ` set [1..<Suc n]"
    by blast
  ultimately show ?thesis
    unfolding ids by (simp only: distinct_map distinct_upt set_map simp_thms)
qed

theorem call_ids_unique_witness:
  "issue_ids 3 (ModuleState_new None None 1 :: nat module_state) = [1, 2, 3]
   \<and> distinct (issue_ids 3 (ModuleState_new None None 1 :: nat module_state))"
  using call_ids_unique [of 3 "None :: nat host_callback option" None 1]
  by (simp add: issue_ids_eq ModuleState_new_def upt_rec)

end
