(* ===== verification/Wapc_Host.thy ===== *)
theory Wapc_Host
  imports Wapc_Traits Call_Lifecycle
begin

text \<open>
  The host runtime (\<open>crates/wapc/src/wapchost.rs\<close>): \<open>WapcHost\<close>, its builder and the
  \<open>WapcCallContext\<close> that runs one call, over any engine (\<open>Wapc_Traits\<close>). The two global
  counters are fields of \<open>env\<close>. An async call is cut where the code awaits: the part that runs
  the guest, \<open>WapcCallContext_call_async\<close>, and what is made of the status that the receiver of the
  oneshot channel yields, \<open>async_result\<close>.

  The engine is behind a \<open>RefCell\<close>, borrowed only while one of its methods runs; no method can
  reach the host again, so the borrow never fails.
\<close>

record ('e, 'w) wapc_host =
  engine :: 'e
  host_async_hostcall :: "'w host_callback option"
  host_sync_hostcall :: "'w host_callback option"
  host_id :: u64

definition next_id :: "'w env \<Rightarrow> u64 \<times> 'w env" where
  "next_id ev = (module_count ev, ev\<lparr>module_count := module_count ev + 1\<rparr>)"

definition initialize ::
    "('e, 'c, 'w) engine_provider \<Rightarrow> ('e, 'w) wapc_host
     \<Rightarrow> ((wapc_error + unit) \<times> ('e, 'w) wapc_host) outcome" where
  "initialize pr h =
     obind (engine_init pr (engine h)) (\<lambda>(r, e').
       Ret (map_err InitFailed r, h\<lparr>engine := e'\<rparr>))"

definition WapcHost_new ::
    "('e, 'c, 'w) engine_provider \<Rightarrow> 'e \<Rightarrow> 'w host_callback option \<Rightarrow> 'w host_callback option
     \<Rightarrow> 'w env \<Rightarrow> ((wapc_error + ('e, 'w) wapc_host) \<times> 'w env) outcome" where
  "WapcHost_new pr e sync async ev =
     (let (i, ev1) = next_id ev;
          mh = \<lparr>engine = e, host_async_hostcall = async, host_sync_hostcall = sync, host_id = i\<rparr>
      in obind (initialize pr mh) (\<lambda>(r, mh').
           Ret (case r of Inl er \<Rightarrow> Inl er | Inr _ \<Rightarrow> Inr mh', ev1)))"

definition WapcHost_id :: "('e, 'w) wapc_host \<Rightarrow> u64" where
  "WapcHost_id h = host_id h"

subsection \<open>One call\<close>

record 'c wapc_call_context =
  wcc_context :: 'c
  wcc_id :: u64

definition WapcCallContext_new ::
    "('e, 'c, 'w) engine_provider \<Rightarrow> 'c \<Rightarrow> 'w module_state \<Rightarrow> 'w env
     \<Rightarrow> ((wapc_error + 'c wapc_call_context) \<times> 'w module_state \<times> 'w env) outcome" where
  "WapcCallContext_new pr c ms ev =
     (let i = context_count ev; ev1 = ev\<lparr>context_count := i + 1\<rparr>
      in obind (context_init pr c ms ev1) (\<lambda>(r, c', ms', ev').
           Ret (case r of
                  Inl e \<Rightarrow> Inl (InitFailed e)
                | Inr _ \<Rightarrow> Inr \<lparr>wcc_context = c', wcc_id = i\<rparr>, ms', ev')))"

definition WapcCallContext_id :: "'c wapc_call_context \<Rightarrow> u64" where
  "WapcCallContext_id cc = wcc_id cc"

text \<open>How the return code of \<open>__guest_call\<close> and the final state of the call become a result.\<close>

definition failure_of :: "call_state \<Rightarrow> wapc_error + bytes" where
  "failure_of st =
     (case guest_error st of
        Some s \<Rightarrow> Inl (GuestCallFailure s)
      | None \<Rightarrow> Inl (GuestCallFailure ''No error message set for call failure''))"

definition success_of :: "call_state \<Rightarrow> wapc_error + bytes" where
  "success_of st =
     (case guest_response st of
        Some r \<Rightarrow> Inr r
      | None \<Rightarrow>
          (case guest_error st of
             Some s \<Rightarrow> Inl (GuestCallFailure s)
           | None \<Rightarrow> Inl (GuestCallFailure ''No error message OR response set for call success'')))"

definition sync_result :: "i32 \<Rightarrow> call_state \<Rightarrow> wapc_error + bytes" where
  "sync_result callresult st = (if callresult = 0 then failure_of st else success_of st)"

definition WapcCallContext_call ::
    "('e, 'c, 'w) engine_provider \<Rightarrow> 'c wapc_call_context \<Rightarrow> string \<Rightarrow> bytes \<Rightarrow> 'w module_state
     \<Rightarrow> 'w env \<Rightarrow> ((wapc_error + bytes) \<times> 'c wapc_call_context \<times> 'w module_state \<times> 'w env) outcome" where
  "WapcCallContext_call pr cc op payload ms ev =
     (let iv = Invocation_new op payload;
          op_len = length (operation iv);
          msg_len = length (msg iv);
          (index, rx, ms1) = new_invocation iv ms
      in obind (context_call pr (wcc_context cc) index (i32_of_len op_len) (i32_of_len msg_len) ms1 ev)
           (\<lambda>(r, c', ms2, ev').
             let cc' = cc\<lparr>wcc_context := c'\<rparr>
             in case r of
                  Inl e \<Rightarrow> Ret (Inl (GuestCallFailure e), cc', ms2, ev')
                | Inr callresult \<Rightarrow>
                    let (st, ms3) = take_state index ms2
                    in obind (unwrap st) (\<lambda>state.
                         Ret (sync_result callresult state, cc', drop_call_state state ms3, ev'))))"

text \<open>The part of an async call before the receiver is awaited: an error to return at once, or the
  receiver's channel.\<close>

definition WapcCallContext_call_async ::
    "('e, 'c, 'w) engine_provider \<Rightarrow> 'c wapc_call_context \<Rightarrow> string \<Rightarrow> bytes \<Rightarrow> 'w module_state
     \<Rightarrow> 'w env \<Rightarrow> ((wapc_error + nat) \<times> 'c wapc_call_context \<times> 'w module_state \<times> 'w env) outcome" where
  "WapcCallContext_call_async pr cc op payload ms ev =
     (let iv = Invocation_new op payload;
          msg_len = length (msg iv);
          op_len = length (operation iv);
          (index, rx, ms1) = new_invocation iv ms
      in obind (context_call_async pr (wcc_context cc) index (i32_of_len op_len) (i32_of_len msg_len) ms1 ev)
           (\<lambda>(r, c', ms2, ev').
             let cc' = cc\<lparr>wcc_context := c'\<rparr>
             in Ret (case r of
                       Inl e \<Rightarrow> Inl (GuestCallFailure e)
                     | Inr callresult \<Rightarrow>
                         if 0 < sint callresult
                         then Inl (GuestCallFailure
                                ''Call did not produce an error but returned an error status code.'')
                         else Inr rx,
                     cc', ms2, ev')))"

text \<open>\<open>rx.await\<close> and the match on what it yields; \<open>None\<close> while nothing has arrived.\<close>

definition async_result :: "call_status oneshot \<Rightarrow> (wapc_error + bytes) option" where
  "async_result slot =
     (case slot of
        Pending \<Rightarrow> None
      | Sender_Dropped \<Rightarrow> Some (Inl (GuestCallFailure ''Async wait failed''))
      | Sent (Complete st) \<Rightarrow> Some (failure_of st)
      | Sent (Error st) \<Rightarrow> Some (success_of st))"

subsection \<open>The host's methods\<close>

definition wrap_call_error :: "wapc_error + bytes \<Rightarrow> wapc_error + bytes" where
  "wrap_call_error r = map_err (\<lambda>e. GuestCallFailure (error_to_string e)) r"

definition WapcHost_call ::
    "('e, 'c, 'w) engine_provider \<Rightarrow> ('e, 'w) wapc_host \<Rightarrow> string \<Rightarrow> bytes \<Rightarrow> 'w env
     \<Rightarrow> ((wapc_error + bytes) \<times> 'w env) outcome" where
  "WapcHost_call pr h op payload ev =
     (let state = ModuleState_new (host_sync_hostcall h) (host_async_hostcall h) (host_id h)
      in obind (engine_new_context pr (engine h) state ev) (\<lambda>(rc, ms1, ev1).
           case rc of
             Inl e \<Rightarrow> Ret (Inl (Context e), ev1)
           | Inr c \<Rightarrow>
               obind (WapcCallContext_new pr c ms1 ev1) (\<lambda>(rcc, ms2, ev2).
                 case rcc of
                   Inl e \<Rightarrow> Ret (Inl e, ev2)
                 | Inr cc \<Rightarrow>
                     obind (WapcCallContext_call pr cc op payload ms2 ev2) (\<lambda>(r, cc', ms3, ev3).
                       Ret (wrap_call_error r, ev3)))))"

text \<open>
  \<open>call_async\<close> in the order it runs: the context is created at once; when the future is first
  polled the context is initialised and the future yields; then the guest runs; and when the
  receiver yields, its status becomes the reply. Between these parts other tasks may run.
\<close>

definition WapcHost_call_async ::
    "('e, 'c, 'w) engine_provider \<Rightarrow> ('e, 'w) wapc_host \<Rightarrow> 'w env
     \<Rightarrow> ((dyn_error + 'c) \<times> 'w module_state \<times> 'w env) outcome" where
  "WapcHost_call_async pr h ev =
     engine_new_context pr (engine h)
       (ModuleState_new (host_sync_hostcall h) (host_async_hostcall h) (host_id h)) ev"

definition call_async_open ::
    "('e, 'c, 'w) engine_provider \<Rightarrow> dyn_error + 'c \<Rightarrow> 'w module_state \<Rightarrow> 'w env
     \<Rightarrow> ((wapc_error + 'c wapc_call_context) \<times> 'w module_state \<times> 'w env) outcome" where
  "call_async_open pr context ms ev =
     (case context of
        Inl e \<Rightarrow> Ret (Inl (Context e), ms, ev)
      | Inr c \<Rightarrow> WapcCallContext_new pr c ms ev)"

definition call_async_run ::
    "('e, 'c, 'w) engine_provider \<Rightarrow> 'c wapc_call_context \<Rightarrow> string \<Rightarrow> bytes \<Rightarrow> 'w module_state
     \<Rightarrow> 'w env \<Rightarrow> ((wapc_error + nat) \<times> 'c wapc_call_context \<times> 'w module_state \<times> 'w env) outcome" where
  "call_async_run pr cc op payload ms ev =
     obind (WapcCallContext_call_async pr cc op payload ms ev) (\<lambda>(r, cc', ms', ev').
       Ret (map_err (\<lambda>e. GuestCallFailure (error_to_string e)) r, cc', ms', ev'))"

definition call_async_reply :: "call_status oneshot \<Rightarrow> (wapc_error + bytes) option" where
  "call_async_reply slot = map_option wrap_call_error (async_result slot)"

definition replace_module ::
    "('e, 'c, 'w) engine_provider \<Rightarrow> ('e, 'w) wapc_host \<Rightarrow> bytes
     \<Rightarrow> ((wapc_error + unit) \<times> ('e, 'w) wapc_host) outcome" where
  "replace_module pr h module_bytes =
     obind (engine_replace pr (engine h) module_bytes) (\<lambda>(r, e').
       Ret (map_err ReplacementFailed r, h\<lparr>engine := e'\<rparr>))"

subsection \<open>The builder\<close>

record 'w wapc_host_builder =
  b_async_hostcall :: "'w host_callback option"
  b_sync_hostcall :: "'w host_callback option"

definition WapcHostBuilder_new :: "'w wapc_host_builder" where
  "WapcHostBuilder_new = \<lparr>b_async_hostcall = None, b_sync_hostcall = None\<rparr>"

definition builder_callback :: "'w host_callback \<Rightarrow> 'w wapc_host_builder \<Rightarrow> 'w wapc_host_builder" where
  "builder_callback f b = b\<lparr>b_sync_hostcall := Some f\<rparr>"

definition builder_async_callback ::
    "'w host_callback \<Rightarrow> 'w wapc_host_builder \<Rightarrow> 'w wapc_host_builder" where
  "builder_async_callback f b = b\<lparr>b_async_hostcall := Some f\<rparr>"

definition builder_build ::
    "('e, 'c, 'w) engine_provider \<Rightarrow> 'e \<Rightarrow> 'w wapc_host_builder \<Rightarrow> 'w env
     \<Rightarrow> ((wapc_error + ('e, 'w) wapc_host) \<times> 'w env) outcome" where
  "builder_build pr e b ev = WapcHost_new pr e (b_sync_hostcall b) (b_async_hostcall b) ev"

subsection \<open>What a call needs of the engine\<close>

text \<open>
  \<open>WapcCallContext::call\<close> unwraps the state of the call when the engine is done, so it relies on an
  engine whose \<open>call\<close> leaves a live call in the table. The contract speaks of the contexts for
  which this holds (\<open>polite\<close>), since a guest can break it.
\<close>

locale call_provider =
  fixes pr :: "('e, 'c, 'w) engine_provider"
    and polite :: "'c \<Rightarrow> bool"
  assumes call_keeps_live:
    "polite c \<Longrightarrow> call_live ms i \<Longrightarrow>
     context_call pr c i ol ml ms ev = Ret (Inr code, c', ms', ev') \<Longrightarrow> call_live ms' i"
begin

lemma call_returns_iff:
  assumes "polite (wcc_context cc)"
    and "new_invocation (Invocation_new op payload) ms = (index, rx, ms1)"
  shows "returns (WapcCallContext_call pr cc op payload ms ev) \<longleftrightarrow>
         returns (context_call pr (wcc_context cc) index (i32_of_len (length op))
                    (i32_of_len (length payload)) ms1 ev)"
proof (cases "context_call pr (wcc_context cc) index (i32_of_len (length op))
                (i32_of_len (length payload)) ms1 ev")
  case (Ret res)
  obtain r c' ms2 ev' where res: "res = (r, c', ms2, ev')"
    by (cases res)
  have "call_live ms1 index"
    using assms(2)
    by (auto simp: new_invocation_def next_call_index_def oneshot_channel_def call_live_def)
  then have "call_live ms2 index" if "r = Inr code" for code
    using call_keeps_live [OF assms(1)] Ret that by (auto simp: res)
  then show ?thesis
    using Ret assms(2)
    by (cases r) (auto simp: WapcCallContext_call_def Invocation_new_def Let_def res take_state_def
        call_live_def)
qed (use assms(2) in \<open>simp_all add: WapcCallContext_call_def Invocation_new_def Let_def\<close>)

end

subsection \<open>Results\<close>

lemma result_of_channel [simp]:
  "failure_of (c\<lparr>channel := ch\<rparr>) = failure_of c"
  "success_of (c\<lparr>channel := ch\<rparr>) = success_of c"
  by (simp_all add: failure_of_def success_of_def split: option.splits)

lemma async_result_finish:
  assumes "ms_wf ms" and "calls ms i = Some c" and "holds_sender ms i rx"
    and "finish_guest_invocation i code ms = Ret ms'"
  shows "async_result (oneshots ms' ! rx) = Some (sync_result code c)"
proof -
  have ch: "channel c = Some rx"
    using assms(2,3) by (simp add: holds_sender_def)
  have "rx < length (oneshots ms)" "oneshots ms ! rx = Pending"
    using assms(1,3) by (auto simp: ms_wf_def senders_pending_def)
  then have "oneshots ms' ! rx = Sent ((if code = 0 then Complete else Error) (c\<lparr>channel := None\<rparr>))"
    using assms(4) oneshots_resolve [of rx "remove_call i ms"]
    by (auto simp: finish_guest_invocation_live [OF assms(2) ch])
  then show ?thesis
    by (simp add: async_result_def sync_result_def)
qed

text \<open>C16: an asynchronous call that the guest finishes with a return code resolves to exactly the
  result the synchronous call computes from the same code and the same state of the call.\<close>

theorem async_result_is_sync_result:
  assumes "ms_wf ms" and "calls ms i = Some c" and "holds_sender ms i rx"
    and "finish_guest_invocation i code ms = Ret ms'"
  shows "async_result (oneshots ms' ! rx) = Some (sync_result code c)"
  using assms by (rule async_result_finish)

theorem async_result_is_sync_result_witness:
  "\<exists>ms'. finish_guest_invocation 1 1 (set_guest_response 1 [42] sample_state) = Ret ms'
     \<and> async_result (oneshots ms' ! 0) = Some (Inr [42])"
proof -
  let ?ms = "set_guest_response 1 [42] sample_state"
  have wf: "ms_wf ?ms"
    by (rule ms_wf_set_guest_response [OF sample_state_wf])
  have c: "calls ?ms 1 = Some (default_call_state\<lparr>guest_request := Some sample_invocation,
      guest_response := Some [42], channel := Some 0\<rparr>)" (is "_ = Some ?c")
    by (simp add: sample_defs default_call_state_def)
  have held: "holds_sender ?ms 1 0"
    using c by (simp add: holds_sender_def)
  obtain ms' where fin: "finish_guest_invocation 1 1 ?ms = Ret ms'"
    using c by (simp add: finish_guest_invocation_live)
  have "sync_result 1 ?c = Inr [42]"
    by (simp add: sync_result_def success_of_def)
  with async_result_is_sync_result [OF wf c held fin] fin show ?thesis
    by auto
qed

lemma sync_result_Inl: "sync_result code st = Inl x \<Longrightarrow> \<exists>m. x = GuestCallFailure m"
  by (auto simp: sync_result_def failure_of_def success_of_def split: if_splits option.splits)

lemma call_error_guest_failure:
  assumes "WapcCallContext_call pr cc op payload ms ev = Ret (Inl x, cc', ms', ev')"
  shows "\<exists>m. x = GuestCallFailure m"
proof -
  obtain i rx ms1 where ni: "new_invocation (Invocation_new op payload) ms = (i, rx, ms1)"
    by (cases "new_invocation (Invocation_new op payload) ms")
  show ?thesis
    using assms
    by (auto simp: WapcCallContext_call_def Let_def ni take_state_def outcome_inversion
        dest: sync_result_Inl)
qed

text \<open>Whatever the engine, a call of a host that fails does so with a context error, an
  initialisation error, or a guest-call failure whose text names the guest-call failure twice: the
  context already wraps the guest's message, and the host wraps the context's error again.\<close>

theorem host_call_errors:
  assumes "WapcHost_call pr h op payload ev = Ret (Inl e, ev')"
  shows "(\<exists>m. e = Context m) \<or> (\<exists>m. e = InitFailed m)
    \<or> (\<exists>m. e = GuestCallFailure (''Guest call failure: '' @ m)
          \<and> error_to_string e = ''Guest call failure: Guest call failure: '' @ m)"
proof -
  have init: "\<exists>m. e = InitFailed m" if "WapcCallContext_new pr c ms ev = Ret (Inl e, ms', ev')"
    for c ms ms' ev ev' and e :: wapc_error
    using that
    by (auto simp: WapcCallContext_new_def Let_def outcome_inversion)
  have call: "\<exists>m. x = GuestCallFailure m"
    if "WapcCallContext_call pr cc op payload ms ev = Ret (Inl x, cc', ms', ev')" for cc ms ev cc' ms' ev' x
    using that by (rule call_error_guest_failure)
  from assms show ?thesis
    by (auto simp: WapcHost_call_def Let_def outcome_inversion wrap_call_error_def map_err_def
        dest!: init call)
qed

text \<open>An engine whose only guest traps, with the text of the trap as the error of the call.\<close>

definition trapping_engine :: "(unit, unit, unit) engine_provider" where
  "trapping_engine =
     \<lparr>engine_init = default_engine_init,
      engine_new_context = (\<lambda>_ ms ev. Ret (Inr (), ms, ev)),
      engine_replace = (\<lambda>_ _. Ret (Inl ''fixed module'', ())),
      context_init = default_context_init,
      context_call = (\<lambda>c i _ _ ms ev. Ret (Inr 0, c, set_guest_error i ''trap'' ms, ev)),
      context_call_async = (\<lambda>c _ _ _ ms ev. Ret (Inl ''no async'', c, ms, ev))\<rparr>"

definition trapping_host :: "(unit, unit) wapc_host" where
  "trapping_host =
     \<lparr>engine = (), host_async_hostcall = None, host_sync_hostcall = None, host_id = 1\<rparr>"

definition quiet_env :: "unit env" where
  "quiet_env = \<lparr>world = (), stdout = [], in_runtime = False, spawned = [], module_count = 2,
                context_count = 1\<rparr>"

theorem host_call_errors_witness:
  "\<exists>e ev'. WapcHost_call trapping_engine trapping_host ''op'' [] quiet_env = Ret (Inl e, ev')
     \<and> error_to_string e = ''Guest call failure: Guest call failure: trap''"
proof -
  let ?e = "GuestCallFailure ''Guest call failure: trap''"
  let ?ev = "quiet_env\<lparr>context_count := 2\<rparr>"
  have r: "WapcHost_call trapping_engine trapping_host ''op'' [] quiet_env = Ret (Inl ?e, ?ev)"
    by (simp add: WapcHost_call_def trapping_engine_def trapping_host_def quiet_env_def
        WapcCallContext_new_def default_context_init_def WapcCallContext_call_def
        Invocation_new_def new_invocation_def next_call_index_def oneshot_channel_def
        ModuleState_new_def calls_insert_def set_guest_error_def update_call_def take_state_def
        sync_result_def failure_of_def wrap_call_error_def map_err_def Let_def)
  show ?thesis
    using host_call_errors [OF r] r by auto
qed

end
