(* ===== verification/Wapc_Functions.thy ===== *)
theory Wapc_Functions
  imports Wapc_Prelude
begin

text \<open>
  The names of the waPC conversation (\<open>crates/wapc/src/wapc_functions.rs\<close>): the functions a
  host exports to the guest and those a guest exports to the host, as string constants, as
  enums, and the two conversions between them (\<open>FromStr\<close> and \<open>AsRef<str>\<close>).
\<close>

subsection \<open>Functions exported by the host\<close>

definition HOST_CONSOLE_LOG :: string where "HOST_CONSOLE_LOG = ''__console_log''"
definition HOST_CALL :: string where "HOST_CALL = ''__host_call''"
definition ASYNC_HOST_CALL :: string where "ASYNC_HOST_CALL = ''__async_host_call''"
definition GUEST_REQUEST_FN :: string where "GUEST_REQUEST_FN = ''__guest_request''"
definition HOST_RESPONSE_FN :: string where "HOST_RESPONSE_FN = ''__host_response''"
definition HOST_RESPONSE_LEN_FN :: string where "HOST_RESPONSE_LEN_FN = ''__host_response_len''"
definition GUEST_RESPONSE_FN :: string where "GUEST_RESPONSE_FN = ''__guest_response''"
definition GUEST_ERROR_FN :: string where "GUEST_ERROR_FN = ''__guest_error''"
definition HOST_ERROR_FN :: string where "HOST_ERROR_FN = ''__host_error''"
definition HOST_ERROR_LEN_FN :: string where "HOST_ERROR_LEN_FN = ''__host_error_len''"
definition GUEST_CALL_RESPONSE_READY :: string where
  "GUEST_CALL_RESPONSE_READY = ''__guest_call_response_ready''"

lemmas host_name_defs =
  HOST_CONSOLE_LOG_def HOST_CALL_def ASYNC_HOST_CALL_def GUEST_REQUEST_FN_def
  HOST_RESPONSE_FN_def HOST_RESPONSE_LEN_FN_def GUEST_RESPONSE_FN_def GUEST_ERROR_FN_def
  HOST_ERROR_FN_def HOST_ERROR_LEN_FN_def GUEST_CALL_RESPONSE_READY_def

datatype host_exports =
    ConsoleLog
  | HostCall
  | AsyncHostCall
  | GuestRequest
  | HostResponse
  | HostResponseLen
  | GuestResponse
  | GuestError
  | HostError
  | HostErrorLen
  | GuestResponseReady

text \<open>\<open>HostExports::iter()\<close> of \<open>strum::EnumIter\<close>: the variants in the order of declaration.\<close>

definition host_exports_iter :: "host_exports list" where
  "host_exports_iter =
     [ConsoleLog, HostCall, AsyncHostCall, GuestRequest, HostResponse, HostResponseLen,
      GuestResponse, GuestError, HostError, HostErrorLen, GuestResponseReady]"

instantiation host_exports :: enum
begin

definition enum_host_exports :: "host_exports list" where
  "enum_host_exports = host_exports_iter"

definition enum_all_host_exports :: "(host_exports \<Rightarrow> bool) \<Rightarrow> bool" where
  "enum_all_host_exports P = list_all P host_exports_iter"

definition enum_ex_host_exports :: "(host_exports \<Rightarrow> bool) \<Rightarrow> bool" where
  "enum_ex_host_exports P = list_ex P host_exports_iter"

instance
proof
  show univ: "UNIV = set (enum_class.enum :: host_exports list)"
  proof (intro set_eqI iffI)
    fix e :: host_exports
    show "e \<in> set enum_class.enum"
      by (cases e) (simp_all add: enum_host_exports_def host_exports_iter_def)
  qed simp
  show "distinct (enum_class.enum :: host_exports list)"
    by (simp add: enum_host_exports_def host_exports_iter_def)
  show "enum_class.enum_all P \<longleftrightarrow> Ball UNIV P" for P :: "host_exports \<Rightarrow> bool"
    unfolding univ by (simp add: enum_all_host_exports_def enum_host_exports_def list_all_iff)
  show "enum_class.enum_ex P \<longleftrightarrow> Bex UNIV P" for P :: "host_exports \<Rightarrow> bool"
    unfolding univ by (simp add: enum_ex_host_exports_def enum_host_exports_def list_ex_iff)
qed

end

lemma set_host_exports_iter [simp]: "set host_exports_iter = UNIV"
  using UNIV_enum [where 'a = host_exports] by (simp add: enum_host_exports_def)

lemma distinct_host_exports_iter [simp]: "distinct host_exports_iter"
  using enum_distinct [where 'a = host_exports] by (simp add: enum_host_exports_def)

fun host_export_name :: "host_exports \<Rightarrow> string" where
  "host_export_name ConsoleLog = HOST_CONSOLE_LOG"
| "host_export_name HostCall = HOST_CALL"
| "host_export_name AsyncHostCall = ASYNC_HOST_CALL"
| "host_export_name GuestRequest = GUEST_REQUEST_FN"
| "host_export_name HostResponse = HOST_RESPONSE_FN"
| "host_export_name HostResponseLen = HOST_RESPONSE_LEN_FN"
| "host_export_name GuestResponse = GUEST_RESPONSE_FN"
| "host_export_name GuestError = GUEST_ERROR_FN"
| "host_export_name HostError = HOST_ERROR_FN"
| "host_export_name HostErrorLen = HOST_ERROR_LEN_FN"
| "host_export_name GuestResponseReady = GUEST_CALL_RESPONSE_READY"

definition host_export_from_str :: "string \<Rightarrow> host_exports option" where
  "host_export_from_str s =
     (if s = HOST_CONSOLE_LOG then Some ConsoleLog
      else if s = HOST_CALL then Some HostCall
      else if s = ASYNC_HOST_CALL then Some AsyncHostCall
      else if s = GUEST_REQUEST_FN then Some GuestRequest
      else if s = HOST_RESPONSE_FN then Some HostResponse
      else if s = HOST_RESPONSE_LEN_FN then Some HostResponseLen
      else if s = GUEST_RESPONSE_FN then Some GuestResponse
      else if s = GUEST_ERROR_FN then Some GuestError
      else if s = HOST_ERROR_FN then Some HostError
      else if s = HOST_ERROR_LEN_FN then Some HostErrorLen
      else if s = GUEST_CALL_RESPONSE_READY then Some GuestResponseReady
      else None)"

subsection \<open>Functions exported by the guest\<close>

definition GUEST_CALL :: string where "GUEST_CALL = ''__guest_call''"
definition ASYNC_GUEST_CALL :: string where "ASYNC_GUEST_CALL = ''__async_guest_call''"
definition HOST_CALL_RESPONSE_READY :: string where
  "HOST_CALL_RESPONSE_READY = ''__host_call_response_ready''"
definition WAPC_INIT :: string where "WAPC_INIT = ''wapc_init''"
definition TINYGO_START :: string where "TINYGO_START = ''_start''"

lemmas guest_name_defs =
  GUEST_CALL_def ASYNC_GUEST_CALL_def HOST_CALL_RESPONSE_READY_def WAPC_INIT_def TINYGO_START_def

definition REQUIRED_STARTS :: "string list" where
  "REQUIRED_STARTS = [TINYGO_START, WAPC_INIT]"

datatype guest_exports =
    Init
  | Start
  | GuestCall
  | AsyncGuestCall
  | HostResponseReady

fun guest_export_name :: "guest_exports \<Rightarrow> string" where
  "guest_export_name Init = WAPC_INIT"
| "guest_export_name Start = TINYGO_START"
| "guest_export_name GuestCall = GUEST_CALL"
| "guest_export_name AsyncGuestCall = ASYNC_GUEST_CALL"
| "guest_export_name HostResponseReady = HOST_CALL_RESPONSE_READY"

definition guest_export_from_str :: "string \<Rightarrow> guest_exports option" where
  "guest_export_from_str s =
     (if s = WAPC_INIT then Some Init
      else if s = TINYGO_START then Some Start
      else if s = HOST_CALL_RESPONSE_READY then Some HostResponseReady
      else if s = GUEST_CALL then Some GuestCall
      else if s = ASYNC_GUEST_CALL then Some AsyncGuestCall
      else None)"

subsection \<open>Enums with a printed form\<close>

text \<open>
  The contract both enums keep: the printed form of a variant parses back to it, and a string
  that parses is the printed form of what it parses to. Printing is then injective, and the
  strings that parse are exactly the printed forms.
\<close>

locale named_enum =
  fixes print :: "'e \<Rightarrow> string"
    and parse :: "string \<Rightarrow> 'e option"
  assumes parse_print: "parse (print e) = Some e"
    and print_parse: "parse s = Some e \<Longrightarrow> print e = s"
begin

lemma parse_iff: "parse s = Some e \<longleftrightarrow> s = print e"
  using parse_print print_parse by blast

lemma print_eq_iff: "print a = print b \<longleftrightarrow> a = b"
  by (metis parse_print option.inject)

lemma parse_None_iff: "parse s = None \<longleftrightarrow> s \<notin> range print"
  using parse_iff by (metis not_Some_eq rangeI image_iff)

lemma distinct_map_print: "distinct (map print xs) \<longleftrightarrow> distinct xs"
  by (simp add: distinct_map inj_on_def print_eq_iff)

end

interpretation host_names: named_enum host_export_name host_export_from_str
proof
  show "host_export_from_str (host_export_name e) = Some e" for e
    by (cases e) (simp_all add: host_export_from_str_def host_name_defs)
  show "host_export_from_str s = Some e \<Longrightarrow> host_export_name e = s" for s e
    by (simp add: host_export_from_str_def split: if_splits)
qed

interpretation guest_names: named_enum guest_export_name guest_export_from_str
proof
  show "guest_export_from_str (guest_export_name e) = Some e" for e
    by (cases e) (simp_all add: guest_export_from_str_def guest_name_defs)
  show "guest_export_from_str s = Some e \<Longrightarrow> guest_export_name e = s" for s e
    by (simp add: guest_export_from_str_def split: if_splits)
qed

text \<open>The enum of the host's functions and their wire names are in bijection: parsing a
  string succeeds exactly on the printed name of the variant it returns, and different variants
  have different names.\<close>

theorem host_exports_roundtrip:
  "(host_export_from_str s = Some e \<longleftrightarrow> s = host_export_name e)
   \<and> (host_export_name a = host_export_name b \<longleftrightarrow> a = b)"
  by (simp add: host_names.parse_iff host_names.print_eq_iff)

text \<open>The same for the guest's functions, and the start functions tried at initialisation
  are the names of \<open>Start\<close> and \<open>Init\<close>, in that order.\<close>

theorem guest_exports_roundtrip:
  "(guest_export_from_str s = Some e \<longleftrightarrow> s = guest_export_name e)
   \<and> map guest_export_from_str REQUIRED_STARTS = [Some Start, Some Init]"
proof (rule conjI)
  show "guest_export_from_str s = Some e \<longleftrightarrow> s = guest_export_name e"
    by (rule guest_names.parse_iff)
  show "map guest_export_from_str REQUIRED_STARTS = [Some Start, Some Init]"
    by (simp add: guest_export_from_str_def REQUIRED_STARTS_def guest_name_defs)
qed

end
