(* ===== verification/Guest_Program.thy ===== *)
theory Guest_Program
  imports Wapc_Functions
begin

text \<open>
  What the engine runs. A WebAssembly guest is code the host cannot see into: all the host
  observes of it is the host functions it calls, the instance it leaves behind (its exported
  memory and the rest of its state, of type \<open>'g\<close>), and how it ends. A \<open>guest_prog\<close> is exactly
  that: a tree of reads and writes of the guest's own instance and of calls of host functions,
  ended by a result or a trap. Every path of a tree is finite, so the guests modelled are those
  that end; waPC has no timeout, and a guest that does not end keeps its caller waiting.

  The type is free in the theorems about hosts, which hold for every guest. The guest SDK is one
  such program (\<open>Guest_Protocol\<close>).
\<close>

record 'g winst =
  wmem :: "bytes option"
  wstate :: 'g

datatype ('g, 'r) guest_prog =
    GRet 'r
  | GTrap string
  | GGet "'g winst \<Rightarrow> ('g, 'r) guest_prog"
  | GPut "'g winst" "('g, 'r) guest_prog"
  | GCall host_exports "i32 list" "i32 option \<Rightarrow> ('g, 'r) guest_prog"

primrec gbind :: "('g, 'a) guest_prog \<Rightarrow> ('a \<Rightarrow> ('g, 'b) guest_prog) \<Rightarrow> ('g, 'b) guest_prog" where
  "gbind (GRet x) f = f x"
| "gbind (GTrap m) f = GTrap m"
| "gbind (GGet k) f = GGet (\<lambda>i. gbind (k i) f)"
| "gbind (GPut i p) f = GPut i (gbind p f)"
| "gbind (GCall e ps k) f = GCall e ps (\<lambda>r. gbind (k r) f)"

lemma gbind_assoc: "gbind (gbind p f) g = gbind p (\<lambda>x. gbind (f x) g)"
  by (induction p) simp_all

lemma gbind_GRet [simp]: "gbind p GRet = p"
  by (induction p) simp_all

text \<open>A change of the guest's own instance, and a call of a host function that returns nothing.\<close>

definition gmodify :: "('g winst \<Rightarrow> 'g winst) \<Rightarrow> ('g, unit) guest_prog" where
  "gmodify f = GGet (\<lambda>i. GPut (f i) (GRet ()))"

definition gcall_unit :: "host_exports \<Rightarrow> i32 list \<Rightarrow> ('g, unit) guest_prog" where
  "gcall_unit e ps = GCall e ps (\<lambda>_. GRet ())"

text \<open>The programs that never call a host function of a given set, and those that pass every
  host function the number of arguments its type has.\<close>

primrec avoids :: "host_exports set \<Rightarrow> ('g, 'r) guest_prog \<Rightarrow> bool" where
  "avoids E (GRet x) = True"
| "avoids E (GTrap m) = True"
| "avoids E (GGet k) = (\<forall>i. avoids E (k i))"
| "avoids E (GPut i p) = avoids E p"
| "avoids E (GCall e ps k) = (e \<notin> E \<and> (\<forall>r. avoids E (k r)))"

lemma avoids_gbind: "avoids E p \<Longrightarrow> (\<And>x. avoids E (f x)) \<Longrightarrow> avoids E (gbind p f)"
  by (induction p) auto

lemma avoids_gmodify [simp]: "avoids E (gmodify f)"
  by (simp add: gmodify_def)

lemma avoids_gcall_unit [simp]: "avoids E (gcall_unit e ps) \<longleftrightarrow> e \<notin> E"
  by (simp add: gcall_unit_def)

end
