(* ===== verification/Wasmtime_Imports.thy ===== *)
theory Wasmtime_Imports
  imports Module_State Guest_Program
begin

text \<open>
  The host functions the wasmtime engine gives to a guest
  (\<open>crates/wasmtime-provider/src/wapc_wasmtime.rs\<close>): one function per \<open>linker_*\<close> closure, with
  its \<open>FuncType\<close>, and the two helpers that read and write the guest's exported memory.

  \<^item> A closure gets its parameters as a slice of 32-bit values, which it indexes where it needs them, and
    may set its result slot. The engine passes as many as the \<open>FuncType\<close> says; an index past the
    slice panics, parameters that are not indexed do not matter.
  \<^item> \<open>get_vec_from_memory\<close> slices the memory, with both bounds converted from \<open>i32\<close> to
    \<open>usize\<close>, so a bad range panics. The sum of pointer and length wraps around here; in a
    build with overflow checks a sum that overflows panics at the addition instead, and
    \<open>get_vec_from_memory_returns_iff\<close> shows that no overflowing sum returns.
  \<^item> \<open>write_bytes_to_memory\<close> copies through a raw pointer with no check at all: outside the
    memory its behaviour is undefined.
  \<^item> \<open>run_guest\<close> runs a guest program against these functions.
\<close>

record ('g, 'w) cx =
  inst :: "'g winst"
  mstate :: "'w module_state"
  env :: "'w env"

subsection \<open>Guest memory\<close>

definition get_caller_memory :: "('g, 'w) cx \<Rightarrow> bytes outcome" where
  "get_caller_memory c = unwrap (wmem (inst c))"

definition set_caller_memory :: "bytes \<Rightarrow> ('g, 'w) cx \<Rightarrow> ('g, 'w) cx" where
  "set_caller_memory m c = c\<lparr>inst := (inst c)\<lparr>wmem := Some m\<rparr>\<rparr>"

definition get_vec_from_memory :: "bytes \<Rightarrow> i32 \<Rightarrow> i32 \<Rightarrow> bytes outcome" where
  "get_vec_from_memory data ptr len =
     (let s = unat (usize_of_i32 ptr); e = unat (usize_of_i32 (ptr + len))
      in if s \<le> e \<and> e \<le> length data then Ret (block s (e - s) data)
         else Panic Index_Out_Of_Bounds)"

definition write_bytes_to_memory :: "bytes \<Rightarrow> i32 \<Rightarrow> bytes \<Rightarrow> bytes outcome" where
  "write_bytes_to_memory data ptr bs =
     (if 0 \<le> sint ptr \<and> nat (sint ptr) + length bs \<le> length data
      then Ret (overwrite (nat (sint ptr)) bs data) else Undefined)"

definition get_string_from_memory :: "bytes \<Rightarrow> i32 \<Rightarrow> i32 \<Rightarrow> string outcome" where
  "get_string_from_memory data ptr len =
     obind (get_vec_from_memory data ptr len) (\<lambda>v. unwrap_result (from_utf8 v))"

subsection \<open>Types of the host functions\<close>

datatype val_type = I32 | I64 | F32 | F64

datatype func_type = FuncType (params: "val_type list") (results: "val_type list")

definition i32s :: "nat \<Rightarrow> val_type list" where
  "i32s n = replicate n I32"

fun host_export_type :: "host_exports \<Rightarrow> func_type" where
  "host_export_type ConsoleLog = FuncType (i32s 2) []"
| "host_export_type HostCall = FuncType (i32s 8) [I32]"
| "host_export_type AsyncHostCall = FuncType (i32s 8) [I32]"
| "host_export_type GuestRequest = FuncType (i32s 3) []"
| "host_export_type HostResponse = FuncType (i32s 2) []"
| "host_export_type HostResponseLen = FuncType (i32s 1) [I32]"
| "host_export_type GuestResponse = FuncType (i32s 3) []"
| "host_export_type GuestError = FuncType (i32s 3) []"
| "host_export_type HostError = FuncType (i32s 2) []"
| "host_export_type HostErrorLen = FuncType (i32s 1) [I32]"
| "host_export_type GuestResponseReady = FuncType (i32s 2) []"

subsection \<open>The host functions\<close>

text \<open>Reading \<open>params[0]\<close> to \<open>params[n - 1]\<close> one after the other.\<close>

definition with_params :: "nat \<Rightarrow> i32 list \<Rightarrow> ((nat \<Rightarrow> i32) \<Rightarrow> 'a outcome) \<Rightarrow> 'a outcome" where
  "with_params n ps f = (if n \<le> length ps then f (\<lambda>k. ps ! k) else Panic Index_Out_Of_Bounds)"

type_synonym ('g, 'w) host_fn = "i32 list \<Rightarrow> ('g, 'w) cx \<Rightarrow> (i32 option \<times> ('g, 'w) cx) outcome"

definition linker_guest_request :: "('g, 'w) host_fn" where
  "linker_guest_request ps c = with_params 3 ps (\<lambda>p.
     let invocation = get_guest_request (p 0) (mstate c)
     in obind (get_caller_memory c) (\<lambda>data.
        case invocation of
          Some iv \<Rightarrow>
            obind (write_bytes_to_memory data (p 2) (msg iv)) (\<lambda>data1.
            obind (write_bytes_to_memory data1 (p 1) (as_bytes (operation iv))) (\<lambda>data2.
              Ret (None, set_caller_memory data2 c)))
        | None \<Rightarrow> Ret (None, c)))"

definition linker_console_log :: "('g, 'w) host_fn" where
  "linker_console_log ps c = with_params 2 ps (\<lambda>p.
     obind (get_caller_memory c) (\<lambda>data.
     obind (get_string_from_memory data (p 0) (p 1)) (\<lambda>m.
       Ret (None, c\<lparr>env := do_console_log m (env c)\<rparr>))))"

text \<open>Both host-call closures start by copying their four arguments out of the memory.\<close>

definition host_call_args ::
    "bytes \<Rightarrow> (nat \<Rightarrow> i32) \<Rightarrow> (string \<times> string \<times> string \<times> bytes) outcome" where
  "host_call_args data p =
     obind (get_vec_from_memory data (p 6) (p 7)) (\<lambda>v.
     obind (get_string_from_memory data (p 0) (p 1)) (\<lambda>bd.
     obind (get_string_from_memory data (p 2) (p 3)) (\<lambda>ns.
     obind (get_string_from_memory data (p 4) (p 5)) (\<lambda>op.
       Ret (bd, ns, op, v)))))"

definition linker_host_call :: "('g, 'w) host_fn" where
  "linker_host_call ps c = obind (get_caller_memory c) (\<lambda>data.
     with_params 8 ps (\<lambda>p.
     obind (host_call_args data p) (\<lambda>(bd, ns, op, v).
     obind (do_host_call bd ns op v (mstate c) (world (env c))) (\<lambda>(call_id, ms', w').
       let c' = c\<lparr>mstate := ms', env := (env c)\<lparr>world := w'\<rparr>\<rparr>
       in Ret (case call_id of Inr r \<Rightarrow> Some r | Inl e \<Rightarrow> None, c')))))"

definition linker_async_host_call :: "('g, 'w) host_fn" where
  "linker_async_host_call ps c = obind (get_caller_memory c) (\<lambda>data.
     with_params 8 ps (\<lambda>p.
     obind (host_call_args data p) (\<lambda>(bd, ns, op, v).
     obind (do_async_host_call bd ns op v (in_runtime (env c)) (mstate c)) (\<lambda>(call_id, task, ms').
       let c' = c\<lparr>mstate := ms', env := (env c)\<lparr>spawned := spawned (env c) @ [task]\<rparr>\<rparr>
       in Ret (case call_id of Inr r \<Rightarrow> Some r | Inl e \<Rightarrow> None, c')))))"

definition linker_host_response :: "('g, 'w) host_fn" where
  "linker_host_response ps c = with_params 1 ps (\<lambda>p.
     case get_host_response (p 0) (mstate c) of
       Some r \<Rightarrow>
         obind (get_caller_memory c) (\<lambda>data.
         with_params 2 ps (\<lambda>p.
         obind (write_bytes_to_memory data (p 1) r) (\<lambda>data'.
           Ret (None, set_caller_memory data' c))))
     | None \<Rightarrow> Ret (None, c))"

definition linker_host_response_len :: "('g, 'w) host_fn" where
  "linker_host_response_len ps c = with_params 1 ps (\<lambda>p.
     Ret (Some (case get_host_response (p 0) (mstate c) of
                  Some r \<Rightarrow> i32_of_len (length r)
                | None \<Rightarrow> 0), c))"

definition linker_guest_response_ready :: "('g, 'w) host_fn" where
  "linker_guest_response_ready ps c = with_params 2 ps (\<lambda>p.
     obind (finish_guest_invocation (p 0) (p 1) (mstate c)) (\<lambda>ms'.
       Ret (None, c\<lparr>mstate := ms'\<rparr>)))"

definition linker_guest_response :: "('g, 'w) host_fn" where
  "linker_guest_response ps c = with_params 3 ps (\<lambda>p.
     obind (get_caller_memory c) (\<lambda>data.
     obind (get_vec_from_memory data (p 1) (p 2)) (\<lambda>v.
       Ret (None, c\<lparr>mstate := set_guest_response (p 0) v (mstate c)\<rparr>))))"

definition linker_guest_error :: "('g, 'w) host_fn" where
  "linker_guest_error ps c = obind (get_caller_memory c) (\<lambda>data.
     with_params 3 ps (\<lambda>p.
     obind (get_string_from_memory data (p 1) (p 2)) (\<lambda>e.
       Ret (None, c\<lparr>mstate := set_guest_error (p 0) e (mstate c)\<rparr>))))"

definition linker_host_error :: "('g, 'w) host_fn" where
  "linker_host_error ps c = with_params 1 ps (\<lambda>p.
     case get_host_error (p 0) (mstate c) of
       Some e \<Rightarrow> with_params 2 ps (\<lambda>p.
         obind (get_caller_memory c) (\<lambda>data.
         obind (write_bytes_to_memory data (p 1) (as_bytes e)) (\<lambda>data'.
           Ret (None, set_caller_memory data' c))))
     | None \<Rightarrow> Ret (None, c))"

definition linker_host_error_len :: "('g, 'w) host_fn" where
  "linker_host_error_len ps c = with_params 1 ps (\<lambda>p.
     Ret (Some (case get_host_error (p 0) (mstate c) of
                  Some e \<Rightarrow> i32_of_len (length e)
                | None \<Rightarrow> 0), c))"

fun linker_fn :: "host_exports \<Rightarrow> ('g, 'w) host_fn" where
  "linker_fn ConsoleLog = linker_console_log"
| "linker_fn HostCall = linker_host_call"
| "linker_fn AsyncHostCall = linker_async_host_call"
| "linker_fn GuestRequest = linker_guest_request"
| "linker_fn HostResponse = linker_host_response"
| "linker_fn HostResponseLen = linker_host_response_len"
| "linker_fn GuestResponse = linker_guest_response"
| "linker_fn GuestError = linker_guest_error"
| "linker_fn HostError = linker_host_error"
| "linker_fn HostErrorLen = linker_host_error_len"
| "linker_fn GuestResponseReady = linker_guest_response_ready"

subsection \<open>Running a guest\<close>

primrec run_guest :: "('g, 'r) guest_prog \<Rightarrow> ('g, 'w) cx \<Rightarrow> ((string + 'r) \<times> ('g, 'w) cx) outcome" where
  "run_guest (GRet x) = (\<lambda>c. Ret (Inr x, c))"
| "run_guest (GTrap m) = (\<lambda>c. Ret (Inl m, c))"
| "run_guest (GGet k) = (\<lambda>c. run_guest (k (inst c)) c)"
| "run_guest (GPut i p) = (\<lambda>c. run_guest p (c\<lparr>inst := i\<rparr>))"
| "run_guest (GCall e ps k) = (\<lambda>c. obind (linker_fn e ps c) (\<lambda>(r, c'). run_guest (k r) c'))"

lemma run_guest_gbind:
  "run_guest (gbind p f) c =
     obind (run_guest p c) (\<lambda>(r, c'). case r of Inl m \<Rightarrow> Ret (Inl m, c') | Inr x \<Rightarrow> run_guest (f x) c')"
  by (induction p arbitrary: c) (auto simp: outcome_simps case_prod_unfold intro!: arg_cong2 [where f = obind])

end
