(* ===== verification/Wasmtime_Engine.thy ===== *)
theory Wasmtime_Engine
  imports Wasmtime_Imports Wapc_Traits
begin

text \<open>
  The wasmtime engine provider: \<open>engine_provider.rs\<close>, \<open>store.rs\<close>, \<open>errors.rs\<close> of
  \<open>crates/wasmtime-provider/src\<close> and \<open>add_to_linker\<close> of \<open>wapc_wasmtime.rs\<close>.

  The wasmtime library is not part of the repository. What the provider uses of it is the record
  \<open>wasmtime_api\<close>, a parameter of the definitions: compiling module bytes, setting up WASI, the
  functions the WASI linker defines, and the texts of its error messages. A compiled module is what
  the engine documents of it: its imports with their types, its exports with their types and code,
  the instance it starts with and an optional start function. Instantiation fails unless every
  import is defined with exactly its type, and runs the start function.
\<close>

subsection \<open>Errors\<close>

datatype provider_error =
    InitializationFailed dyn_error
  | InitNotFound
  | GuestCallNotFound
  | AsyncGuestCallNotFound
  | HostResponseReadyNotFound
  | WasiError dyn_error
  | PreopenedDirs string

fun provider_error_to_string :: "provider_error \<Rightarrow> string" where
  "provider_error_to_string (InitializationFailed e) = ''Initialization failed: '' @ e"
| "provider_error_to_string InitNotFound =
     ''WaPC init function (wapc_init) not exported by wasm module.''"
| "provider_error_to_string GuestCallNotFound =
     ''Guest call function (__guest_call) not exported by wasm module.''"
| "provider_error_to_string AsyncGuestCallNotFound =
     ''Async guest call function (__async_guest_call) not exported by wasm module.''"
| "provider_error_to_string HostResponseReadyNotFound =
     ''Host response ready function (__host_response_ready) not exported by wasm module.''"
| "provider_error_to_string (WasiError e) = e"
| "provider_error_to_string (PreopenedDirs s) = ''Error exposing directories with WASI: '' @ s"

definition wapc_error_of_provider_error :: "provider_error \<Rightarrow> wapc_error" where
  "wapc_error_of_provider_error e = ProviderFailure (provider_error_to_string e)"

subsection \<open>Modules and linkers\<close>

text \<open>An exported function; the constructor says how many parameters and results it has, the
  other types being of no use to the provider.\<close>

datatype 'g wasm_export =
    Export_0_0 "('g, unit) guest_prog"
  | Export_2_0 "i32 \<Rightarrow> i32 \<Rightarrow> ('g, unit) guest_prog"
  | Export_3_0 "i32 \<Rightarrow> i32 \<Rightarrow> i32 \<Rightarrow> ('g, unit) guest_prog"
  | Export_3_1 "i32 \<Rightarrow> i32 \<Rightarrow> i32 \<Rightarrow> ('g, i32) guest_prog"
  | Export_Other func_type

record 'g wasm_module =
  m_imports :: "((string \<times> string) \<times> func_type) list"
  m_exports :: "string \<rightharpoonup> 'g wasm_export"
  m_instance :: "'g winst"
  m_start :: "('g, unit) guest_prog option"

datatype linked_fn = Wapc_Fn host_exports | Foreign_Fn

type_synonym linker = "(string \<times> string) \<rightharpoonup> (func_type \<times> linked_fn)"

record 'g wasmtime_api =
  module_new :: "bytes \<Rightarrow> dyn_error + 'g wasm_module"
  init_wasi :: "wasi_params \<Rightarrow> provider_error + unit"
  wasi_linker :: linker
  msg_defined_twice :: "string \<times> string \<Rightarrow> string"
  msg_bad_import :: "'g wasm_module \<Rightarrow> string"

definition HOST_NAMESPACE :: string where
  "HOST_NAMESPACE = ''wapc''"

text \<open>\<open>Linker::func_new\<close>, which refuses a name that is already defined.\<close>

definition func_new ::
    "'g wasmtime_api \<Rightarrow> string \<times> string \<Rightarrow> func_type \<Rightarrow> linked_fn \<Rightarrow> linker
     \<Rightarrow> dyn_error + linker" where
  "func_new api key ty f l =
     (if l key = None then Inr (l(key \<mapsto> (ty, f))) else Inl (msg_defined_twice api key))"

fun link_exports :: "'g wasmtime_api \<Rightarrow> host_exports list \<Rightarrow> linker \<Rightarrow> dyn_error + linker" where
  "link_exports api [] l = Inr l"
| "link_exports api (e # es) l =
     (case func_new api (HOST_NAMESPACE, host_export_name e) (host_export_type e) (Wapc_Fn e) l of
        Inl m \<Rightarrow> Inl m
      | Inr l' \<Rightarrow> link_exports api es l')"

definition add_to_linker :: "'g wasmtime_api \<Rightarrow> linker \<Rightarrow> provider_error + linker" where
  "add_to_linker api l = map_err WasiError (link_exports api host_exports_iter l)"

definition import_linked :: "linker \<Rightarrow> (string \<times> string) \<times> func_type \<Rightarrow> bool" where
  "import_linked l imp = (case l (fst imp) of None \<Rightarrow> False | Some (ty, f) \<Rightarrow> ty = snd imp)"

definition instantiate ::
    "'g wasmtime_api \<Rightarrow> linker \<Rightarrow> 'g wasm_module \<Rightarrow> 'w module_state \<Rightarrow> 'w env
     \<Rightarrow> ((provider_error + 'g winst) \<times> 'w module_state \<times> 'w env) outcome" where
  "instantiate api l m ms ev =
     (if \<not> list_all (import_linked l) (m_imports m)
      then Ret (Inl (WasiError (msg_bad_import api m)), ms, ev)
      else case m_start m of
        None \<Rightarrow> Ret (Inr (m_instance m), ms, ev)
      | Some p \<Rightarrow>
          obind (run_guest p \<lparr>inst = m_instance m, mstate = ms, env = ev\<rparr>) (\<lambda>(r, c).
            Ret (case r of Inl t \<Rightarrow> Inl (WasiError t) | Inr _ \<Rightarrow> Inr (inst c), mstate c, env c)))"

text \<open>\<open>Instance::get_typed_func\<close> at the types the provider asks for.\<close>

definition get_func_0_0 :: "'g wasm_module \<Rightarrow> string \<Rightarrow> ('g, unit) guest_prog option" where
  "get_func_0_0 m name = (case m_exports m name of Some (Export_0_0 f) \<Rightarrow> Some f | _ \<Rightarrow> None)"

definition get_func_2_0 :: "'g wasm_module \<Rightarrow> string \<Rightarrow> (i32 \<Rightarrow> i32 \<Rightarrow> ('g, unit) guest_prog) option" where
  "get_func_2_0 m name = (case m_exports m name of Some (Export_2_0 f) \<Rightarrow> Some f | _ \<Rightarrow> None)"

definition get_func_3_0 ::
    "'g wasm_module \<Rightarrow> string \<Rightarrow> (i32 \<Rightarrow> i32 \<Rightarrow> i32 \<Rightarrow> ('g, unit) guest_prog) option" where
  "get_func_3_0 m name = (case m_exports m name of Some (Export_3_0 f) \<Rightarrow> Some f | _ \<Rightarrow> None)"

definition get_func_3_1 ::
    "'g wasm_module \<Rightarrow> string \<Rightarrow> (i32 \<Rightarrow> i32 \<Rightarrow> i32 \<Rightarrow> ('g, i32) guest_prog) option" where
  "get_func_3_1 m name = (case m_exports m name of Some (Export_3_1 f) \<Rightarrow> Some f | _ \<Rightarrow> None)"

subsection \<open>The provider\<close>

record 'g wasmtime_provider =
  wp_module :: "'g wasm_module"
  wp_linker :: linker
  wp_wasi_params :: "wasi_params option"

definition WasmtimeEngineProvider_new_with_engine ::
    "'g wasmtime_api \<Rightarrow> bytes \<Rightarrow> wasi_params option \<Rightarrow> provider_error + 'g wasmtime_provider" where
  "WasmtimeEngineProvider_new_with_engine api buf wasi =
     (case module_new api buf of
        Inl e \<Rightarrow> Inl (WasiError e)
      | Inr m \<Rightarrow> Inr \<lparr>wp_module = m, wp_linker = wasi_linker api, wp_wasi_params = wasi\<rparr>)"

text \<open>The other two constructors make the library's engine themselves: \<open>api\<close> is wasmtime with the default
  engine; with a cache, the configuration is loaded from a path, whose failure is an error, or from the
  default place, whose failure (\<open>load_default\<close>) only draws a warning.\<close>

definition WasmtimeEngineProvider_new ::
    "'g wasmtime_api \<Rightarrow> bytes \<Rightarrow> wasi_params option \<Rightarrow> provider_error + 'g wasmtime_provider" where
  "WasmtimeEngineProvider_new api buf wasi = WasmtimeEngineProvider_new_with_engine api buf wasi"

definition WasmtimeEngineProvider_new_with_cache ::
    "('p \<Rightarrow> dyn_error + unit) \<Rightarrow> dyn_error + unit \<Rightarrow> dyn_error + 'g wasmtime_api \<Rightarrow> bytes \<Rightarrow> wasi_params option
     \<Rightarrow> 'p option \<Rightarrow> provider_error + 'g wasmtime_provider" where
  "WasmtimeEngineProvider_new_with_cache load load_default engine_new buf wasi cache_path =
     (case (case cache_path of
              Some cache \<Rightarrow> load cache
            | None \<Rightarrow> (case load_default of Inl e \<Rightarrow> Inr () | Inr _ \<Rightarrow> Inr ())) of
        Inl e \<Rightarrow> Inl (WasiError e)
      | Inr _ \<Rightarrow>
          (case engine_new of
             Inl e \<Rightarrow> Inl (WasiError e)
           | Inr api \<Rightarrow> WasmtimeEngineProvider_new_with_engine api buf wasi))"

text \<open>A clone shares the compiled module and is initialised again, which does nothing.\<close>

definition wasmtime_clone :: "'g wasmtime_provider \<Rightarrow> 'g wasmtime_provider outcome" where
  "wasmtime_clone p =
     obind (default_engine_init p) (\<lambda>(r, p').
       case r of Inl e \<Rightarrow> Panic Unwrap_Err | Inr _ \<Rightarrow> Ret p')"

lemma wasmtime_clone_eq [simp]: "wasmtime_clone p = Ret p"
  by (simp add: wasmtime_clone_def default_engine_init_def)

text \<open>\<open>store.rs\<close>: the parameters default to empty, and only setting up WASI can fail.\<close>

definition new_store :: "'g wasmtime_api \<Rightarrow> wasi_params option \<Rightarrow> provider_error + unit" where
  "new_store api wasi =
     init_wasi api (case wasi of Some p \<Rightarrow> p | None \<Rightarrow> WasiParams_default)"

record 'g wasmtime_context =
  wc_module :: "'g wasm_module"
  wc_inst :: "'g winst"

text \<open>A new context links the host functions, instantiates the module, looks up the function that
  takes the results of asynchronous host calls and spawns the task that calls it.\<close>

definition WasmtimeCallContext_new ::
    "'g wasmtime_api \<Rightarrow> linker \<Rightarrow> 'g wasm_module \<Rightarrow> 'w module_state \<Rightarrow> 'w env
     \<Rightarrow> ((provider_error + 'g wasmtime_context) \<times> 'w module_state \<times> 'w env) outcome" where
  "WasmtimeCallContext_new api l m ms ev =
     (case add_to_linker api l of
        Inl e \<Rightarrow> Ret (Inl e, ms, ev)
      | Inr l' \<Rightarrow>
          obind (instantiate api l' m ms ev) (\<lambda>(r, ms1, ev1).
            case r of
              Inl e \<Rightarrow> Ret (Inl e, ms1, ev1)
            | Inr i \<Rightarrow>
                (case get_func_2_0 m (guest_export_name HostResponseReady) of
                   None \<Rightarrow> Ret (Inl HostResponseReadyNotFound, ms1, ev1)
                 | Some f \<Rightarrow>
                     if in_runtime ev1
                     then Ret (Inr \<lparr>wc_module = m, wc_inst = i\<rparr>, ms1, ev1)
                     else Panic No_Tokio_Runtime)))"

definition wasmtime_new_context ::
    "'g wasmtime_api \<Rightarrow> 'g wasmtime_provider \<Rightarrow> 'w module_state \<Rightarrow> 'w env
     \<Rightarrow> ((dyn_error + 'g wasmtime_context) \<times> 'w module_state \<times> 'w env) outcome" where
  "wasmtime_new_context api pr ms ev =
     (case new_store api (wp_wasi_params pr) of
        Inl e \<Rightarrow> Ret (Inl (provider_error_to_string e), ms, ev)
      | Inr _ \<Rightarrow>
          obind (WasmtimeCallContext_new api (wp_linker pr) (wp_module pr) ms ev) (\<lambda>(r, ms1, ev1).
            Ret (map_err provider_error_to_string r, ms1, ev1)))"

definition wasmtime_replace ::
    "'g wasmtime_provider \<Rightarrow> bytes \<Rightarrow> ((dyn_error + unit) \<times> 'g wasmtime_provider) outcome" where
  "wasmtime_replace pr buf = Panic Not_Implemented"

subsection \<open>A call context\<close>

fun run_starters ::
    "string list \<Rightarrow> 'g wasmtime_context \<Rightarrow> 'w module_state \<Rightarrow> 'w env
     \<Rightarrow> ((dyn_error + unit) \<times> 'g wasmtime_context \<times> 'w module_state \<times> 'w env) outcome" where
  "run_starters [] wc ms ev = Ret (Inr (), wc, ms, ev)"
| "run_starters (s # ss) wc ms ev =
     (case get_func_0_0 (wc_module wc) s of
        None \<Rightarrow> run_starters ss wc ms ev
      | Some p \<Rightarrow>
          obind (run_guest p \<lparr>inst = wc_inst wc, mstate = ms, env = ev\<rparr>) (\<lambda>(r, c).
            let wc' = wc\<lparr>wc_inst := inst c\<rparr>
            in case r of
                 Inl t \<Rightarrow> Ret (Inl (provider_error_to_string (InitializationFailed t)),
                               wc', mstate c, env c)
               | Inr _ \<Rightarrow> run_starters ss wc' (mstate c) (env c)))"

definition wasmtime_context_init ::
    "'g wasmtime_context \<Rightarrow> 'w module_state \<Rightarrow> 'w env
     \<Rightarrow> ((dyn_error + unit) \<times> 'g wasmtime_context \<times> 'w module_state \<times> 'w env) outcome" where
  "wasmtime_context_init = run_starters REQUIRED_STARTS"

definition wasmtime_call ::
    "'g wasmtime_context \<Rightarrow> i32 \<Rightarrow> i32 \<Rightarrow> i32 \<Rightarrow> 'w module_state \<Rightarrow> 'w env
     \<Rightarrow> ((dyn_error + i32) \<times> 'g wasmtime_context \<times> 'w module_state \<times> 'w env) outcome" where
  "wasmtime_call wc i op_length msg_length ms ev =
     (case get_func_3_1 (wc_module wc) (guest_export_name GuestCall) of
        None \<Rightarrow> Ret (Inl (provider_error_to_string GuestCallNotFound), wc, ms, ev)
      | Some f \<Rightarrow>
          obind (run_guest (f i op_length msg_length) \<lparr>inst = wc_inst wc, mstate = ms, env = ev\<rparr>)
            (\<lambda>(r, c).
              let wc' = wc\<lparr>wc_inst := inst c\<rparr>
              in case r of
                   Inr code \<Rightarrow> Ret (Inr code, wc', mstate c, env c)
                 | Inl t \<Rightarrow> Ret (Inr 0, wc', set_guest_error i t (mstate c), env c)))"

definition wasmtime_call_async ::
    "'g wasmtime_context \<Rightarrow> i32 \<Rightarrow> i32 \<Rightarrow> i32 \<Rightarrow> 'w module_state \<Rightarrow> 'w env
     \<Rightarrow> ((dyn_error + i32) \<times> 'g wasmtime_context \<times> 'w module_state \<times> 'w env) outcome" where
  "wasmtime_call_async wc i op_length msg_length ms ev =
     (case get_func_3_0 (wc_module wc) (guest_export_name AsyncGuestCall) of
        None \<Rightarrow> Ret (Inl (provider_error_to_string AsyncGuestCallNotFound), wc, ms, ev)
      | Some f \<Rightarrow>
          obind (run_guest (f i op_length msg_length) \<lparr>inst = wc_inst wc, mstate = ms, env = ev\<rparr>)
            (\<lambda>(r, c).
              let wc' = wc\<lparr>wc_inst := inst c\<rparr>
              in case r of
                   Inr _ \<Rightarrow> Ret (Inr 0, wc', mstate c, env c)
                 | Inl t \<Rightarrow>
                     obind (set_guest_call_complete i 0 [] (set_guest_error i t (mstate c))) (\<lambda>ms'.
                       Ret (Inr 0, wc', ms', env c))))"

definition wasmtime_engine ::
    "'g wasmtime_api \<Rightarrow> ('g wasmtime_provider, 'g wasmtime_context, 'w) engine_provider" where
  "wasmtime_engine api =
     \<lparr>engine_init = default_engine_init,
      engine_new_context = wasmtime_new_context api,
      engine_replace = wasmtime_replace,
      context_init = wasmtime_context_init,
      context_call = wasmtime_call,
      context_call_async = wasmtime_call_async\<rparr>"

end
