(* ===== verification/Import_Safety.thy ===== *)
theory Import_Safety
  imports Wasmtime_Imports Call_Lifecycle
begin

text \<open>
  What the host functions of \<open>Wasmtime_Imports\<close> guarantee, whatever guest calls them: exactly
  which memory accesses succeed, what the request and response functions do to the guest's memory,
  and which facts about the shared state survive a whole run of an arbitrary guest.
\<close>

subsection \<open>Reading and writing guest memory\<close>

text \<open>A 32-bit memory holds at most 2 ^ 32 bytes.\<close>

definition mem_ok :: "bytes \<Rightarrow> bool" where
  "mem_ok data \<longleftrightarrow> length data \<le> 2 ^ 32"

definition fits :: "bytes \<Rightarrow> i32 \<Rightarrow> nat \<Rightarrow> bool" where
  "fits data ptr n \<longleftrightarrow> 0 \<le> sint ptr \<and> nat (sint ptr) + n \<le> length data"

lemma write_bytes_fits:
  "fits data ptr (length bs) \<Longrightarrow>
     write_bytes_to_memory data ptr bs = Ret (overwrite (nat (sint ptr)) bs data)"
  by (simp add: fits_def write_bytes_to_memory_def)

lemma write_bytes_not_fits:
  "\<not> fits data ptr (length bs) \<Longrightarrow> write_bytes_to_memory data ptr bs = Undefined"
  by (auto simp: fits_def write_bytes_to_memory_def)

lemma write_bytes_Ret:
  "write_bytes_to_memory data ptr bs = Ret data' \<longleftrightarrow>
     fits data ptr (length bs) \<and> data' = overwrite (nat (sint ptr)) bs data"
  by (auto simp: fits_def write_bytes_to_memory_def)

lemma sint_i32_add_small:
  "- (2 ^ 31) \<le> sint (p :: i32) + sint l \<Longrightarrow> sint p + sint l < 2 ^ 31
     \<Longrightarrow> sint (p + l) = sint p + sint l"
  by (simp add: sint_word_add signed_take_bit_int_eq_self)

lemma sint_i32_add_overflow:
  assumes "2 ^ 31 \<le> sint (p :: i32) + sint l"
  shows "sint (p + l) < 0"
proof -
  have "signed_take_bit 31 (sint p + sint l) \<le> sint p + sint l - 2 ^ Suc 31"
    using assms by (intro signed_take_bit_int_less_eq)
  moreover have "sint (p + l) = signed_take_bit 31 (sint p + sint l)"
    using sint_word_add [of p l] by simp
  moreover have "(2 :: int) ^ Suc 31 = 2 ^ 31 + 2 ^ 31"
    by simp
  ultimately show ?thesis
    using sint_i32_range [of p] sint_i32_range [of l] by linarith
qed

lemma get_vec_eq:
  assumes "mem_ok data"
  shows "get_vec_from_memory data ptr len =
    (if 0 \<le> sint ptr \<and> 0 \<le> sint len \<and> sint ptr + sint len < 2 ^ 31
        \<and> sint ptr + sint len \<le> int (length data)
     then Ret (block (nat (sint ptr)) (nat (sint len)) data)
     else Panic Index_Out_Of_Bounds)"
proof -
  have short: "length data < 2 ^ 63"
    using assms by (simp add: mem_ok_def)
  consider (neg) "sint ptr < 0"
    | (len_neg) "0 \<le> sint ptr" "sint len < 0"
    | (overflow) "0 \<le> sint ptr" "0 \<le> sint len" "2 ^ 31 \<le> sint ptr + sint len"
    | (small) "0 \<le> sint ptr" "0 \<le> sint len" "sint ptr + sint len < 2 ^ 31"
    by linarith
  then show ?thesis
  proof cases
    case neg
    with unat_usize_of_i32_neg [of ptr] short show ?thesis
      by (auto simp: get_vec_from_memory_def Let_def)
  next
    case len_neg
    have "sint (ptr + len) = sint ptr + sint len"
      using len_neg sint_i32_range [of ptr] sint_i32_range [of len]
      by (intro sint_i32_add_small) simp_all
    then show ?thesis
      using len_neg short unat_usize_of_i32_neg [of "ptr + len"]
        unat_usize_of_i32_nonneg [of "ptr + len"] unat_usize_of_i32_nonneg [of ptr]
      by (cases "sint ptr + sint len < 0") (auto simp: get_vec_from_memory_def Let_def)
  next
    case overflow
    then have "2 ^ 63 \<le> unat (usize_of_i32 (ptr + len))"
      by (intro unat_usize_of_i32_neg sint_i32_add_overflow)
    with overflow short show ?thesis
      by (auto simp: get_vec_from_memory_def Let_def)
  next
    case small
    have "sint (ptr + len) = sint ptr + sint len"
      using small by (intro sint_i32_add_small) simp_all
    then show ?thesis
      using small unat_usize_of_i32_nonneg [of "ptr + len"] unat_usize_of_i32_nonneg [of ptr]
      by (auto simp: get_vec_from_memory_def Let_def nat_add_distrib nat_le_iff)
  qed
qed

text \<open>C12: reading guest memory returns exactly for a range that starts and ends inside the
  memory, is not negative and does not pass the largest \<open>i32\<close>, and then returns its bytes; for
  every other pointer and length the host panics.\<close>

theorem get_vec_from_memory_returns_iff:
  assumes "mem_ok data"
  shows "get_vec_from_memory data ptr len =
    (if 0 \<le> sint ptr \<and> 0 \<le> sint len \<and> sint ptr + sint len < 2 ^ 31
        \<and> sint ptr + sint len \<le> int (length data)
     then Ret (block (nat (sint ptr)) (nat (sint len)) data)
     else Panic Index_Out_Of_Bounds)"
  using assms by (rule get_vec_eq)

theorem get_vec_from_memory_returns_iff_witness:
  "get_vec_from_memory [10, 20, 30, 40] 1 2 = Ret [20, 30]
   \<and> get_vec_from_memory [10, 20, 30, 40] 3 2 = Panic Index_Out_Of_Bounds
   \<and> get_vec_from_memory [10, 20, 30, 40] (- 1) 1 = Panic Index_Out_Of_Bounds"
proof -
  have ok: "mem_ok [10, 20, 30, 40]"
    by (simp add: mem_ok_def)
  show ?thesis
    by (simp add: get_vec_from_memory_returns_iff [OF ok] block_def)
qed

lemma get_vec_fits:
  assumes "mem_ok data" and "fits data ptr n" and "nat (sint ptr) + n < 2 ^ 31"
  shows "get_vec_from_memory data ptr (i32_of_len n) = Ret (block (nat (sint ptr)) n data)"
proof -
  have "sint (i32_of_len n) = int n"
    using assms(3) by (intro sint_i32_of_len) simp
  moreover have "0 \<le> sint ptr" "sint ptr + int n < 2 ^ 31" "sint ptr + int n \<le> int (length data)"
    using assms(2,3) by (auto simp: fits_def nat_le_iff nat_less_iff le_diff_conv [symmetric]
        less_diff_conv [symmetric])
  ultimately show ?thesis
    by (simp add: get_vec_eq [OF assms(1)])
qed

lemma get_vec_Undefined [simp]: "get_vec_from_memory data ptr len \<noteq> Undefined"
  by (simp add: get_vec_from_memory_def Let_def)

text \<open>C40: what is written into guest memory is what is read back from the same place, the memory
  keeps its size, and every block that does not overlap the written one is unchanged.\<close>

theorem memory_write_read:
  assumes "mem_ok data" and "write_bytes_to_memory data ptr bs = Ret data'"
    and "nat (sint ptr) + length bs < 2 ^ 31"
  shows "get_vec_from_memory data' ptr (i32_of_len (length bs)) = Ret bs
    \<and> length data' = length data
    \<and> (disjnt_blocks q n (nat (sint ptr)) (length bs) \<longrightarrow> block q n data' = block q n data)"
proof -
  have fit: "fits data ptr (length bs)" and data': "data' = overwrite (nat (sint ptr)) bs data"
    using assms(2) by (auto simp: write_bytes_Ret)
  then have "fits data' ptr (length bs)" "mem_ok data'"
    using assms(1) by (simp_all add: fits_def mem_ok_def)
  from get_vec_fits [OF this(2,1) assms(3)] show ?thesis
    using fit by (simp add: data' fits_def block_overwrite_disjnt)
qed

theorem memory_write_read_witness:
  "get_vec_from_memory [0, 8, 9, 0] 1 (i32_of_len (Suc (Suc 0))) = Ret [8, 9]
   \<and> block 3 1 [0, 8, 9, 0 :: u8] = block 3 1 [0, 0, 0, 0]"
proof -
  have ok: "mem_ok [0, 0, 0, 0]" and w: "write_bytes_to_memory [0, 0, 0, 0] 1 [8, 9] = Ret [0, 8, 9, 0]"
    and small: "nat (sint (1 :: i32)) + length [8, 9 :: u8] < 2 ^ 31"
    by (simp_all add: mem_ok_def write_bytes_to_memory_def overwrite_def)
  from memory_write_read [OF ok w small, of 3 1] show ?thesis
    by (simp add: disjnt_blocks_def)
qed

subsection \<open>Handing the request to the guest\<close>

lemma set_caller_memory_simps [simp]:
  "wmem (inst (set_caller_memory m c)) = Some m"
  "wstate (inst (set_caller_memory m c)) = wstate (inst c)"
  "mstate (set_caller_memory m c) = mstate c"
  "env (set_caller_memory m c) = env c"
  by (simp_all add: set_caller_memory_def)

lemma fits_overwrite [simp]:
  "fits data q (length bs) \<Longrightarrow> fits (overwrite (nat (sint q)) bs data) ptr n = fits data ptr n"
  by (simp add: fits_def)

lemma guest_request_eq:
  assumes "get_guest_request i (mstate c) = Some iv" and "wmem (inst c) = Some data"
  shows "linker_guest_request [i, op_ptr, ptr] c =
    (if fits data ptr (length (msg iv)) \<and> fits data op_ptr (length (operation iv))
     then Ret (None, set_caller_memory
                 (overwrite (nat (sint op_ptr)) (as_bytes (operation iv))
                    (overwrite (nat (sint ptr)) (msg iv) data)) c)
     else Undefined)"
  using assms
  by (cases "fits data ptr (length (msg iv))")
     (simp_all add: linker_guest_request_def with_params_def get_caller_memory_def write_bytes_fits
        write_bytes_not_fits)

text \<open>C13: \<open>__guest_request\<close> on a live invocation has undefined behaviour exactly when one of the
  two pointers does not leave room for what is written there. When both fit it returns to the guest,
  which finds the operation name at its pointer, every part of the payload that the name does not
  overlap, so all of it when the two buffers are disjoint, and the rest of its memory unchanged.\<close>

theorem guest_request_writes_buffers:
  assumes req: "get_guest_request i (mstate c) = Some iv" and mem: "wmem (inst c) = Some data"
  shows "(linker_guest_request [i, op_ptr, ptr] c = Undefined \<longleftrightarrow>
            \<not> fits data ptr (length (msg iv)) \<or> \<not> fits data op_ptr (length (operation iv)))
    \<and> (fits data ptr (length (msg iv)) \<and> fits data op_ptr (length (operation iv))
       \<longrightarrow> (\<exists>m. linker_guest_request [i, op_ptr, ptr] c = Ret (None, set_caller_memory m c)
              \<and> length m = length data
              \<and> block (nat (sint op_ptr)) (length (operation iv)) m = as_bytes (operation iv)
              \<and> (\<forall>k l. k + l \<le> length (msg iv)
                      \<and> disjnt_blocks (nat (sint ptr) + k) l (nat (sint op_ptr)) (length (operation iv))
                     \<longrightarrow> block (nat (sint ptr) + k) l m = block k l (msg iv))
              \<and> (disjnt_blocks (nat (sint ptr)) (length (msg iv)) (nat (sint op_ptr)) (length (operation iv))
                     \<longrightarrow> block (nat (sint ptr)) (length (msg iv)) m = msg iv)
              \<and> (\<forall>q n. disjnt_blocks q n (nat (sint ptr)) (length (msg iv))
                      \<and> disjnt_blocks q n (nat (sint op_ptr)) (length (operation iv))
                     \<longrightarrow> block q n m = block q n data)))"
proof (rule conjI, goal_cases)
  case 1
  show ?case
    by (simp add: guest_request_eq [OF req mem])
next
  case 2
  show ?case
  proof (rule impI, elim conjE)
    assume fit: "fits data ptr (length (msg iv))" "fits data op_ptr (length (operation iv))"
    let ?p = "nat (sint ptr)" and ?o = "nat (sint op_ptr)" and ?n = "length (operation iv)"
    let ?m1 = "overwrite ?p (msg iv) data"
    let ?m = "overwrite ?o (as_bytes (operation iv)) ?m1"
    have at1: "?p + length (msg iv) \<le> length data" and at2: "?o + length (as_bytes (operation iv)) \<le> length ?m1"
      using fit by (simp_all add: fits_def)
    have run: "linker_guest_request [i, op_ptr, ptr] c = Ret (None, set_caller_memory ?m c)"
      using fit by (simp add: guest_request_eq [OF req mem])
    have op: "block ?o ?n ?m = as_bytes (operation iv)"
      using block_overwrite_same [OF at2] by simp
    have part: "block (?p + k) l ?m = block k l (msg iv)"
      if "k + l \<le> length (msg iv) \<and> disjnt_blocks (?p + k) l ?o ?n" for k l
      using that at1 at2 by (simp add: block_overwrite_disjnt block_overwrite_part)
    have whole: "block ?p (length (msg iv)) ?m = msg iv" if "disjnt_blocks ?p (length (msg iv)) ?o ?n"
      using that part [of 0 "length (msg iv)"] by (simp add: block_def)
    have frame: "block q n ?m = block q n data"
      if "disjnt_blocks q n ?p (length (msg iv)) \<and> disjnt_blocks q n ?o ?n" for q n
      using that at1 at2 by (simp add: block_overwrite_disjnt)
    have len: "length ?m = length data"
      using at1 at2 by simp
    show "\<exists>m. linker_guest_request [i, op_ptr, ptr] c = Ret (None, set_caller_memory m c)
              \<and> length m = length data \<and> block ?o ?n m = as_bytes (operation iv)
              \<and> (\<forall>k l. k + l \<le> length (msg iv) \<and> disjnt_blocks (?p + k) l ?o ?n
                     \<longrightarrow> block (?p + k) l m = block k l (msg iv))
              \<and> (disjnt_blocks ?p (length (msg iv)) ?o ?n \<longrightarrow> block ?p (length (msg iv)) m = msg iv)
              \<and> (\<forall>q n. disjnt_blocks q n ?p (length (msg iv)) \<and> disjnt_blocks q n ?o ?n
                     \<longrightarrow> block q n m = block q n data)"
      by (intro exI [of _ ?m] conjI allI impI run len op; (erule whole | erule part | erule frame))
  qed
qed

definition sample_env :: "nat env" where
  "sample_env = \<lparr>world = 0, stdout = [], in_runtime = True, spawned = [], module_count = 1,
                 context_count = 1\<rparr>"

definition sample_mem :: bytes where
  "sample_mem = replicate 16 0"

lemma sample_mem_ok [simp]: "mem_ok sample_mem" "length sample_mem = 16"
  by (simp_all add: mem_ok_def sample_mem_def)

definition sample_cx :: "(unit, nat) cx" where
  "sample_cx = \<lparr>inst = \<lparr>wmem = Some sample_mem, wstate = ()\<rparr>, mstate = sample_state,
                env = sample_env\<rparr>"

text \<open>A bad pointer, two disjoint buffers, and an operation that overlaps the end of the payload.\<close>

theorem guest_request_writes_buffers_witness:
  "linker_guest_request [1, 100, 0] sample_cx = Undefined
   \<and> (\<exists>m. linker_guest_request [1, 8, 0] sample_cx = Ret (None, set_caller_memory m sample_cx)
        \<and> block 0 3 m = [1, 2, 3] \<and> block 8 4 m = as_bytes ''echo'')
   \<and> (\<exists>m. linker_guest_request [1, 2, 0] sample_cx = Ret (None, set_caller_memory m sample_cx)
        \<and> block 0 2 m = [1, 2] \<and> block 2 4 m = as_bytes ''echo'')"
proof -
  have req: "get_guest_request 1 (mstate sample_cx) = Some sample_invocation"
    and mem: "wmem (inst sample_cx) = Some sample_mem"
    by (simp_all add: sample_cx_def sample_defs get_guest_request_def)
  have len: "length (msg sample_invocation) = 3" "length (operation sample_invocation) = 4"
    and vals: "msg sample_invocation = [1, 2, 3]" "operation sample_invocation = ''echo''"
    by (simp_all add: sample_invocation_def Invocation_new_def)
  have bad: "linker_guest_request [1, 100, 0] sample_cx = Undefined"
    using guest_request_writes_buffers [OF req mem, of 100 0] by (simp add: fits_def len)
  have apart: "\<exists>m. linker_guest_request [1, 8, 0] sample_cx = Ret (None, set_caller_memory m sample_cx)
      \<and> block 0 3 m = msg sample_invocation \<and> block 8 4 m = as_bytes (operation sample_invocation)"
    using guest_request_writes_buffers [OF req mem, of 8 0]
    by (auto simp: fits_def len disjnt_blocks_def)
  have fit: "fits sample_mem 0 (length (msg sample_invocation)) \<and> fits sample_mem 2 (length (operation sample_invocation))"
    by (simp add: fits_def len)
  obtain m where "linker_guest_request [1, 2, 0] sample_cx = Ret (None, set_caller_memory m sample_cx)"
    and "block 2 4 m = as_bytes (operation sample_invocation)"
    and "\<And>k l. k + l \<le> 3 \<and> disjnt_blocks k l 2 4 \<Longrightarrow> block k l m = block k l (msg sample_invocation)"
    using guest_request_writes_buffers [OF req mem, of 2 0, THEN conjunct2, rule_format, OF fit]
    by (auto simp: len)
  moreover from this(3) [of 0 2] have "block 0 2 m = [1, 2]"
    by (simp add: disjnt_blocks_def vals) (simp add: block_def)
  ultimately show ?thesis
    using bad apart by (auto simp: vals)
qed

subsection \<open>What survives any guest\<close>

text \<open>
  A property of the host's side of a run that every host function outside a set \<open>E\<close> keeps, and
  that the guest cannot touch by changing its own instance, is kept by every guest that does not
  call the functions of \<open>E\<close>.
\<close>

locale import_invariant =
  fixes E :: "host_exports set"
    and P :: "('g, 'w) cx \<Rightarrow> bool"
  assumes import_step: "e \<notin> E \<Longrightarrow> P c \<Longrightarrow> linker_fn e ps c = Ret (r, c') \<Longrightarrow> P c'"
    and guest_step: "P c \<Longrightarrow> P (c\<lparr>inst := i\<rparr>)"
begin

lemma run_keeps:
  assumes "avoids E p" and "P c" and "run_guest p c = Ret (r, c')"
  shows "P c'"
  using assms
proof (induction p arbitrary: c)
  case (GPut i p)
  then show ?case using guest_step by auto
next
  case (GCall e ps k)
  then obtain r1 c1 where "linker_fn e ps c = Ret (r1, c1)" and "run_guest (k r1) c1 = Ret (r, c')"
    by auto
  moreover have "P c1"
    using GCall.prems calculation(1) import_step by auto
  ultimately show ?case
    using GCall.IH [OF rangeI] GCall.prems(1) by auto
qed auto

end

text \<open>What each host function does to the state it shares with the host, as cases.\<close>

lemma obind_case_prod_RetE:
  assumes "obind m (\<lambda>(a, b). f a b) = Ret y"
  obtains a b where "m = Ret (a, b)" and "f a b = Ret y"
  using assms by (cases m) auto

lemma do_host_call_Inr:
  assumes "do_host_call b n op v ms w = Ret (x, ms', w')"
  obtains k where "x = Inr k"
  using assms by (auto simp: do_host_call_eq elim!: obind_case_prod_RetE)

lemma linker_host_call_mstate:
  assumes "linker_host_call ps c = Ret (r, c')"
  obtains b n op v w where
    "do_host_call b n op v (mstate c) (world (env c)) = Ret (Inr (the r), mstate c', w)"
proof -
  obtain b n op v x ms' w' where call: "do_host_call b n op v (mstate c) (world (env c)) = Ret (x, ms', w')"
    and r: "r = (case x of Inr k \<Rightarrow> Some k | Inl e \<Rightarrow> None)" and c': "mstate c' = ms'"
    using assms
    by (auto simp: linker_host_call_def with_params_def Let_def obind_eq_Ret_iff split: if_splits)
  obtain k where "x = Inr k"
    using call by (rule do_host_call_Inr)
  with call r c' show thesis
    by (intro that) simp
qed

lemma linker_async_host_call_mstate:
  assumes "linker_async_host_call ps c = Ret (r, c')"
  obtains b n op v t where
    "do_async_host_call b n op v (in_runtime (env c)) (mstate c) = Ret (Inr (the r), t, mstate c')"
proof -
  obtain b n op v x t ms' where
    call: "do_async_host_call b n op v (in_runtime (env c)) (mstate c) = Ret (x, t, ms')"
    and r: "r = (case x of Inr k \<Rightarrow> Some k | Inl e \<Rightarrow> None)" and c': "mstate c' = ms'"
    using assms
    by (auto simp: linker_async_host_call_def with_params_def Let_def obind_eq_Ret_iff split: if_splits)
  have "x = Inr (call_index (mstate c))"
    using call by (auto simp: do_async_host_call_def next_call_index_def Let_def split: if_splits)
  with call r c' show thesis
    by (intro that) simp
qed

lemma linker_fn_mstate:
  assumes "linker_fn e ps c = Ret (r, c')"
  shows "mstate c' = mstate c
    \<or> (\<exists>b n op v w. e = HostCall \<and>
         do_host_call b n op v (mstate c) (world (env c)) = Ret (Inr (the r), mstate c', w))
    \<or> (\<exists>b n op v t. e = AsyncHostCall \<and>
         do_async_host_call b n op v (in_runtime (env c)) (mstate c) = Ret (Inr (the r), t, mstate c'))
    \<or> (\<exists>i v. e = GuestResponse \<and> mstate c' = set_guest_response i v (mstate c))
    \<or> (\<exists>i m. e = GuestError \<and> mstate c' = set_guest_error i m (mstate c))
    \<or> (\<exists>i k. e = GuestResponseReady \<and> finish_guest_invocation i k (mstate c) = Ret (mstate c'))"
proof (cases e)
  case HostCall
  then show ?thesis
    using assms linker_host_call_mstate [of ps c r c'] by auto metis
next
  case AsyncHostCall
  then show ?thesis
    using assms linker_async_host_call_mstate [of ps c r c'] by auto metis
next
  case GuestResponse
  then show ?thesis
    using assms
    by (fastforce simp: linker_guest_response_def with_params_def obind_eq_Ret_iff split: if_splits)
next
  case GuestError
  then show ?thesis
    using assms
    by (fastforce simp: linker_guest_error_def with_params_def obind_eq_Ret_iff split: if_splits)
next
  case GuestResponseReady
  then show ?thesis
    using assms
    by (auto simp: linker_guest_response_ready_def with_params_def obind_eq_Ret_iff split: if_splits)
qed (use assms in \<open>auto simp: linker_console_log_def linker_guest_request_def
      linker_host_response_def linker_host_response_len_def linker_host_error_def
      linker_host_error_len_def with_params_def obind_eq_Ret_iff Let_def
        split: if_splits option.splits\<close>)

lemma ms_wf_index_update [simp]: "ms_wf (ms\<lparr>call_index := k\<rparr>) = ms_wf ms"
  by (rule ms_wf_cong) simp_all

lemma ms_wf_do_host_call:
  assumes "ms_wf ms" and "do_host_call b n op v ms w = Ret (x, ms', w')"
  shows "ms_wf ms'"
  using assms ms_wf_init_host_call [of "snd (next_call_index ms)" "call_index ms"]
  by (auto simp: do_host_call_eq obind_eq_Ret_iff intro!: ms_wf_record_host_result)

lemma ms_wf_do_async_host_call:
  assumes "ms_wf ms" and "do_async_host_call b n op v rt ms = Ret (x, t, ms')"
  shows "ms_wf ms'"
  using assms
  by (auto simp: do_async_host_call_def next_call_index_def Let_def ms_wf_init_host_call
      split: if_splits)

interpretation keeps_wf: import_invariant "{}" "\<lambda>c :: ('g, 'w) cx. ms_wf (mstate c)"
proof
  fix e ps r and c c' :: "('g, 'w) cx"
  assume wf: "ms_wf (mstate c)" and run: "linker_fn e ps c = Ret (r, c')"
  show "ms_wf (mstate c')"
    using linker_fn_mstate [OF run] wf
    by (auto intro: ms_wf_ops ms_wf_do_host_call ms_wf_do_async_host_call)
qed simp

lemma call_live_record_host_result [simp]:
  "call_live (snd (record_host_result i r ms)) j = call_live ms j"
  by (cases r) (simp_all add: record_host_result_def)

lemma call_live_init_host_call [simp]:
  "call_live (init_host_call i ms) j \<longleftrightarrow> j = i \<or> call_live ms j"
  by (simp add: call_live_def)

lemma call_live_index_update [simp]: "call_live (ms\<lparr>call_index := k\<rparr>) j = call_live ms j"
  by (simp add: call_live_def)

lemma call_live_do_host_call:
  assumes "call_live ms i" and "do_host_call b n op v ms w = Ret (x, ms', w')"
  shows "call_live ms' i"
  using assms
  by (auto simp: do_host_call_eq obind_eq_Ret_iff next_call_index_def)

lemma call_live_do_async_host_call:
  assumes "call_live ms i" and "do_async_host_call b n op v rt ms = Ret (x, t, ms')"
  shows "call_live ms' i"
  using assms
  by (auto simp: do_async_host_call_def next_call_index_def Let_def split: if_splits)

interpretation keeps_call: import_invariant "{GuestResponseReady}"
  "\<lambda>c :: ('g, 'w) cx. call_live (mstate c) i" for i
proof
  fix e ps r and c c' :: "('g, 'w) cx"
  assume e: "e \<notin> {GuestResponseReady}" and live: "call_live (mstate c) i"
    and run: "linker_fn e ps c = Ret (r, c')"
  show "call_live (mstate c') i"
    using linker_fn_mstate [OF run] live e
    by (auto simp: set_guest_response_def set_guest_error_def
        intro: call_live_do_host_call call_live_do_async_host_call)
qed simp

text \<open>The callbacks of the embedder and the id of the host.\<close>

definition host_side :: "'w module_state \<Rightarrow> 'w host_callback option \<times> 'w host_callback option \<times> u64" where
  "host_side ms = (sync_hostcall ms, async_hostcall ms, module_id ms)"

lemma host_side_next_call_index [simp]: "host_side (ms\<lparr>call_index := k\<rparr>) = host_side ms"
  by (simp add: host_side_def)

lemma host_side_init_host_call [simp]: "host_side (init_host_call i ms) = host_side ms"
  by (simp add: host_side_def)

lemma host_side_update_call [simp]: "host_side (update_call i f ms) = host_side ms"
  by (simp add: host_side_def)

lemma host_side_record_host_result [simp]: "host_side (snd (record_host_result i r ms)) = host_side ms"
  by (simp add: record_host_result_def split: sum.splits)

lemma host_side_finish:
  "finish_guest_invocation i k ms = Ret ms' \<Longrightarrow> host_side ms' = host_side ms"
  by (auto simp: finish_guest_invocation_def Let_def obind_eq_Ret_iff oneshot_send_def host_side_def
      split: option.splits)

lemma host_side_do_host_call:
  "do_host_call b n op v ms w = Ret (x, ms', w') \<Longrightarrow> host_side ms' = host_side ms"
  by (auto simp: do_host_call_eq obind_eq_Ret_iff next_call_index_def)

lemma host_side_do_async_host_call:
  "do_async_host_call b n op v rt ms = Ret (x, t, ms') \<Longrightarrow> host_side ms' = host_side ms"
  by (auto simp: do_async_host_call_def Let_def next_call_index_def split: if_splits)

lemma host_side_linker_fn:
  "linker_fn e ps c = Ret (r, c') \<Longrightarrow> host_side (mstate c') = host_side (mstate c)"
  by (drule linker_fn_mstate)
     (auto simp: set_guest_response_def set_guest_error_def
        dest: host_side_finish host_side_do_host_call host_side_do_async_host_call)

interpretation keeps_callbacks: import_invariant "{}" "\<lambda>c :: ('g, 'w) cx. host_side (mstate c) = h" for h
  by unfold_locales (auto dest: host_side_linker_fn)

text \<open>C11: however a guest uses the host functions, a run that returns to the host leaves the
  shared state well formed, with the callbacks of the embedder and the id of the host as they were; and
  a guest that never calls \<open>__guest_call_response_ready\<close> cannot make a live call disappear.\<close>

theorem any_guest_keeps_state:
  assumes "run_guest p c = Ret (r, c')" and "ms_wf (mstate c)"
  shows "ms_wf (mstate c')
    \<and> sync_hostcall (mstate c') = sync_hostcall (mstate c)
    \<and> async_hostcall (mstate c') = async_hostcall (mstate c)
    \<and> module_id (mstate c') = module_id (mstate c)
    \<and> (avoids {GuestResponseReady} p \<longrightarrow> call_live (mstate c) i \<longrightarrow> call_live (mstate c') i)"
proof -
  have "avoids {} p"
    by (induction p) auto
  then have "ms_wf (mstate c')" "host_side (mstate c') = host_side (mstate c)"
    using assms keeps_wf.run_keeps [of p c r c'] keeps_callbacks.run_keeps [of p c _ r c'] by blast+
  moreover have "call_live (mstate c') i" if "avoids {GuestResponseReady} p" and "call_live (mstate c) i"
    using that assms(1) keeps_call.run_keeps [of p c i r c'] by blast
  ultimately show ?thesis
    by (simp add: host_side_def)
qed

definition sample_guest :: "(unit, i32) guest_prog" where
  "sample_guest = GCall GuestResponse [1, 0, 4] (\<lambda>_. GRet 1)"

theorem any_guest_keeps_state_witness:
  "\<exists>c'. run_guest sample_guest sample_cx = Ret (Inr 1, c') \<and> ms_wf (mstate c')
     \<and> call_live (mstate c') 1"
proof -
  have read: "get_vec_from_memory sample_mem 0 4 = Ret [0, 0, 0, 0]"
    by (simp add: get_vec_eq block_def) (simp add: sample_mem_def numeral_eq_Suc)
  have "run_guest sample_guest sample_cx =
      Ret (Inr 1, sample_cx\<lparr>mstate := set_guest_response 1 [0, 0, 0, 0] sample_state\<rparr>)" (is "_ = Ret (_, ?c')")
    by (simp add: sample_guest_def sample_cx_def linker_guest_response_def with_params_def
        get_caller_memory_def read)
  moreover have "ms_wf (mstate sample_cx)" "call_live (mstate sample_cx) 1"
    by (simp_all add: sample_cx_def sample_state_wf) (simp add: call_live_def sample_defs)
  moreover have "avoids {GuestResponseReady} sample_guest"
    by (simp add: sample_guest_def)
  ultimately show ?thesis
    using any_guest_keeps_state [of sample_guest sample_cx "Inr 1" ?c' 1] by blast
qed

subsection \<open>Types\<close>

lemmas linker_fn_defs =
  linker_guest_request_def linker_console_log_def linker_host_call_def linker_async_host_call_def
  linker_host_response_def linker_host_response_len_def linker_guest_response_ready_def
  linker_guest_response_def linker_guest_error_def linker_host_error_def linker_host_error_len_def

lemma host_call_result: "linker_host_call ps c = Ret (r, c') \<Longrightarrow> r \<noteq> None"
  by (auto simp: linker_host_call_def with_params_def Let_def
      split: if_splits elim!: obind_case_prod_RetE obind_RetE do_host_call_Inr)

lemma async_host_call_result: "linker_async_host_call ps c = Ret (r, c') \<Longrightarrow> r \<noteq> None"
  by (auto simp: linker_async_host_call_def do_async_host_call_def next_call_index_def with_params_def Let_def
      split: if_splits elim!: obind_case_prod_RetE obind_RetE)

text \<open>C39: every host function fits the type it is linked with. It reads the parameters of its type and no
  others: more arguments change nothing, with fewer it panics, except that \<open>__host_response\<close> and
  \<open>__host_error\<close> need only the id where there is nothing to write. And when it returns to the guest it has
  set a result exactly when its type has one.\<close>

theorem host_functions_typed:
  "(length ps = length (params (host_export_type e)) \<longrightarrow> linker_fn e (ps @ qs) c = linker_fn e ps c)
   \<and> (length ps < length (params (host_export_type e)) \<longrightarrow>
        (\<exists>reason. linker_fn e ps c = Panic reason)
        \<or> length ps = 1 \<and> linker_fn e ps c = Ret (None, c)
          \<and> (e = HostResponse \<and> get_host_response (ps ! 0) (mstate c) = None
             \<or> e = HostError \<and> get_host_error (ps ! 0) (mstate c) = None))
   \<and> (linker_fn e ps c = Ret (r, c') \<longrightarrow> (r \<noteq> None) = (results (host_export_type e) \<noteq> []))"
proof (intro conjI impI)
  show "linker_fn e (ps @ qs) c = linker_fn e ps c" if "length ps = length (params (host_export_type e))"
    using that by (cases e) (simp_all add: linker_fn_defs host_call_args_def with_params_def i32s_def nth_append
      cong: option.case_cong)
  show "(\<exists>reason. linker_fn e ps c = Panic reason)
      \<or> length ps = 1 \<and> linker_fn e ps c = Ret (None, c)
        \<and> (e = HostResponse \<and> get_host_response (ps ! 0) (mstate c) = None
           \<or> e = HostError \<and> get_host_error (ps ! 0) (mstate c) = None)"
    if "length ps < length (params (host_export_type e))"
    using that
    by (cases e; cases "wmem (inst c)")
       (auto simp: linker_fn_defs with_params_def i32s_def get_caller_memory_def unwrap_def split: option.splits)
  assume run: "linker_fn e ps c = Ret (r, c')"
  show "(r \<noteq> None) = (results (host_export_type e) \<noteq> [])"
  proof (cases "e \<in> {HostCall, AsyncHostCall}")
    case True
    then show ?thesis
      using run by (auto dest: host_call_result async_host_call_result)
  next
    case False
    then show ?thesis
      using run
      by (cases e) (auto simp: linker_fn_defs with_params_def split: if_splits option.splits elim!: obind_RetE)
  qed
qed

theorem host_functions_typed_witness:
  "(\<exists>reason. linker_fn GuestResponse [1, 4] sample_cx = Panic reason)
    \<and> linker_fn HostErrorLen [7, 9] sample_cx = linker_fn HostErrorLen [7] sample_cx
    \<and> linker_fn HostErrorLen [7] sample_cx = Ret (Some 0, sample_cx)
    \<and> results (host_export_type HostErrorLen) \<noteq> []"
proof -
  have short: "length [1, 4 :: i32] < length (params (host_export_type GuestResponse))"
    and fit: "length [7 :: i32] = length (params (host_export_type HostErrorLen))"
    by (simp_all add: i32s_def)
  have run: "linker_fn HostErrorLen [7] sample_cx = Ret (Some 0, sample_cx)"
    by (simp add: linker_host_error_len_def with_params_def sample_cx_def sample_defs get_host_error_def)
  show ?thesis
    using host_functions_typed [of "[1, 4]" GuestResponse "[]" sample_cx, THEN conjunct2, THEN conjunct1, rule_format, OF short]
      host_functions_typed [of "[7]" HostErrorLen "[9]" sample_cx, THEN conjunct1, rule_format, OF fit]
      host_functions_typed [of "[7]" HostErrorLen "[]" sample_cx, THEN conjunct2, THEN conjunct2, rule_format, OF run] run
    by simp
qed

end
