(* ===== verification/Host_Calls.thy ===== *)
theory Host_Calls
  imports Wapc_Host Wasmtime_Engine Import_Safety
begin

text \<open>
  The host runtime on the wasmtime engine: what \<open>WapcHost\<close> and \<open>WapcCallContext\<close> do when their
  engine is \<open>wasmtime_engine api\<close>, for an arbitrary wasmtime library \<open>api\<close> and arbitrary guests.
\<close>

subsection \<open>Linking\<close>

abbreviation wapc_key :: "host_exports \<Rightarrow> string \<times> string" where
  "wapc_key e \<equiv> (HOST_NAMESPACE, host_export_name e)"

text \<open>The linker after the functions \<open>E\<close> are defined, and the first name that is taken.\<close>

definition linked_with :: "host_exports set \<Rightarrow> linker \<Rightarrow> linker" where
  "linked_with E l = (\<lambda>(ns, n).
     case host_export_from_str n of
       Some e \<Rightarrow> if ns = HOST_NAMESPACE \<and> e \<in> E then Some (host_export_type e, Wapc_Fn e) else l (ns, n)
     | None \<Rightarrow> l (ns, n))"

definition taken :: "linker \<Rightarrow> host_exports \<Rightarrow> bool" where
  "taken l e \<longleftrightarrow> l (wapc_key e) \<noteq> None"

definition first_taken :: "linker \<Rightarrow> host_exports option" where
  "first_taken l = find (taken l) host_exports_iter"

lemma linked_with_key:
  "linked_with E l (wapc_key e) = (if e \<in> E then Some (host_export_type e, Wapc_Fn e) else l (wapc_key e))"
  by (simp add: linked_with_def host_names.parse_print)

lemma linked_with_empty [simp]: "linked_with {} l = l"
  by (auto simp: linked_with_def fun_eq_iff split: option.splits)

lemma linked_with_insert:
  "linked_with (insert e E) l = linked_with E (l(wapc_key e \<mapsto> (host_export_type e, Wapc_Fn e)))"
  by (auto simp: linked_with_def fun_eq_iff host_names.parse_iff host_names.print_eq_iff
      host_names.parse_None_iff split: option.splits)

lemma find_taken_update:
  assumes "e \<notin> set es"
  shows "find (taken (l(wapc_key e \<mapsto> v))) es = find (taken l) es"
  using assms by (intro find_cong) (auto simp: taken_def host_names.print_eq_iff)

lemma func_new_wapc:
  "func_new api (wapc_key e) ty f l =
     (if taken l e then Inl (msg_defined_twice api (wapc_key e)) else Inr (l(wapc_key e \<mapsto> (ty, f))))"
  by (simp add: func_new_def taken_def)

lemma link_exports_eq:
  assumes "distinct es"
  shows "link_exports api es l =
    (case find (taken l) es of
       None \<Rightarrow> Inr (linked_with (set es) l)
     | Some e \<Rightarrow> Inl (msg_defined_twice api (wapc_key e)))"
  using assms
proof (induction es arbitrary: l)
  case (Cons e es)
  then show ?case
    by (cases "taken l e") (auto simp: func_new_wapc linked_with_insert find_taken_update
        split: option.splits)
qed simp

lemma add_to_linker_eq:
  "add_to_linker api l =
     (case first_taken l of
        None \<Rightarrow> Inr (linked_with UNIV l)
      | Some e \<Rightarrow> Inl (WasiError (msg_defined_twice api (wapc_key e))))"
proof -
  have "distinct host_exports_iter" "set host_exports_iter = UNIV"
    using enum_distinct enum_UNIV by (simp_all add: enum_host_exports_def)
  then show ?thesis
    by (simp add: add_to_linker_def link_exports_eq first_taken_def split: option.splits)
qed

text \<open>\<open>add_to_linker\<close> fails exactly when the linker already defines one of the eleven waPC
  names, with the message for the first such name in the order of the enum. Otherwise every waPC
  name resolves to the host function of its enum variant, with that function's type, and every
  other name resolves as before.\<close>

theorem add_to_linker_resolves:
  "add_to_linker api l =
     (case first_taken l of
        None \<Rightarrow> Inr (\<lambda>(ns, n).
          case host_export_from_str n of
            Some e \<Rightarrow> if ns = HOST_NAMESPACE then Some (host_export_type e, Wapc_Fn e) else l (ns, n)
          | None \<Rightarrow> l (ns, n))
      | Some e \<Rightarrow> Inl (WasiError (msg_defined_twice api (wapc_key e))))"
  by (simp add: add_to_linker_eq linked_with_def cong: option.case_cong)

subsection \<open>One synchronous call\<close>

text \<open>The guest's side of a call: the run of its \<open>__guest_call\<close> on the context's instance.\<close>

definition guest_run ::
    "(i32 \<Rightarrow> i32 \<Rightarrow> i32 \<Rightarrow> ('g, 'r) guest_prog) \<Rightarrow> 'g winst \<Rightarrow> i32 \<Rightarrow> string \<Rightarrow> bytes
     \<Rightarrow> 'w module_state \<Rightarrow> 'w env \<Rightarrow> ((string + 'r) \<times> ('g, 'w) cx) outcome" where
  "guest_run f ins i op payload ms ev =
     run_guest (f i (i32_of_len (length op)) (i32_of_len (length payload)))
       \<lparr>inst = ins, mstate = ms, env = ev\<rparr>"

definition exported_call :: "'g wasmtime_context \<Rightarrow> (i32 \<Rightarrow> i32 \<Rightarrow> i32 \<Rightarrow> ('g, i32) guest_prog) option" where
  "exported_call wc = get_func_3_1 (wc_module wc) (guest_export_name GuestCall)"

definition polite_context :: "'g wasmtime_context \<Rightarrow> bool" where
  "polite_context wc \<longleftrightarrow>
     (\<forall>f i ol ml. exported_call wc = Some f \<longrightarrow> avoids {GuestResponseReady} (f i ol ml))"

lemma wasmtime_engine_methods [simp]:
  "engine_init (wasmtime_engine api) = default_engine_init"
  "engine_new_context (wasmtime_engine api) = wasmtime_new_context api"
  "engine_replace (wasmtime_engine api) = wasmtime_replace"
  "context_init (wasmtime_engine api) = wasmtime_context_init"
  "context_call (wasmtime_engine api) = wasmtime_call"
  "context_call_async (wasmtime_engine api) = wasmtime_call_async"
  by (simp_all add: wasmtime_engine_def)

lemma wasmtime_call_eq:
  assumes "exported_call wc = Some f"
  shows "wasmtime_call wc i ol ml ms ev =
    obind (run_guest (f i ol ml) \<lparr>inst = wc_inst wc, mstate = ms, env = ev\<rparr>) (\<lambda>(r, c).
      Ret (Inr (case r of Inl t \<Rightarrow> 0 | Inr code \<Rightarrow> code), wc\<lparr>wc_inst := inst c\<rparr>,
           case r of Inl t \<Rightarrow> set_guest_error i t (mstate c) | Inr _ \<Rightarrow> mstate c, env c))"
  using assms
  by (auto simp: wasmtime_call_def exported_call_def Let_def intro!: arg_cong2 [where f = obind]
      split: sum.splits)

lemma call_live_set_guest_error [simp]: "call_live (set_guest_error i t ms) j = call_live ms j"
  by (simp add: set_guest_error_def)

interpretation wasmtime_calls: call_provider "wasmtime_engine api" polite_context
  for api :: "'g wasmtime_api"
proof
  fix wc :: "'g wasmtime_context" and ms ms' :: "'w module_state" and ev ev' i ol ml code wc'
  assume polite: "polite_context wc" and live: "call_live ms i"
    and run: "context_call (wasmtime_engine api) wc i ol ml ms ev = Ret (Inr code, wc', ms', ev')"
  obtain f where f: "exported_call wc = Some f"
    using run by (cases "exported_call wc") (auto simp: wasmtime_call_def exported_call_def)
  obtain r c where c: "run_guest (f i ol ml) \<lparr>inst = wc_inst wc, mstate = ms, env = ev\<rparr> = Ret (r, c)"
    and ms': "ms' = (case r of Inl t \<Rightarrow> set_guest_error i t (mstate c) | Inr _ \<Rightarrow> mstate c)"
    using run by (auto simp: wasmtime_call_eq [OF f] obind_eq_Ret_iff)
  have "avoids {GuestResponseReady} (f i ol ml)"
    using polite f by (simp add: polite_context_def)
  from keeps_call.run_keeps [OF this _ c, of i] live have "call_live (mstate c) i"
    by simp
  then show "call_live ms' i"
    by (cases r) (simp_all add: ms')
qed

text \<open>What a call makes of a finished run of the guest: it panics when the guest has made the call
  disappear from the table, even when the guest trapped afterwards.\<close>

definition reply_of_run :: "i32 \<Rightarrow> string + i32 \<Rightarrow> 'w module_state \<Rightarrow> (wapc_error + bytes) outcome" where
  "reply_of_run i r ms =
     (case calls ms i of
        None \<Rightarrow> Panic Unwrap_None
      | Some st \<Rightarrow> Ret (case r of Inl t \<Rightarrow> Inl (GuestCallFailure t) | Inr code \<Rightarrow> sync_result code st))"

lemma WapcCallContext_call_wasmtime:
  assumes "exported_call (wcc_context cc) = Some f"
    and "new_invocation (Invocation_new op payload) ms = (i, rx, ms1)"
    and "guest_run f (wc_inst (wcc_context cc)) i op payload ms1 ev = Ret (r, c)"
  shows "\<exists>cc' ms'. WapcCallContext_call (wasmtime_engine api) cc op payload ms ev =
    obind (reply_of_run i r (mstate c)) (\<lambda>reply. Ret (reply, cc', ms', env c))
    \<and> \<not> call_live ms' i"
proof (cases r)
  case (Inl t)
  then show ?thesis
    using assms
    by (auto simp: WapcCallContext_call_def Invocation_new_def Let_def wasmtime_call_eq guest_run_def
        take_state_def reply_of_run_def set_guest_error_def update_call_def sync_result_def
        failure_of_def call_live_def split: option.splits)
next
  case (Inr code)
  then show ?thesis
    using assms
    by (auto simp: WapcCallContext_call_def Invocation_new_def Let_def wasmtime_call_eq guest_run_def
        take_state_def reply_of_run_def call_live_def split: option.splits)
qed

lemma new_invocation_live:
  "new_invocation iv ms = (i, rx, ms1) \<Longrightarrow> call_live ms1 i"
  by (auto simp: new_invocation_def next_call_index_def oneshot_channel_def call_live_def)

lemma polite_run_live:
  assumes "polite_context wc" and "exported_call wc = Some f" and "call_live ms i"
    and "guest_run f (wc_inst wc) i op payload ms ev = Ret (r, c)"
  shows "call_live (mstate c) i"
proof -
  have "avoids {GuestResponseReady} (f i (i32_of_len (length op)) (i32_of_len (length payload)))"
    using assms(1,2) by (simp add: polite_context_def)
  then show ?thesis
    using assms(3) keeps_call.run_keeps [OF _ _ assms(4) [unfolded guest_run_def], of i] by simp
qed

text \<open>C3: a call of a guest that leaves \<open>__guest_call_response_ready\<close> to asynchronous calls returns
  whenever the run of the guest does, and its reply is the text of the guest's trap, or what the
  return code and the final state of the call say.\<close>

theorem polite_call_result:
  assumes polite: "polite_context (wcc_context cc)" and f: "exported_call (wcc_context cc) = Some f"
    and ni: "new_invocation (Invocation_new op payload) ms = (i, rx, ms1)"
  shows "(returns (WapcCallContext_call (wasmtime_engine api) cc op payload ms ev) \<longleftrightarrow>
            returns (guest_run f (wc_inst (wcc_context cc)) i op payload ms1 ev))
    \<and> (\<forall>r c. guest_run f (wc_inst (wcc_context cc)) i op payload ms1 ev = Ret (r, c) \<longrightarrow>
         (\<exists>st cc' ms'. calls (mstate c) i = Some st \<and> \<not> call_live ms' i
            \<and> WapcCallContext_call (wasmtime_engine api) cc op payload ms ev =
                Ret (case r of Inl t \<Rightarrow> Inl (GuestCallFailure t) | Inr code \<Rightarrow> sync_result code st,
                     cc', ms', env c)))"
proof (intro conjI allI impI)
  show "returns (WapcCallContext_call (wasmtime_engine api) cc op payload ms ev) \<longleftrightarrow>
      returns (guest_run f (wc_inst (wcc_context cc)) i op payload ms1 ev)"
    using wasmtime_calls.call_returns_iff [OF polite ni]
    by (auto simp: wasmtime_call_eq [OF f] guest_run_def returns_iff obind_eq_Ret_iff)
next
  fix r and c :: "('a, 'b) cx"
  assume run: "guest_run f (wc_inst (wcc_context cc)) i op payload ms1 ev = Ret (r, c)"
  have "call_live (mstate c) i"
    using polite_run_live [OF polite f new_invocation_live [OF ni] run] .
  then obtain st where st: "calls (mstate c) i = Some st"
    by (auto simp: call_live_def)
  show "\<exists>st cc' ms'. calls (mstate c) i = Some st \<and> \<not> call_live ms' i
      \<and> WapcCallContext_call (wasmtime_engine api) cc op payload ms ev =
          Ret (case r of Inl t \<Rightarrow> Inl (GuestCallFailure t) | Inr code \<Rightarrow> sync_result code st,
               cc', ms', env c)"
    using WapcCallContext_call_wasmtime [OF f ni run, of api] st
    by (auto simp: reply_of_run_def)
qed

text \<open>A guest program that traps, one that answers through the host functions, and one that ends its
  call itself.\<close>

definition rude_module :: "unit wasm_module" where
  "rude_module =
     \<lparr>m_imports = [],
      m_exports = [''__guest_call'' \<mapsto> Export_3_1 (\<lambda>i _ _.
          GCall GuestResponseReady [i, 1] (\<lambda>_. GRet 1))],
      m_instance = \<lparr>wmem = Some sample_mem, wstate = ()\<rparr>,
      m_start = None\<rparr>"

definition answering_module :: "unit wasm_module" where
  "answering_module = rude_module
     \<lparr>m_exports := [''__guest_call'' \<mapsto> Export_3_1 (\<lambda>i _ _.
          GCall GuestResponse [i, 4, 2] (\<lambda>_. GRet 1))]\<rparr>"

definition sample_api :: "unit wasmtime_api" where
  "sample_api =
     \<lparr>module_new = (\<lambda>_. Inr answering_module), init_wasi = (\<lambda>_. Inr ()), wasi_linker = Map.empty,
      msg_defined_twice = (\<lambda>_. ''import defined twice''), msg_bad_import = (\<lambda>_. ''unknown import'')\<rparr>"

definition context_of :: "unit wasm_module \<Rightarrow> unit wasmtime_context wapc_call_context" where
  "context_of m = \<lparr>wcc_context = \<lparr>wc_module = m, wc_inst = m_instance m\<rparr>, wcc_id = 1\<rparr>"

lemma sample_new_invocation:
  "new_invocation (Invocation_new ''echo'' [1, 2, 3]) (ModuleState_new None None 1) = (1, 0, sample_state)"
  by (simp add: sample_defs)

lemma read_sample_mem: "get_vec_from_memory sample_mem 4 2 = Ret [0, 0]"
  by (simp add: get_vec_eq block_def) (simp add: sample_mem_def numeral_eq_Suc)

theorem polite_call_result_witness:
  "\<exists>cc' ms'. WapcCallContext_call (wasmtime_engine sample_api) (context_of answering_module) ''echo'' [1, 2, 3]
       (ModuleState_new None None 1) sample_env = Ret (Inr [0, 0], cc', ms', sample_env)"
proof -
  let ?cc = "context_of answering_module"
  let ?f = "\<lambda>i _ _. GCall GuestResponse [i, 4, 2] (\<lambda>_. GRet 1)"
  have f: "exported_call (wcc_context ?cc) = Some ?f"
    by (simp add: exported_call_def context_of_def answering_module_def get_func_3_1_def guest_name_defs)
  then have polite: "polite_context (wcc_context ?cc)"
    by (simp add: polite_context_def)
  have run: "guest_run ?f (wc_inst (wcc_context ?cc)) 1 ''echo'' [1, 2, 3] sample_state sample_env =
      Ret (Inr 1, \<lparr>inst = \<lparr>wmem = Some sample_mem, wstate = ()\<rparr>,
                   mstate = set_guest_response 1 [0, 0] sample_state, env = sample_env\<rparr>)"
    by (simp add: guest_run_def context_of_def answering_module_def rude_module_def
        linker_guest_response_def with_params_def get_caller_memory_def read_sample_mem)
  have answer: "sync_result 1 st = Inr [0, 0]"
    if "calls (set_guest_response 1 [0, 0] sample_state) 1 = Some st" for st
    using that by (auto simp: sync_result_def success_of_def sample_defs)
  show ?thesis
    using polite_call_result [OF polite f sample_new_invocation, of sample_api sample_env,
        THEN conjunct2, rule_format, OF run] answer
    by auto
qed


text \<open>What a host function does to the counter of ids and to the liveness of a call.\<close>

abbreviation host_call_exports :: "host_exports set" where
  "host_call_exports \<equiv> {HostCall, AsyncHostCall}"






definition host_calls_in :: "(host_exports \<times> i32 list) list \<Rightarrow> nat" where
  "host_calls_in tr = length (filter (\<lambda>(e, ps). e \<in> host_call_exports) tr)"

definition finishes :: "i32 \<Rightarrow> (host_exports \<times> i32 list) list \<Rightarrow> bool" where
  "finishes i tr \<longleftrightarrow> (\<exists>(e, ps) \<in> set tr. e = GuestResponseReady \<and> ps ! 0 = i)"

lemma trace_simps [simp]:
  "host_calls_in [] = 0"
  "host_calls_in ((e, ps) # tr) = (if e \<in> host_call_exports then 1 else 0) + host_calls_in tr"
  "\<not> finishes i []"
  "finishes i ((e, ps) # tr) \<longleftrightarrow> e = GuestResponseReady \<and> ps ! 0 = i \<or> finishes i tr"
  by (auto simp: host_calls_in_def finishes_def)








subsection \<open>The runtime a context needs\<close>

lemma linker_fn_in_runtime:
  assumes "linker_fn e ps c = Ret (r, c')"
  shows "in_runtime (env c') = in_runtime (env c)"
  using assms
  by (cases e)
     (auto simp: linker_console_log_def linker_guest_request_def linker_host_call_def
        linker_async_host_call_def linker_host_response_def linker_host_response_len_def
        linker_guest_response_ready_def linker_guest_response_def linker_guest_error_def
        linker_host_error_def linker_host_error_len_def with_params_def do_console_log_def
        obind_eq_Ret_iff Let_def set_caller_memory_def split: if_splits option.splits)

interpretation keeps_runtime: import_invariant "{}" "\<lambda>c :: ('g, 'w) cx. in_runtime (env c) = b" for b
  by unfold_locales (simp_all add: linker_fn_in_runtime)

lemma avoids_nothing [simp]: "avoids {} p"
  by (induction p) auto

lemma instantiate_in_runtime:
  assumes "instantiate api l m ms ev = Ret (r, ms', ev')"
  shows "in_runtime ev' = in_runtime ev"
proof (cases "m_start m")
  case None
  then show ?thesis
    using assms by (auto simp: instantiate_def split: if_splits)
next
  case (Some p)
  then show ?thesis
    using assms keeps_runtime.run_keeps [of p "\<lparr>inst = m_instance m, mstate = ms, env = ev\<rparr>" "in_runtime ev"]
    by (auto simp: instantiate_def obind_eq_Ret_iff split: if_splits)
qed

lemma context_needs_runtime:
  assumes "\<not> in_runtime ev"
  shows "WasmtimeCallContext_new api l m ms ev \<noteq> Ret (Inr wc, ms', ev')"
  using assms instantiate_in_runtime [of api _ m ms ev]
  by (auto simp: WasmtimeCallContext_new_def outcome_inversion split: if_splits)

text \<open>C23: outside a Tokio runtime no call on a wasmtime engine reaches the guest's handler: a call
  that returns at all reports a context error, since a context that can be set up panics when it
  spawns its task.\<close>

theorem no_call_outside_runtime:
  assumes "\<not> in_runtime ev" and "WapcHost_call (wasmtime_engine api) h op payload ev = Ret (r, ev')"
  shows "\<exists>m. r = Inl (Context m)"
  using assms
  by (auto simp: WapcHost_call_def wasmtime_new_context_def context_needs_runtime
      outcome_inversion Let_def)

definition sample_host :: "unit wasm_module \<Rightarrow> (unit wasmtime_provider, nat) wapc_host" where
  "sample_host m =
     \<lparr>engine = \<lparr>wp_module = m, wp_linker = Map.empty, wp_wasi_params = None\<rparr>,
      host_async_hostcall = None, host_sync_hostcall = None, host_id = 1\<rparr>"

lemma add_to_linker_empty: "add_to_linker api Map.empty = Inr (linked_with UNIV Map.empty)"
proof -
  have "first_taken Map.empty = None"
    by (simp add: first_taken_def taken_def find_None_iff)
  then show ?thesis
    by (simp add: add_to_linker_eq)
qed

theorem no_call_outside_runtime_witness:
  "WapcHost_call (wasmtime_engine sample_api) (sample_host answering_module) ''echo'' []
      (sample_env\<lparr>in_runtime := False\<rparr>)
    = Ret (Inl (Context ''Host response ready function (__host_response_ready) not exported by wasm module.''),
           sample_env\<lparr>in_runtime := False\<rparr>)"
proof -
  let ?ev = "sample_env\<lparr>in_runtime := False\<rparr>"
  have r: "WapcHost_call (wasmtime_engine sample_api) (sample_host answering_module) ''echo'' [] ?ev
      = Ret (Inl (Context (provider_error_to_string HostResponseReadyNotFound)), ?ev)"
    by (simp add: WapcHost_call_def sample_host_def wasmtime_new_context_def new_store_def
        sample_api_def [THEN arg_cong [where f = init_wasi]]
        WasmtimeCallContext_new_def add_to_linker_empty instantiate_def answering_module_def rude_module_def
        get_func_2_0_def guest_name_defs)
  have "\<not> in_runtime ?ev"
    by simp
  from no_call_outside_runtime [OF this r] r show ?thesis
    by simp
qed

subsection \<open>Initialisation\<close>

text \<open>The program an initialisation runs: each start function the module exports, in order.\<close>

primrec starters_prog :: "'g wasm_module \<Rightarrow> string list \<Rightarrow> ('g, unit) guest_prog" where
  "starters_prog m [] = GRet ()"
| "starters_prog m (s # ss) =
     gbind (case get_func_0_0 m s of None \<Rightarrow> GRet () | Some p \<Rightarrow> p) (\<lambda>_. starters_prog m ss)"

lemma run_starters_eq:
  "run_starters ss wc ms ev =
     obind (run_guest (starters_prog (wc_module wc) ss) \<lparr>inst = wc_inst wc, mstate = ms, env = ev\<rparr>)
       (\<lambda>(r, c). Ret (map_err (\<lambda>t. provider_error_to_string (InitializationFailed t)) r,
                      wc\<lparr>wc_inst := inst c\<rparr>, mstate c, env c))"
proof (induction ss arbitrary: wc ms ev)
  case (Cons s ss)
  show ?case
  proof (cases "get_func_0_0 (wc_module wc) s")
    case None
    then show ?thesis
      using Cons by simp
  next
    case (Some p)
    have eta: "(\<lparr>inst = inst c, mstate = mstate c, env = env c\<rparr> :: ('a, 'b) cx) = c" for c
      by simp
    show ?thesis
      using Some Cons
      by (cases "run_guest p \<lparr>inst = wc_inst wc, mstate = ms, env = ev\<rparr>")
         (auto simp: run_guest_gbind Let_def eta simp del: provider_error_to_string.simps
           split: sum.splits)
  qed
qed simp

text \<open>Initialising a context runs \<open>_start\<close> and then \<open>wapc_init\<close> on the context's one instance,
  skipping the ones the module does not export; the first that traps ends the initialisation with
  its text, and the ones after it do not run.\<close>

theorem context_init_runs_starters:
  "wasmtime_context_init wc ms ev =
     obind (run_guest (gbind (case get_func_0_0 (wc_module wc) ''_start'' of None \<Rightarrow> GRet () | Some p \<Rightarrow> p)
              (\<lambda>_. case get_func_0_0 (wc_module wc) ''wapc_init'' of None \<Rightarrow> GRet () | Some p \<Rightarrow> p))
            \<lparr>inst = wc_inst wc, mstate = ms, env = ev\<rparr>)
       (\<lambda>(r, c). Ret (map_err (\<lambda>t. ''Initialization failed: '' @ t) r,
                      wc\<lparr>wc_inst := inst c\<rparr>, mstate c, env c))"
  by (simp add: wasmtime_context_init_def run_starters_eq REQUIRED_STARTS_def TINYGO_START_def
      WAPC_INIT_def)

subsection \<open>Asynchronous calls whose guest traps\<close>

definition exported_async_call ::
    "'g wasmtime_context \<Rightarrow> (i32 \<Rightarrow> i32 \<Rightarrow> i32 \<Rightarrow> ('g, unit) guest_prog) option" where
  "exported_async_call wc = get_func_3_0 (wc_module wc) (guest_export_name AsyncGuestCall)"

lemma oneshots_set_guest_error: "oneshots (set_guest_error i t ms) = oneshots ms"
  by (simp add: set_guest_error_def)

lemma Invocation_new_simps [simp]:
  "operation (Invocation_new op payload) = op"
  "msg (Invocation_new op payload) = payload"
  by (simp_all add: Invocation_new_def)

lemma complete_with_error:
  assumes wf: "ms_wf ms" and held: "holds_sender ms i rx"
  shows "\<exists>ms'. set_guest_call_complete i 0 [] (set_guest_error i t ms) = Ret ms'
    \<and> async_result (oneshots ms' ! rx) = Some (Inl (GuestCallFailure t))"
proof -
  obtain c where c: "calls ms i = Some c" "channel c = Some rx"
    using held by (auto simp: holds_sender_def)
  let ?ms = "update_call i (\<lambda>c. c\<lparr>guest_response := Some []\<rparr>) (set_guest_error i t ms)"
  let ?c = "c\<lparr>guest_error := Some t, guest_response := Some []\<rparr>"
  have c': "calls ?ms i = Some ?c"
    using c by (simp add: calls_update_call set_guest_error_def)
  have pending: "rx < length (oneshots (remove_call i ?ms))" "oneshots (remove_call i ?ms) ! rx = Pending"
    using wf held by (auto simp: ms_wf_def senders_pending_def set_guest_error_def remove_call_def)
  have "async_result (Sent (Complete (?c\<lparr>channel := None\<rparr>))) = Some (Inl (GuestCallFailure t))"
    by (simp add: async_result_def failure_of_def)
  then show ?thesis
    using c pending(1) oneshots_resolve [OF pending]
    by (simp add: set_guest_call_complete_def finish_guest_invocation_live [OF c'] oneshots_set_guest_error)
qed

lemma complete_gone:
  "\<not> call_live ms i \<Longrightarrow> set_guest_call_complete i 0 [] (set_guest_error i t ms) = Ret ms"
  by (simp add: set_guest_call_complete_def set_guest_error_def update_call_dead finish_absent
      call_live_def)

text \<open>When the guest traps in an asynchronous call that has not been answered, the call is
  finished for it and the reply is the text of the trap; when the guest had already finished the
  call, the trap changes nothing of the reply.\<close>

theorem async_trap_reply:
  assumes f: "exported_async_call (wcc_context cc) = Some f" and wf: "ms_wf ms"
    and ni: "new_invocation (Invocation_new op payload) ms = (i, rx, ms1)"
    and run: "guest_run f (wc_inst (wcc_context cc)) i op payload ms1 ev = Ret (Inl t, c)"
    and still: "holds_sender (mstate c) i rx \<or> \<not> call_live (mstate c) i"
  shows "\<exists>cc' ms'. call_async_run (wasmtime_engine api) cc op payload ms ev = Ret (Inr rx, cc', ms', env c)
    \<and> (if call_live (mstate c) i
        then call_async_reply (oneshots ms' ! rx) = Some (Inl (GuestCallFailure (''Guest call failure: '' @ t)))
        else oneshots ms' ! rx = oneshots (mstate c) ! rx)"
proof -
  have call: "wasmtime_call_async (wcc_context cc) i (i32_of_len (length op))
      (i32_of_len (length payload)) ms1 ev =
    obind (set_guest_call_complete i 0 [] (set_guest_error i t (mstate c))) (\<lambda>ms'.
      Ret (Inr 0, (wcc_context cc)\<lparr>wc_inst := inst c\<rparr>, ms', env c))"
    using f run by (simp add: wasmtime_call_async_def exported_async_call_def guest_run_def)
  have "ms_wf ms1"
    using ms_wf_new_invocation [OF wf, of "Invocation_new op payload"] ni by simp
  then have wf': "ms_wf (mstate c)"
    using keeps_wf.run_keeps [OF avoids_nothing _ run [unfolded guest_run_def]] by simp
  show ?thesis
  proof (cases "call_live (mstate c) i")
    case True
    with still obtain ms' where "set_guest_call_complete i 0 [] (set_guest_error i t (mstate c)) = Ret ms'"
      and "async_result (oneshots ms' ! rx) = Some (Inl (GuestCallFailure t))"
      using complete_with_error [OF wf'] by blast
    with True show ?thesis
      by (simp add: call_async_run_def WapcCallContext_call_async_def Let_def ni call
          call_async_reply_def wrap_call_error_def)
  next
    case False
    then show ?thesis
      by (simp add: call_async_run_def WapcCallContext_call_async_def Let_def ni call complete_gone)
  qed
qed

definition trapping_async_module :: "unit wasm_module" where
  "trapping_async_module = rude_module
     \<lparr>m_exports := [''__async_guest_call'' \<mapsto> Export_3_0 (\<lambda>_ _ _. GTrap ''unreachable'')]\<rparr>"

theorem async_trap_reply_witness:
  "\<exists>cc' ms'. call_async_run (wasmtime_engine sample_api) (context_of trapping_async_module) ''echo'' [1, 2, 3]
      (ModuleState_new None None 1) sample_env = Ret (Inr 0, cc', ms', sample_env)
    \<and> call_async_reply (oneshots ms' ! 0)
        = Some (Inl (GuestCallFailure ''Guest call failure: unreachable''))"
proof -
  let ?cc = "context_of trapping_async_module"
  let ?f = "\<lambda>_ _ _. GTrap ''unreachable'' :: (unit, unit) guest_prog"
  let ?c = "\<lparr>inst = wc_inst (wcc_context ?cc), mstate = sample_state, env = sample_env\<rparr>"
  have f: "exported_async_call (wcc_context ?cc) = Some ?f"
    by (simp add: exported_async_call_def context_of_def trapping_async_module_def get_func_3_0_def
        guest_name_defs)
  have run: "guest_run ?f (wc_inst (wcc_context ?cc)) 1 ''echo'' [1, 2, 3] sample_state sample_env
      = Ret (Inl ''unreachable'', ?c)"
    by (simp add: guest_run_def)
  have held: "holds_sender (mstate ?c) 1 0" and live: "call_live (mstate ?c) 1"
    by (simp_all add: holds_sender_def call_live_def) (simp_all add: sample_defs)
  have still: "holds_sender (mstate ?c) 1 0 \<or> \<not> call_live (mstate ?c) 1"
    using held ..
  show ?thesis
    using async_trap_reply [OF f ms_wf_new sample_new_invocation run still, of sample_api] live by auto
qed

end
