(* ===== verification/Call_Isolation.thy ===== *)
theory Call_Isolation
  imports Host_Calls
begin

text \<open>
  What a call can learn from the calls before it. Every call of a host gets a module state and an
  instance of its own, so what is left of the earlier calls is in the environment: the embedder's world,
  what was printed, the tasks on the runtime and the global counters. Two runs of the same call in two
  environments are compared step by step; of the host functions only \<open>__host_call\<close> reads the
  environment beyond the runtime flag, through the embedder's callback.
  The open directories, which also outlive a call, are added in \<open>Wasi_Context\<close>.
\<close>

subsection \<open>Two runs side by side\<close>

abbreviation same_result :: "('a \<Rightarrow> 'b \<Rightarrow> bool) \<Rightarrow> ('r \<times> 'a) outcome \<Rightarrow> ('r \<times> 'b) outcome \<Rightarrow> bool" where
  "same_result R \<equiv> rel_outcome (rel_prod (=) R)"

lemma rel_outcome_obind:
  assumes "rel_outcome A m n" and "\<And>x y. A x y \<Longrightarrow> rel_outcome B (f x) (g y)"
  shows "rel_outcome B (obind m f) (obind n g)"
  using assms by (cases m; cases n) auto

lemma rel_outcome_obind_strong:
  assumes "rel_outcome A m n" and "\<And>x y. m = Ret x \<Longrightarrow> A x y \<Longrightarrow> rel_outcome B (f x) (g y)"
  shows "rel_outcome B (obind m f) (obind n g)"
  using assms by (cases m; cases n) auto

lemma rel_outcome_obind_same:
  assumes "\<And>x. m = Ret x \<Longrightarrow> rel_outcome B (f x) (g x)"
  shows "rel_outcome B (obind m f) (obind m g)"
  using assms by (cases m) auto

text \<open>A relation between contexts that every host function a guest may call keeps, answering the same
  on both sides, is kept by the guest, which ends the same way on both sides.\<close>

locale import_relation =
  fixes E :: "host_exports set"
    and R :: "('g, 'w) cx \<Rightarrow> ('g, 'w) cx \<Rightarrow> bool"
  assumes rel_import: "e \<notin> E \<Longrightarrow> R c d \<Longrightarrow> same_result R (linker_fn e ps c) (linker_fn e ps d)"
    and rel_inst: "R c d \<Longrightarrow> inst c = inst d"
    and rel_mstate: "R c d \<Longrightarrow> mstate c = mstate d"
    and rel_runtime: "R c d \<Longrightarrow> in_runtime (env c) = in_runtime (env d)"
    and rel_put: "R c d \<Longrightarrow> R (c\<lparr>inst := i\<rparr>) (d\<lparr>inst := i\<rparr>)"
    and rel_state: "R c d \<Longrightarrow> sync_hostcall ms = sync_hostcall (mstate c) \<Longrightarrow>
      R (c\<lparr>mstate := ms\<rparr>) (d\<lparr>mstate := ms\<rparr>)"
    and rel_opened: "R c d \<Longrightarrow>
      R (c\<lparr>env := (env c)\<lparr>context_count := k\<rparr>\<rparr>) (d\<lparr>env := (env d)\<lparr>context_count := k'\<rparr>\<rparr>)"
begin

lemma rel_run:
  assumes "avoids E p" and "R c d"
  shows "same_result R (run_guest p c) (run_guest p d)"
  using assms
proof (induction p arbitrary: c d)
  case (GGet k)
  then show ?case
    using rel_inst [OF GGet.prems(2)] by simp
next
  case (GPut i p)
  then show ?case
    using rel_put [of c d i] by simp
next
  case (GCall e ps k)
  show ?case
    unfolding run_guest.simps
    by (rule rel_outcome_obind [OF rel_import]) (use GCall in \<open>auto\<close>)
qed auto

end

subsection \<open>Environments a guest cannot tell apart\<close>

text \<open>Starting from \<open>a0\<close> and \<open>b0\<close>, the same was printed and the same tasks were spawned.\<close>

definition same_effects :: "'w env \<Rightarrow> 'w env \<Rightarrow> 'w env \<Rightarrow> 'w env \<Rightarrow> bool" where
  "same_effects a0 b0 a b \<longleftrightarrow> in_runtime a = in_runtime b \<and> in_runtime a = in_runtime a0
     \<and> (\<exists>ls. stdout a = stdout a0 @ ls \<and> stdout b = stdout b0 @ ls)
     \<and> (\<exists>ts. spawned a = spawned a0 @ ts \<and> spawned b = spawned b0 @ ts)"

lemma same_effects_start: "in_runtime a = in_runtime b \<Longrightarrow> same_effects a b a b"
  by (simp add: same_effects_def)

lemma same_effects_update [simp]:
  "same_effects a0 b0 a b \<Longrightarrow> same_effects a0 b0 (a\<lparr>world := w\<rparr>) (b\<lparr>world := w'\<rparr>)"
  "same_effects a0 b0 a b \<Longrightarrow> same_effects a0 b0 (a\<lparr>context_count := k\<rparr>) (b\<lparr>context_count := k'\<rparr>)"
  "same_effects a0 b0 a b \<Longrightarrow> same_effects a0 b0 (do_console_log m a) (do_console_log m b)"
  "same_effects a0 b0 a b \<Longrightarrow>
     same_effects a0 b0 (a\<lparr>spawned := spawned a @ [t]\<rparr>) (b\<lparr>spawned := spawned b @ [t]\<rparr>)"
  by (auto simp: same_effects_def do_console_log_def)

text \<open>A callback whose answer does not depend on the embedder's world.\<close>

definition callback_blind :: "'w host_callback option \<Rightarrow> bool" where
  "callback_blind cb \<longleftrightarrow> (\<forall>i bd ns op v w w'.
     map_outcome fst (run_callback cb i bd ns op v w) = map_outcome fst (run_callback cb i bd ns op v w'))"

definition low_eq :: "'w env \<Rightarrow> 'w env \<Rightarrow> ('g, 'w) cx \<Rightarrow> ('g, 'w) cx \<Rightarrow> bool" where
  "low_eq a0 b0 c d \<longleftrightarrow> inst c = inst d \<and> mstate c = mstate d \<and> same_effects a0 b0 (env c) (env d)"


lemma low_eqE:
  assumes "low_eq a0 b0 c d"
  obtains i ms a b where "c = \<lparr>inst = i, mstate = ms, env = a\<rparr>" and "d = \<lparr>inst = i, mstate = ms, env = b\<rparr>"
    and "same_effects a0 b0 a b"
  using assms by (cases c; cases d) (auto simp: low_eq_def)

lemma low_eq_simps [simp]:
  "low_eq a0 b0 \<lparr>inst = i, mstate = ms, env = a\<rparr> \<lparr>inst = i', mstate = ms', env = b\<rparr>
   \<longleftrightarrow> i = i' \<and> ms = ms' \<and> same_effects a0 b0 a b"
  by (simp add: low_eq_def)

lemma host_call_low:
  assumes "callback_blind (sync_hostcall ms)"
  shows "rel_outcome (\<lambda>(x, ms1, w1) (y, ms2, w2). x = y \<and> ms1 = ms2)
           (do_host_call bd ns op v ms w) (do_host_call bd ns op v ms w')"
proof -
  have "map_outcome fst (callback_outcome ms bd ns op v w) = map_outcome fst (callback_outcome ms bd ns op v w')"
    using assms by (simp add: callback_blind_def callback_outcome_def)
  then show ?thesis
    unfolding do_host_call_eq
    by (cases "callback_outcome ms bd ns op v w"; cases "callback_outcome ms bd ns op v w'")
       (auto split: prod.splits)
qed

lemma linker_fn_low:
  assumes low: "low_eq a0 b0 c d" and e: "e \<noteq> HostCall \<or> callback_blind (sync_hostcall (mstate c))"
  shows "same_result (low_eq a0 b0) (linker_fn e ps c) (linker_fn e ps d)"
proof -
  obtain i ms a b where c: "c = \<lparr>inst = i, mstate = ms, env = a\<rparr>"
      and d: "d = \<lparr>inst = i, mstate = ms, env = b\<rparr>" and eff: "same_effects a0 b0 a b"
    using low by (rule low_eqE)
  have rt: "in_runtime a = in_runtime b"
    using eff by (simp add: same_effects_def)
  show ?thesis
  proof (cases e)
    case HostCall
    then have blind: "callback_blind (sync_hostcall ms)"
      using e c by simp
    show ?thesis
      using eff
      by (auto simp: HostCall c d linker_host_call_def with_params_def get_caller_memory_def Let_def
          intro!: rel_outcome_obind_same rel_outcome_obind [OF host_call_low [OF blind]])
  next
    case AsyncHostCall
    show ?thesis
      using eff rt
      by (auto simp: AsyncHostCall c d linker_async_host_call_def with_params_def get_caller_memory_def Let_def
          intro!: rel_outcome_obind_same)
  qed (use eff in \<open>auto simp: c d linker_console_log_def linker_guest_request_def linker_host_response_def
        linker_host_response_len_def linker_guest_response_ready_def linker_guest_response_def
        linker_guest_error_def linker_host_error_def linker_host_error_len_def with_params_def
        get_caller_memory_def set_caller_memory_def Let_def
        intro!: rel_outcome_obind_same split: option.splits\<close>)
qed

lemma sync_hostcall_linker_fn:
  assumes "linker_fn e ps c = Ret (r, c')"
  shows "sync_hostcall (mstate c') = sync_hostcall (mstate c)"
proof -
  have rec: "sync_hostcall (snd (record_host_result i v ms)) = sync_hostcall ms" for i v and ms :: "'b module_state"
    by (cases v) (simp_all add: record_host_result_def)
  have fin: "sync_hostcall ms' = sync_hostcall ms" if "finish_guest_invocation i k ms = Ret ms'"
    for i k and ms ms' :: "'b module_state"
    using that by (auto simp: finish_guest_invocation_def Let_def obind_eq_Ret_iff oneshot_send_def
        split: option.splits)
  have host: "sync_hostcall ms' = sync_hostcall ms" if "do_host_call bd ns op v ms w = Ret (x, ms', w')"
    for bd ns op v x w w' and ms ms' :: "'b module_state"
    using that by (auto simp: do_host_call_eq obind_eq_Ret_iff rec next_call_index_def init_host_call_def)
  have async: "sync_hostcall ms' = sync_hostcall ms" if "do_async_host_call bd ns op v rt ms = Ret (x, t, ms')"
    for bd ns op v x rt t and ms ms' :: "'b module_state"
    using that
    by (auto simp: do_async_host_call_def Let_def next_call_index_def init_host_call_def split: if_splits)
  show ?thesis
    using linker_fn_mstate [OF assms]
    by (auto simp: set_guest_response_def set_guest_error_def dest: fin host async)
qed

definition blind_eq :: "'w env \<Rightarrow> 'w env \<Rightarrow> ('g, 'w) cx \<Rightarrow> ('g, 'w) cx \<Rightarrow> bool" where
  "blind_eq a0 b0 c d \<longleftrightarrow> low_eq a0 b0 c d \<and> callback_blind (sync_hostcall (mstate c))"

lemma same_result_strengthen:
  assumes "same_result R m n" and "\<And>r c d. m = Ret (r, c) \<Longrightarrow> R c d \<Longrightarrow> Q c d"
  shows "same_result Q m n"
  using assms by (cases m; cases n) auto

interpretation no_host_call: import_relation "{HostCall}" "low_eq a0 b0 :: ('g, 'w) cx \<Rightarrow> ('g, 'w) cx \<Rightarrow> bool"
  for a0 b0 :: "'w env"
  by unfold_locales (auto simp: low_eq_def same_effects_def intro: linker_fn_low)

interpretation blind_callback: import_relation "{}" "blind_eq a0 b0 :: ('g, 'w) cx \<Rightarrow> ('g, 'w) cx \<Rightarrow> bool"
  for a0 b0 :: "'w env"
proof
  fix e ps and c d :: "('g, 'w) cx"
  assume "blind_eq a0 b0 c d"
  then have low: "low_eq a0 b0 c d" and blind: "callback_blind (sync_hostcall (mstate c))"
    by (simp_all add: blind_eq_def)
  show "same_result (blind_eq a0 b0) (linker_fn e ps c) (linker_fn e ps d)"
    by (rule same_result_strengthen [OF linker_fn_low [OF low]])
       (use blind sync_hostcall_linker_fn [of e ps c] in \<open>auto simp: blind_eq_def\<close>)
qed (auto simp: blind_eq_def low_eq_def same_effects_def)

subsection \<open>The engine and the host\<close>

text \<open>A module none of whose functions calls a host function of \<open>E\<close>.\<close>

definition export_avoids :: "host_exports set \<Rightarrow> 'g wasm_export \<Rightarrow> bool" where
  "export_avoids E x = (case x of
     Export_0_0 p \<Rightarrow> avoids E p
   | Export_2_0 f \<Rightarrow> (\<forall>a b. avoids E (f a b))
   | Export_3_0 f \<Rightarrow> (\<forall>a b c. avoids E (f a b c))
   | Export_3_1 f \<Rightarrow> (\<forall>a b c. avoids E (f a b c))
   | Export_Other ty \<Rightarrow> True)"

definition module_avoids :: "host_exports set \<Rightarrow> 'g wasm_module \<Rightarrow> bool" where
  "module_avoids E m \<longleftrightarrow> (\<forall>p. m_start m = Some p \<longrightarrow> avoids E p)
     \<and> (\<forall>n x. m_exports m n = Some x \<longrightarrow> export_avoids E x)"

lemma module_avoids_nothing [simp]: "module_avoids {} m"
  by (simp add: module_avoids_def export_avoids_def split: wasm_export.splits)

lemma module_avoidsD:
  assumes "module_avoids E m"
  shows "m_start m = Some p \<Longrightarrow> avoids E p"
    and "get_func_0_0 m n = Some p \<Longrightarrow> avoids E p"
    and "get_func_3_0 m n = Some f \<Longrightarrow> avoids E (f i ol ml)"
    and "get_func_3_1 m n = Some g \<Longrightarrow> avoids E (g i ol ml)"
  using assms
  by (auto simp: module_avoids_def export_avoids_def get_func_0_0_def get_func_3_0_def get_func_3_1_def
      split: option.splits wasm_export.splits dest: spec)

context import_relation
begin

text \<open>Module states and environments on which contexts are related, whatever their instance.\<close>

abbreviation rel_env :: "'w module_state \<Rightarrow> 'w env \<Rightarrow> 'w env \<Rightarrow> bool" where
  "rel_env ms a b \<equiv> \<forall>i. R \<lparr>inst = i, mstate = ms, env = a\<rparr> \<lparr>inst = i, mstate = ms, env = b\<rparr>"

lemma rel_env_of: "R c d \<Longrightarrow> rel_env (mstate c) (env c) (env d)"
  using rel_put [of c d] rel_mstate [of c d] by (cases c; cases d) auto

lemma rel_env_runtime: "rel_env ms a b \<Longrightarrow> in_runtime a = in_runtime b"
  using rel_runtime [of "\<lparr>inst = undefined, mstate = ms, env = a\<rparr>" "\<lparr>inst = undefined, mstate = ms, env = b\<rparr>"]
  by auto

lemma rel_env_state: "rel_env ms a b \<Longrightarrow> sync_hostcall ms' = sync_hostcall ms \<Longrightarrow> rel_env ms' a b"
  using rel_state [of "\<lparr>inst = i, mstate = ms, env = a\<rparr>" "\<lparr>inst = i, mstate = ms, env = b\<rparr>" ms' for i]
  by auto

lemma rel_env_opened:
  "rel_env ms a b \<Longrightarrow> rel_env ms (a\<lparr>context_count := k\<rparr>) (b\<lparr>context_count := k'\<rparr>)"
  using rel_opened [of "\<lparr>inst = i, mstate = ms, env = a\<rparr>" "\<lparr>inst = i, mstate = ms, env = b\<rparr>" k k' for i]
  by auto

abbreviation rel_reply ::
    "('r \<times> 'w module_state \<times> 'w env) outcome \<Rightarrow> ('r \<times> 'w module_state \<times> 'w env) outcome \<Rightarrow> bool" where
  "rel_reply \<equiv> rel_outcome (\<lambda>(r, ms, a) (r', ms', b). r = r' \<and> ms = ms' \<and> rel_env ms a b)"

lemma rel_run_from:
  fixes p :: "('g, 'r) guest_prog"
  assumes "avoids E p" and "rel_env ms a b"
    and "\<And>r i ms a b. rel_env ms a b \<Longrightarrow>
      rel_outcome B (f (r, \<lparr>inst = i, mstate = ms, env = a\<rparr>)) (g (r, \<lparr>inst = i, mstate = ms, env = b\<rparr>))"
  shows "rel_outcome B (obind (run_guest p \<lparr>inst = i, mstate = ms, env = a\<rparr>) f)
                       (obind (run_guest p \<lparr>inst = i, mstate = ms, env = b\<rparr>) g)"
proof (rule rel_outcome_obind [OF rel_run [OF assms(1)]])
  show "R \<lparr>inst = i, mstate = ms, env = a\<rparr> \<lparr>inst = i, mstate = ms, env = b\<rparr>"
    using assms(2) by blast
next
  fix x y :: "(string + 'r) \<times> ('g, 'w) cx"
  assume "rel_prod (=) R x y"
  then obtain r c d where xy: "x = (r, c)" "y = (r, d)" and rel: "R c d"
    by (cases x; cases y) auto
  have "c = \<lparr>inst = inst c, mstate = mstate c, env = env c\<rparr>" "d = \<lparr>inst = inst c, mstate = mstate c, env = env d\<rparr>"
    using rel_inst [OF rel] rel_mstate [OF rel] by simp_all
  with assms(3) [OF rel_env_of [OF rel], of r "inst c"] show "rel_outcome B (f x) (g y)"
    unfolding xy by metis
qed

lemma rel_instantiate:
  fixes m :: "'g wasm_module"
  assumes "module_avoids E m" and "rel_env ms a b"
  shows "rel_reply (instantiate api l m ms a) (instantiate api l m ms b)"
  using assms(2) module_avoidsD(1) [OF assms(1)]
  by (auto simp: instantiate_def split: option.splits sum.splits intro!: rel_run_from)

lemma rel_new_context:
  fixes p :: "'g wasmtime_provider"
  assumes "module_avoids E (wp_module p)" and "rel_env ms a b"
  shows "rel_reply (wasmtime_new_context api p ms a) (wasmtime_new_context api p ms b)"
proof -
  have "rel_reply (WasmtimeCallContext_new api l (wp_module p) ms a) (WasmtimeCallContext_new api l (wp_module p) ms b)"
    for l
    using assms(2) rel_env_runtime
    by (auto simp: WasmtimeCallContext_new_def split: sum.splits option.splits
        intro!: rel_outcome_obind [OF rel_instantiate [OF assms(1)]])
  then show ?thesis
    using assms(2)
    by (auto simp: wasmtime_new_context_def split: sum.splits
        intro!: rel_outcome_obind)
qed

text \<open>Initialising a context and running a call leave the same context as well.\<close>

abbreviation rel_context_reply ::
    "('r \<times> 'c \<times> 'w module_state \<times> 'w env) outcome \<Rightarrow> ('r \<times> 'c \<times> 'w module_state \<times> 'w env) outcome
     \<Rightarrow> bool" where
  "rel_context_reply \<equiv>
     rel_outcome (\<lambda>(r, x, ms, a) (r', x', ms', b). r = r' \<and> x = x' \<and> ms = ms' \<and> rel_env ms a b)"

lemma rel_starters:
  fixes wc :: "'g wasmtime_context"
  assumes "module_avoids E (wc_module wc)" and "rel_env ms a b"
  shows "rel_context_reply (run_starters ss wc ms a) (run_starters ss wc ms b)"
  using assms
proof (induction ss arbitrary: wc ms a b)
  case (Cons s ss)
  show ?case
  proof (cases "get_func_0_0 (wc_module wc) s")
    case None
    then show ?thesis
      using Cons by simp
  next
    case (Some p)
    then have "avoids E p"
      using Cons.prems(1) by (rule module_avoidsD(2) [rotated])
    then show ?thesis
      using Cons.prems Cons.IH
      by (auto simp: Some Let_def split: sum.splits intro!: rel_run_from)
  qed
qed simp

lemma rel_guest_call:
  fixes wc :: "'g wasmtime_context"
  assumes "module_avoids E (wc_module wc)" and "rel_env ms a b"
  shows "rel_context_reply (wasmtime_call wc i ol ml ms a) (wasmtime_call wc i ol ml ms b)"
proof (cases "get_func_3_1 (wc_module wc) (guest_export_name GuestCall)")
  case None
  then show ?thesis
    using assms(2) by (simp add: wasmtime_call_def)
next
  case (Some f)
  have "rel_env (set_guest_error i t ms) a b" if "rel_env ms a b" for t ms a b
    using that by (rule rel_env_state) (simp add: set_guest_error_def)
  then show ?thesis
    unfolding wasmtime_call_def Some option.case
    using assms(2) module_avoidsD(4) [OF assms(1) Some]
    by (auto simp: Let_def split: sum.splits intro!: rel_run_from)
qed

lemma rel_guest_call_async:
  fixes wc :: "'g wasmtime_context"
  assumes "module_avoids E (wc_module wc)" and "rel_env ms a b"
  shows "rel_context_reply (wasmtime_call_async wc i ol ml ms a) (wasmtime_call_async wc i ol ml ms b)"
proof (cases "get_func_3_0 (wc_module wc) (guest_export_name AsyncGuestCall)")
  case None
  then show ?thesis
    using assms(2) by (simp add: wasmtime_call_async_def)
next
  case (Some f)
  have "sync_hostcall ms' = sync_hostcall ms" if "set_guest_call_complete i 0 [] (set_guest_error i t ms) = Ret ms'"
    for i t and ms ms' :: "'w module_state"
    using that
    by (auto simp: set_guest_call_complete_def finish_guest_invocation_def Let_def obind_eq_Ret_iff
        oneshot_send_def set_guest_error_def split: option.splits)
  then have "rel_env ms' a b" if "rel_env ms a b" "set_guest_call_complete i 0 [] (set_guest_error i t ms) = Ret ms'"
    for i t ms ms' a b
    using that rel_env_state by blast
  then show ?thesis
    unfolding wasmtime_call_async_def Some option.case
    using assms(2) module_avoidsD(3) [OF assms(1) Some]
    by (auto simp: Let_def split: sum.splits intro!: rel_run_from rel_outcome_obind_same)
qed

lemma rel_invocation:
  assumes "rel_env ms a b" and "new_invocation iv ms = (i, rx, ms1)"
  shows "rel_env ms1 a b"
  using assms(1)
  by (rule rel_env_state) (use assms(2) in \<open>auto simp: new_invocation_def next_call_index_def oneshot_channel_def\<close>)

text \<open>The two contexts of a call differ in their id, which nothing reads.\<close>

abbreviation same_but_id :: "wapc_error + 'c wapc_call_context \<Rightarrow> wapc_error + 'c wapc_call_context \<Rightarrow> bool" where
  "same_but_id \<equiv> rel_sum (=) (\<lambda>cc cc'. wcc_context cc = wcc_context cc')"

lemma rel_open:
  fixes wc :: "'g wasmtime_context"
  assumes "module_avoids E (wc_module wc)" and "rel_env ms a b"
  shows "rel_outcome (\<lambda>(r, ms, a) (r', ms', b). same_but_id r r' \<and> ms = ms' \<and> rel_env ms a b)
    (WapcCallContext_new (wasmtime_engine api) wc ms a) (WapcCallContext_new (wasmtime_engine api) wc ms b)"
  unfolding WapcCallContext_new_def Let_def
  by (auto intro!: rel_outcome_obind [OF rel_starters [OF assms(1) rel_env_opened [OF assms(2)]]]
      simp: wasmtime_context_init_def split: sum.splits)

lemma rel_context_call:
  fixes cc cc' :: "'g wasmtime_context wapc_call_context"
  assumes "module_avoids E (wc_module (wcc_context cc))" and "rel_env ms a b"
    and "wcc_context cc = wcc_context cc'"
  shows "rel_outcome (\<lambda>(r, x, ms, a) (r', x', ms', b). r = r' \<and> (\<exists>ms. rel_env ms a b))
    (WapcCallContext_call (wasmtime_engine api) cc op payload ms a)
    (WapcCallContext_call (wasmtime_engine api) cc' op payload ms b)"
proof -
  obtain i rx ms1 where ni: "new_invocation (Invocation_new op payload) ms = (i, rx, ms1)"
    by (cases "new_invocation (Invocation_new op payload) ms")
  show ?thesis
    unfolding WapcCallContext_call_def Let_def ni prod.case wasmtime_engine_methods assms(3) [symmetric]
    by (rule rel_outcome_obind [OF rel_guest_call [OF assms(1) rel_invocation [OF assms(2) ni]]])
       (auto simp: take_state_def split: sum.splits intro!: rel_outcome_obind_same, blast+)
qed

lemma rel_context_call_async:
  fixes cc cc' :: "'g wasmtime_context wapc_call_context"
  assumes "module_avoids E (wc_module (wcc_context cc))" and "rel_env ms a b"
    and "wcc_context cc = wcc_context cc'"
  shows "rel_outcome (\<lambda>(r, x, ms, a) (r', x', ms', b). r = r' \<and> wcc_context x = wcc_context x' \<and> ms = ms' \<and> rel_env ms a b)
    (call_async_run (wasmtime_engine api) cc op payload ms a)
    (call_async_run (wasmtime_engine api) cc' op payload ms b)"
proof -
  obtain i rx ms1 where ni: "new_invocation (Invocation_new op payload) ms = (i, rx, ms1)"
    by (cases "new_invocation (Invocation_new op payload) ms")
  show ?thesis
    unfolding call_async_run_def WapcCallContext_call_async_def Let_def ni prod.case wasmtime_engine_methods
      assms(3) [symmetric] obind_assoc
    by (rule rel_outcome_obind [OF rel_guest_call_async [OF assms(1) rel_invocation [OF assms(2) ni]]])
       (auto split: sum.splits)
qed

end

subsection \<open>A host's calls\<close>

lemma wc_module_starters:
  "run_starters ss wc ms ev = Ret (r, wc', ms', ev') \<Longrightarrow> wc_module wc' = wc_module wc"
  by (induction ss arbitrary: wc ms ev)
     (auto simp: Let_def outcome_inversion split: option.splits sum.splits)

lemma wc_module_new:
  "wasmtime_new_context api p ms ev = Ret (Inr wc, ms', ev') \<Longrightarrow> wc_module wc = wp_module p"
  by (auto simp: wasmtime_new_context_def WasmtimeCallContext_new_def outcome_inversion map_err_def
      split: option.splits sum.splits if_splits)

lemma wc_module_opened:
  "WapcCallContext_new (wasmtime_engine api) wc ms ev = Ret (Inr cc, ms', ev')
   \<Longrightarrow> wc_module (wcc_context cc) = wc_module wc"
  by (auto simp: WapcCallContext_new_def Let_def wasmtime_context_init_def outcome_inversion
      dest: wc_module_starters split: sum.splits)

context import_relation
begin

lemma rel_host_call:
  fixes h :: "('g wasmtime_provider, 'w) wapc_host"
  assumes avoid: "module_avoids E (wp_module (engine h))"
    and rel: "rel_env (ModuleState_new (host_sync_hostcall h) (host_async_hostcall h) (host_id h)) a b"
  shows "rel_outcome (\<lambda>(r, a) (r', b). r = r' \<and> (\<exists>ms. rel_env ms a b))
    (WapcHost_call (wasmtime_engine api) h op payload a) (WapcHost_call (wasmtime_engine api) h op payload b)"
  unfolding WapcHost_call_def Let_def wasmtime_engine_methods
proof (rule rel_outcome_obind_strong [OF rel_new_context [OF avoid rel]], clarify)
  fix rc ms1 a1 b1
  assume new: "wasmtime_new_context api (engine h) (ModuleState_new (host_sync_hostcall h) (host_async_hostcall h)
      (host_id h)) a = Ret (rc, ms1, a1)" and rel1: "rel_env ms1 a1 b1"
  let ?next = "\<lambda>ev. case rc of Inl e \<Rightarrow> Ret (Inl (Context e), ev)
    | Inr c \<Rightarrow> obind (WapcCallContext_new (wasmtime_engine api) c ms1 ev) (\<lambda>(rcc, ms2, ev2).
        case rcc of Inl e \<Rightarrow> Ret (Inl e, ev2)
        | Inr cc \<Rightarrow> obind (WapcCallContext_call (wasmtime_engine api) cc op payload ms2 ev2) (\<lambda>(r, cc', ms3, ev3).
            Ret (wrap_call_error r, ev3)))"
  show "rel_outcome (\<lambda>(r, a) (r', b). r = r' \<and> (\<exists>ms. rel_env ms a b)) (?next a1) (?next b1)"
  proof (cases rc)
    case (Inl e)
    then show ?thesis
      using rel1 by auto
  next
    case (Inr c)
    then have avoid_c: "module_avoids E (wc_module c)"
      using avoid wc_module_new new by metis
    have step: "rel_outcome (\<lambda>(r, a) (r', b). r = r' \<and> (\<exists>ms. rel_env ms a b))
        (obind (WapcCallContext_call (wasmtime_engine api) cc op payload ms2 a2) (\<lambda>(r, cc', ms3, ev3). Ret (wrap_call_error r, ev3)))
        (obind (WapcCallContext_call (wasmtime_engine api) cc' op payload ms2 b2) (\<lambda>(r, cc', ms3, ev3). Ret (wrap_call_error r, ev3)))"
      if "module_avoids E (wc_module (wcc_context cc))" "wcc_context cc = wcc_context cc'" "rel_env ms2 a2 b2"
      for cc cc' ms2 a2 b2
      by (rule rel_outcome_obind [OF rel_context_call [OF that(1,3,2)]]) (auto, blast)
    show ?thesis
      unfolding Inr sum.case
      by (rule rel_outcome_obind_strong [OF rel_open [OF avoid_c rel1]])
         (auto split: sum.splits intro!: step, blast, metis wc_module_opened avoid_c)
  qed
qed

end

definition host_isolated :: "('g wasmtime_provider, 'w) wapc_host \<Rightarrow> bool" where
  "host_isolated h \<longleftrightarrow>
     callback_blind (host_sync_hostcall h) \<or> module_avoids {HostCall} (wp_module (engine h))"

lemma isolated_calls:
  assumes "host_isolated h" and "in_runtime a = in_runtime b"
  shows "rel_outcome (\<lambda>(r, a') (r', b'). r = r' \<and> same_effects a b a' b')
    (WapcHost_call (wasmtime_engine api) h op payload a) (WapcHost_call (wasmtime_engine api) h op payload b)"
proof -
  let ?ms = "ModuleState_new (host_sync_hostcall h) (host_async_hostcall h) (host_id h)"
  have low: "\<forall>i. low_eq a b \<lparr>inst = i, mstate = ?ms, env = a\<rparr> \<lparr>inst = i, mstate = ?ms, env = b\<rparr>"
    using assms(2) by (simp add: same_effects_start)
  from assms(1) show ?thesis
    unfolding host_isolated_def
  proof
    assume "callback_blind (host_sync_hostcall h)"
    then have "\<forall>i. blind_eq a b \<lparr>inst = i, mstate = ?ms, env = a\<rparr> \<lparr>inst = i, mstate = ?ms, env = b\<rparr>"
      using low by (simp add: blind_eq_def ModuleState_new_def)
    then show ?thesis
      by (rule outcome.rel_mono_strong [OF blind_callback.rel_host_call [OF module_avoids_nothing]])
         (auto simp: blind_eq_def)
  next
    assume "module_avoids {HostCall} (wp_module (engine h))"
    then show ?thesis
      by (rule outcome.rel_mono_strong [OF no_host_call.rel_host_call [OF _ low]]) auto
  qed
qed

text \<open>A guest that makes a host call before it answers, on a host whose callback counts its calls in the
  embedder's world.\<close>

definition calling_module :: "unit wasm_module" where
  "calling_module = rude_module
     \<lparr>m_exports :=
        [''__guest_call'' \<mapsto> Export_3_1 (\<lambda>i _ _. GCall HostCall (replicate 8 0) (\<lambda>_.
            GCall GuestResponse [i, 4, 2] (\<lambda>_. GRet 1))),
         ''__host_call_response_ready'' \<mapsto> Export_2_0 (\<lambda>_ _. GRet ())]\<rparr>"

definition calling_host :: "(unit wasmtime_provider, nat) wapc_host" where
  "calling_host = (sample_host calling_module)\<lparr>host_sync_hostcall := Some sample_callback\<rparr>"

lemma sample_callback_blind: "callback_blind (Some sample_callback)"
  by (simp add: callback_blind_def run_callback_def sample_callback_def)

lemma calling_exports:
  "get_func_0_0 calling_module s = None"
  "get_func_3_1 calling_module GUEST_CALL = Some (\<lambda>i _ _. GCall HostCall (replicate 8 0) (\<lambda>_.
      GCall GuestResponse [i, 4, 2] (\<lambda>_. GRet 1)))"
  "get_func_2_0 calling_module HOST_CALL_RESPONSE_READY = Some (\<lambda>_ _. GRet ())"
  by (simp_all add: calling_module_def get_func_0_0_def get_func_3_1_def get_func_2_0_def guest_name_defs rude_module_def)

lemma run_no_starters:
  "(\<And>s. get_func_0_0 (wc_module wc) s = None) \<Longrightarrow> run_starters ss wc ms ev = Ret (Inr (), wc, ms, ev)"
  by (induction ss) simp_all

lemma calling_reply:
  "WapcHost_call (wasmtime_engine sample_api) calling_host ''echo'' [] sample_env =
     Ret (Inr [0, 0], sample_env\<lparr>world := 1, context_count := 2\<rparr>)"
proof -
  have empty: "get_vec_from_memory sample_mem 0 0 = Ret []"
    by (simp add: get_vec_eq mem_ok_def sample_mem_def)
  let ?wc = "\<lparr>wc_module = calling_module, wc_inst = \<lparr>wmem = Some sample_mem, wstate = ()\<rparr>\<rparr>"
  have new: "wasmtime_new_context sample_api (engine calling_host) ms sample_env = Ret (Inr ?wc, ms, sample_env)" for ms
    by (simp add: wasmtime_new_context_def new_store_def calling_host_def sample_host_def
        sample_api_def [THEN arg_cong [where f = init_wasi]] WasmtimeCallContext_new_def add_to_linker_empty
        instantiate_def calling_module_def rude_module_def calling_exports sample_env_def)
       (simp add: get_func_2_0_def guest_name_defs)
  have starters: "run_starters ss ?wc ms ev = Ret (Inr (), ?wc, ms, ev)" for ss ms and ev :: "nat env"
    by (rule run_no_starters) (simp add: calling_exports)
  have empty_str: "from_utf8 [] = Some []"
    by (simp add: from_utf8_def string_of_bytes_def)
  show ?thesis
    unfolding WapcHost_call_def Let_def wasmtime_engine_methods new
    by (simp add: WapcCallContext_new_def wasmtime_context_init_def starters WapcCallContext_call_def Let_def
        wasmtime_call_def calling_exports calling_host_def sample_host_def ModuleState_new_def
        new_invocation_def next_call_index_def oneshot_channel_def sample_env_def numeral_eq_Suc
        linker_host_call_def host_call_args_def with_params_def get_caller_memory_def get_string_from_memory_def empty empty_str
        do_host_call_def init_host_call_def calls_insert_def run_callback_def sample_callback_def
        record_host_result_def update_call_def linker_guest_response_def read_sample_mem set_guest_response_def
        take_state_def sync_result_def success_of_def wrap_call_error_def map_err_def drop_call_state_def
        oneshot_resolve_def default_call_state_def)
qed

end
