(* ===== verification/Wasi_Context.thy ===== *)
theory Wasi_Context
  imports Call_Isolation
begin

text \<open>
  Setting up WASI for a wasmtime store (\<open>crates/wasmtime-provider/src/wasi.rs\<close>): the process-wide
  cache of open directories, the directories a context exposes to its guest, and the builder calls
  that make the context.

  Directory handles (\<open>'d\<close>), the operating system behind them (\<open>'o\<close>), the builder (\<open>'b\<close>) and the
  finished context (\<open>'x\<close>) belong to \<open>cap-std\<close> and \<open>wasi-common\<close>; what the code calls of them is the
  record \<open>wasi_lib\<close>, a parameter. The static \<open>OPEN_DIRECTORIES\<close> is a field of \<open>wasi_state\<close>; its mutex
  is held for the whole of \<open>get_dir\<close>, which makes \<open>get_dir\<close> one step. An error is what it displays. The
  last section puts the state around the calls of a host, where it outlives the call.
\<close>

record ('d, 'b, 'x, 'o) wasi_lib =
  open_ambient_dir :: "string \<Rightarrow> 'o \<Rightarrow> (dyn_error + 'd) \<times> 'o"
  try_clone :: "'d \<Rightarrow> 'o \<Rightarrow> (dyn_error + 'd) \<times> 'o"
  builder_new :: 'b
  inherit_stdio :: "'b \<Rightarrow> 'b"
  builder_args :: "string list \<Rightarrow> 'b \<Rightarrow> dyn_error + 'b"
  builder_envs :: "(string \<times> string) list \<Rightarrow> 'b \<Rightarrow> dyn_error + 'b"
  builder_preopened_dir :: "'d \<Rightarrow> string \<Rightarrow> 'b \<Rightarrow> dyn_error + 'b"
  builder_build :: "'b \<Rightarrow> 'x"

record ('d, 'o) wasi_state =
  open_directories :: "string \<rightharpoonup> 'd"
  os :: 'o

subsection \<open>Sequencing\<close>

text \<open>A computation that changes a state and may fail, and the \<open>?\<close> operator after it.\<close>

type_synonym ('s, 'e, 'a) fallible = "'s \<Rightarrow> ('e + 'a) \<times> 's"

definition ok :: "'a \<Rightarrow> ('s, 'e, 'a) fallible" where
  "ok x = (\<lambda>s. (Inr x, s))"

definition lift_result :: "'e + 'a \<Rightarrow> ('s, 'e, 'a) fallible" where
  "lift_result r = (\<lambda>s. (r, s))"

definition and_then :: "('s, 'e, 'a) fallible \<Rightarrow> ('a \<Rightarrow> ('s, 'e, 'b) fallible) \<Rightarrow> ('s, 'e, 'b) fallible" where
  "and_then m f = (\<lambda>s. case m s of (Inl e, s') \<Rightarrow> (Inl e, s') | (Inr x, s') \<Rightarrow> f x s')"

definition or_err :: "('e \<Rightarrow> 'f) \<Rightarrow> ('s, 'e, 'a) fallible \<Rightarrow> ('s, 'f, 'a) fallible" where
  "or_err g m = (\<lambda>s. case m s of (r, s') \<Rightarrow> (map_err g r, s'))"

text \<open>A call of the library, which sees the operating system only.\<close>

definition on_os :: "('o \<Rightarrow> (dyn_error + 'a) \<times> 'o) \<Rightarrow> (('d, 'o) wasi_state, dyn_error, 'a) fallible" where
  "on_os f = (\<lambda>s. case f (os s) of (r, o') \<Rightarrow> (r, s\<lparr>os := o'\<rparr>))"

subsection \<open>Directories\<close>

definition get_dir ::
    "('d, 'b, 'x, 'o) wasi_lib \<Rightarrow> string \<Rightarrow> (('d, 'o) wasi_state, dyn_error, 'd) fallible" where
  "get_dir lib path = (\<lambda>s.
     case open_directories s path of
       Some dir \<Rightarrow> on_os (try_clone lib dir) s
     | None \<Rightarrow>
         and_then (on_os (open_ambient_dir lib path)) (\<lambda>dir.
         and_then (on_os (try_clone lib dir)) (\<lambda>copy s'.
           ok dir (s'\<lparr>open_directories := (open_directories s')(path \<mapsto> copy)\<rparr>))) s)"

text \<open>The body of both loops: a name for the guest and the path it stands for.\<close>

fun push_dirs ::
    "('d, 'b, 'x, 'o) wasi_lib \<Rightarrow> (string \<times> string) list \<Rightarrow> (string \<times> 'd) list
     \<Rightarrow> (('d, 'o) wasi_state, dyn_error, (string \<times> 'd) list) fallible" where
  "push_dirs lib [] acc = ok acc"
| "push_dirs lib ((name, path) # es) acc =
     and_then (get_dir lib path) (\<lambda>dir. push_dirs lib es (acc @ [(name, dir)]))"

definition compute_preopen_dirs ::
    "('d, 'b, 'x, 'o) wasi_lib \<Rightarrow> string list \<Rightarrow> (string \<times> string) list
     \<Rightarrow> (('d, 'o) wasi_state, dyn_error, (string \<times> 'd) list) fallible" where
  "compute_preopen_dirs lib dirs maps =
     and_then (push_dirs lib (map (\<lambda>path. (path, path)) dirs) []) (push_dirs lib maps)"

subsection \<open>The context\<close>

fun preopen ::
    "('d, 'b, 'x, 'o) wasi_lib \<Rightarrow> (string \<times> 'd) list \<Rightarrow> 'b
     \<Rightarrow> (('d, 'o) wasi_state, dyn_error, 'b) fallible" where
  "preopen lib [] b = ok b"
| "preopen lib ((name, file) # ds) b =
     and_then (on_os (try_clone lib file)) (\<lambda>copy.
     and_then (lift_result (builder_preopened_dir lib copy name b)) (\<lambda>b'.
       preopen lib ds b'))"

definition init_ctx ::
    "('d, 'b, 'x, 'o) wasi_lib \<Rightarrow> (string \<times> 'd) list \<Rightarrow> string list \<Rightarrow> (string \<times> string) list
     \<Rightarrow> (('d, 'o) wasi_state, dyn_error, 'x) fallible" where
  "init_ctx lib preopen_dirs args vars =
     and_then (lift_result (builder_args lib args (inherit_stdio lib (builder_new lib)))) (\<lambda>b1.
     and_then (lift_result (builder_envs lib vars b1)) (\<lambda>b2.
     and_then (preopen lib preopen_dirs b2) (\<lambda>b3.
       ok (builder_build lib b3))))"

definition init_wasi_ctx ::
    "('d, 'b, 'x, 'o) wasi_lib \<Rightarrow> wasi_params
     \<Rightarrow> (('d, 'o) wasi_state, provider_error, 'x) fallible" where
  "init_wasi_ctx lib p =
     and_then (or_err PreopenedDirs (compute_preopen_dirs lib (preopened_dirs p) (map_dirs p))) (\<lambda>dirs.
       or_err InitializationFailed (init_ctx lib dirs (argv p) (env_vars p)))"

text \<open>
  \<open>compute_argv\<close>, which nothing calls: \<open>argv[0]\<close> is the last component of the module's path.
  \<open>Path::components\<close> on Unix: a leading slash is the root component, empty components and dots that
  are not the first component are dropped. A path is a byte string that need not be UTF-8.
\<close>

definition split_path :: "bytes \<Rightarrow> bytes list" where
  "split_path p = foldr (\<lambda>b (cs :: bytes list). if b = 47 then [] # cs else (b # hd cs) # tl cs) p [[]]"

definition path_components :: "bytes \<Rightarrow> bytes list" where
  "path_components p =
     (let parts = split_path p;
          rooted = (p \<noteq> [] \<and> hd p = 47);
          keep = filter (\<lambda>c. c \<noteq> [] \<and> c \<noteq> [46]) parts
      in if rooted then [47] # keep
         else if hd parts = [46] then [46] # keep else keep)"

definition compute_argv :: "bytes \<Rightarrow> string list \<Rightarrow> string list" where
  "compute_argv m args =
     (let cs = path_components m
      in (case (if cs = [] then None else from_utf8 (last cs)) of None \<Rightarrow> '''' | Some s \<Rightarrow> s)
           # args)"

text \<open>The wasmtime library of \<open>Wasmtime_Engine\<close> in a process whose WASI state is \<open>s\<close>.\<close>

definition wasmtime_with_wasi ::
    "('d, 'b, 'x, 'o) wasi_lib \<Rightarrow> ('d, 'o) wasi_state \<Rightarrow> 'g wasmtime_api \<Rightarrow> 'g wasmtime_api" where
  "wasmtime_with_wasi lib s api =
     api\<lparr>init_wasi := (\<lambda>p. case fst (init_wasi_ctx lib p s) of Inl e \<Rightarrow> Inl e | Inr x \<Rightarrow> Inr ())\<rparr>"

subsection \<open>What stays in the cache\<close>

text \<open>A computation that never loses or replaces an open directory.\<close>

definition cache_le :: "('d, 'o) wasi_state \<Rightarrow> ('d, 'o) wasi_state \<Rightarrow> bool" where
  "cache_le s s' \<longleftrightarrow> open_directories s \<subseteq>\<^sub>m open_directories s'"

definition keeps_cache :: "(('d, 'o) wasi_state, 'e, 'a) fallible \<Rightarrow> bool" where
  "keeps_cache m \<longleftrightarrow> (\<forall>s. cache_le s (snd (m s)))"

lemma cache_le_refl [simp]: "cache_le s s"
  by (simp add: cache_le_def)

lemma cache_le_trans: "cache_le s s' \<Longrightarrow> cache_le s' s'' \<Longrightarrow> cache_le s s''"
  unfolding cache_le_def by (rule map_le_trans)

lemma cache_le_Some: "cache_le s s' \<Longrightarrow> open_directories s p = Some c \<Longrightarrow> open_directories s' p = Some c"
  unfolding cache_le_def map_le_def by (metis domI)

lemma keeps_ok: "keeps_cache (ok x)"
  by (simp add: keeps_cache_def ok_def)

lemma keeps_lift_result: "keeps_cache (lift_result r)"
  by (simp add: keeps_cache_def lift_result_def)

lemma keeps_or_err: "keeps_cache m \<Longrightarrow> keeps_cache (or_err g m)"
  unfolding keeps_cache_def or_err_def by (metis (no_types, lifting) case_prod_beta snd_conv)

lemma keeps_on_os: "keeps_cache (on_os f)"
  by (auto simp: keeps_cache_def on_os_def cache_le_def split: prod.splits)

lemma keeps_and_then:
  assumes "keeps_cache m" and "\<And>x. keeps_cache (f x)"
  shows "keeps_cache (and_then m f)"
  unfolding keeps_cache_def
proof (intro allI)
  fix s
  obtain r s1 where m: "m s = (r, s1)"
    by (cases "m s")
  have "cache_le s s1"
    using assms(1) m unfolding keeps_cache_def by (metis snd_conv)
  moreover have "cache_le s1 (snd (f x s1))" for x
    using assms(2) by (simp add: keeps_cache_def)
  ultimately show "cache_le s (snd (and_then m f s))"
    by (cases r) (auto simp: and_then_def m intro: cache_le_trans)
qed

lemma and_then_Inr:
  "and_then m f s = (Inr y, s'') \<longleftrightarrow> (\<exists>x s'. m s = (Inr x, s') \<and> f x s' = (Inr y, s''))"
  by (auto simp: and_then_def split: prod.splits sum.splits)

lemma keeps_cacheD: "keeps_cache m \<Longrightarrow> m s = (r, s') \<Longrightarrow> cache_le s s'"
  unfolding keeps_cache_def by (metis snd_conv)

lemma open_directories_on_os: "on_os f s = (r, s') \<Longrightarrow> open_directories s' = open_directories s"
  by (auto simp: on_os_def split: prod.splits)

lemma keeps_get_dir: "keeps_cache (get_dir lib p)"
  unfolding keeps_cache_def
proof (intro allI)
  fix s
  show "cache_le s (snd (get_dir lib p s))"
    by (cases "open_directories s p")
       (auto simp: get_dir_def and_then_def ok_def on_os_def cache_le_def map_le_def dom_def
          split: prod.splits sum.splits)
qed

lemmas keeps_intros = keeps_ok keeps_lift_result keeps_or_err keeps_on_os keeps_and_then keeps_get_dir

lemma keeps_push_dirs: "keeps_cache (push_dirs lib es acc)"
  by (induction es arbitrary: acc) (auto intro!: keeps_intros)

lemma keeps_preopen: "keeps_cache (preopen lib ds b)"
  by (induction ds arbitrary: b) (auto intro!: keeps_intros)

lemma keeps_compute_preopen_dirs: "keeps_cache (compute_preopen_dirs lib dirs maps)"
  unfolding compute_preopen_dirs_def by (intro keeps_intros keeps_push_dirs)

lemma keeps_init_wasi_ctx: "keeps_cache (init_wasi_ctx lib p)"
  unfolding init_wasi_ctx_def init_ctx_def
  by (intro keeps_intros keeps_preopen keeps_compute_preopen_dirs)

subsection \<open>Which directory a path stands for\<close>

text \<open>Documented behaviour of \<open>Dir::try_clone\<close>: the copy refers to the directory the original refers
  to. \<open>dir_of\<close> is the directory a handle refers to.\<close>

definition clones_denote :: "('d, 'b, 'x, 'o) wasi_lib \<Rightarrow> ('d \<Rightarrow> 'i) \<Rightarrow> bool" where
  "clones_denote lib dir_of \<longleftrightarrow>
     (\<forall>d d' f f'. try_clone lib d f = (Inr d', f') \<longrightarrow> dir_of d' = dir_of d)"

definition cached_as :: "('d \<Rightarrow> 'i) \<Rightarrow> ('d, 'o) wasi_state \<Rightarrow> string \<Rightarrow> 'd \<Rightarrow> bool" where
  "cached_as dir_of s path d \<longleftrightarrow> (\<exists>c. open_directories s path = Some c \<and> dir_of c = dir_of d)"

lemma cached_as_mono: "cached_as dir_of s path d \<Longrightarrow> cache_le s s' \<Longrightarrow> cached_as dir_of s' path d"
  by (auto simp: cached_as_def dest: cache_le_Some)

lemma get_dir_cached:
  assumes "clones_denote lib dir_of" and "get_dir lib path s = (Inr d, s')"
  shows "cached_as dir_of s' path d"
proof (cases "open_directories s path")
  case None
  then obtain s1 copy s2 where "on_os (try_clone lib d) s1 = (Inr copy, s2)"
      and "s' = s2\<lparr>open_directories := (open_directories s2)(path \<mapsto> copy)\<rparr>"
    using assms(2) by (auto simp: get_dir_def and_then_Inr ok_def)
  moreover from this(1) have "dir_of copy = dir_of d"
    using assms(1) unfolding clones_denote_def on_os_def by (auto split: prod.splits)
  ultimately show ?thesis
    by (simp add: cached_as_def)
next
  case (Some c)
  then show ?thesis
    using assms
    by (force simp: get_dir_def cached_as_def clones_denote_def on_os_def split: prod.splits)
qed

lemma push_dirs_cached:
  assumes "clones_denote lib dir_of" and "push_dirs lib es acc s = (Inr ds, s')"
  shows "\<exists>new. ds = acc @ new \<and> map fst new = map fst es
    \<and> list_all2 (cached_as dir_of s') (map snd es) (map snd new)"
  using assms(2)
proof (induction es arbitrary: acc s)
  case Nil
  then show ?case by (simp add: ok_def)
next
  case (Cons e es)
  obtain name path where e: "e = (name, path)"
    by (cases e)
  with Cons.prems obtain d s1 where get: "get_dir lib path s = (Inr d, s1)"
    and rest: "push_dirs lib es (acc @ [(name, d)]) s1 = (Inr ds, s')"
    by (auto simp: and_then_Inr)
  have "cached_as dir_of s' path d"
    using get_dir_cached [OF assms(1) get] keeps_cacheD [OF keeps_push_dirs rest] by (rule cached_as_mono)
  with Cons.IH [OF rest] show ?case
    by (auto simp: e)
qed

lemma compute_preopen_dirs_cached:
  assumes "clones_denote lib dir_of" and "compute_preopen_dirs lib dirs maps s = (Inr ds, s')"
  shows "map fst ds = dirs @ map fst maps
    \<and> list_all2 (cached_as dir_of s') (dirs @ map snd maps) (map snd ds)"
proof -
  obtain ds1 s1 where one: "push_dirs lib (map (\<lambda>path. (path, path)) dirs) [] s = (Inr ds1, s1)"
    and two: "push_dirs lib maps ds1 s1 = (Inr ds, s')"
    using assms(2) by (auto simp: compute_preopen_dirs_def and_then_Inr)
  obtain new where ds: "ds = ds1 @ new" "map fst new = map fst maps"
      "list_all2 (cached_as dir_of s') (map snd maps) (map snd new)"
    using push_dirs_cached [OF assms(1) two] by auto
  have first: "map fst ds1 = dirs" "list_all2 (cached_as dir_of s1) dirs (map snd ds1)"
    using push_dirs_cached [OF assms(1) one] by (auto simp: comp_def)
  have "list_all2 (cached_as dir_of s') dirs (map snd ds1)"
    using first(2) keeps_cacheD [OF keeps_push_dirs two]
    by (auto elim!: list_all2_mono intro: cached_as_mono)
  then show ?thesis
    using ds first by (simp add: list_all2_appendI)
qed

text \<open>What may happen in the process between two contexts: other contexts are set up, and the
  operating system changes in any way.\<close>

inductive wasi_steps :: "('d, 'b, 'x, 'o) wasi_lib \<Rightarrow> ('d, 'o) wasi_state \<Rightarrow> ('d, 'o) wasi_state \<Rightarrow> bool"
  for lib where
  refl: "wasi_steps lib s s"
| os_change: "wasi_steps lib s s' \<Longrightarrow> wasi_steps lib s (s'\<lparr>os := f\<rparr>)"
| set_up: "wasi_steps lib s s' \<Longrightarrow> wasi_steps lib s (snd (init_wasi_ctx lib p s'))"

lemma wasi_steps_cache: "wasi_steps lib s s' \<Longrightarrow> cache_le s s'"
proof (induction rule: wasi_steps.induct)
  case (os_change s s' f)
  then show ?case by (simp add: cache_le_def)
next
  case (set_up s s' p)
  moreover have "cache_le s' (snd (init_wasi_ctx lib p s'))"
    using keeps_init_wasi_ctx [of lib p] unfolding keeps_cache_def by blast
  ultimately show ?case by (blast intro: cache_le_trans)
qed simp

text \<open>A directory that cannot be exposed is the error of every call of the host.\<close>

lemma missing_dir_refuses_calls:
  assumes "wp_wasi_params (engine h) = Some p"
    and "compute_preopen_dirs lib (preopened_dirs p) (map_dirs p) s = (Inl e, s')"
  shows "WapcHost_call (wasmtime_engine (wasmtime_with_wasi lib s api)) h op payload ev =
    Ret (Inl (Context (''Error exposing directories with WASI: '' @ e)), ev)"
  using assms
  by (simp add: WapcHost_call_def wasmtime_new_context_def new_store_def wasmtime_with_wasi_def
      init_wasi_ctx_def or_err_def and_then_def Let_def)

text \<open>C33: a WASI context exposes the pre-opened directories under their own paths and then the mapped
  ones under their guest names, in order; and a path stands for the same directory in every context
  of the process that is set up later, whatever other contexts are set up and however the file
  system changes in between.\<close>

theorem wasi_dirs_stable:
  assumes "clones_denote lib dir_of"
    and "compute_preopen_dirs lib dirs maps s = (Inr ds, s1)"
    and "wasi_steps lib s1 s2"
    and "compute_preopen_dirs lib dirs' maps' s2 = (Inr ds', s3)"
  shows "map fst ds = dirs @ map fst maps
    \<and> (\<forall>i < length ds. \<forall>j < length ds'. (dirs @ map snd maps) ! i = (dirs' @ map snd maps') ! j
         \<longrightarrow> dir_of (snd (ds ! i)) = dir_of (snd (ds' ! j)))"
proof (intro conjI allI impI)
  show "map fst ds = dirs @ map fst maps"
    using compute_preopen_dirs_cached [OF assms(1,2)] by simp
next
  fix i j
  assume i: "i < length ds" and j: "j < length ds'"
    and same: "(dirs @ map snd maps) ! i = (dirs' @ map snd maps') ! j"
  have "cached_as dir_of s1 ((dirs @ map snd maps) ! i) (snd (ds ! i))"
    using compute_preopen_dirs_cached [OF assms(1,2)] i by (auto simp: list_all2_conv_all_nth)
  moreover have "cache_le s1 s3"
    using wasi_steps_cache [OF assms(3)] keeps_cacheD [OF keeps_compute_preopen_dirs assms(4)]
    by (rule cache_le_trans)
  ultimately have "cached_as dir_of s3 ((dirs @ map snd maps) ! i) (snd (ds ! i))"
    by (rule cached_as_mono)
  moreover have "cached_as dir_of s3 ((dirs' @ map snd maps') ! j) (snd (ds' ! j))"
    using compute_preopen_dirs_cached [OF assms(1,4)] j by (auto simp: list_all2_conv_all_nth)
  ultimately show "dir_of (snd (ds ! i)) = dir_of (snd (ds' ! j))"
    by (auto simp: cached_as_def same)
qed

text \<open>A file system that maps paths to inodes and numbers its handles.\<close>

definition sample_wasi_lib :: "(nat \<times> nat, (string \<times> nat) list, (string \<times> nat) list, (string \<rightharpoonup> nat) \<times> nat) wasi_lib" where
  "sample_wasi_lib =
     \<lparr>open_ambient_dir = (\<lambda>p (fs, n). case fs p of
          None \<Rightarrow> (Inl ''No such file or directory'', (fs, n))
        | Some i \<Rightarrow> (Inr (i, n), (fs, Suc n))),
      try_clone = (\<lambda>(i, k) (fs, n). (Inr (i, n), (fs, Suc n))),
      builder_new = [], inherit_stdio = id,
      builder_args = (\<lambda>a b. if 2 ^ 20 < length a then Inl ''too many arguments'' else Inr b),
      builder_envs = (\<lambda>_. Inr), builder_preopened_dir = (\<lambda>(i, k) name b. Inr (b @ [(name, i)])),
      builder_build = id\<rparr>"

lemma sample_clones: "clones_denote sample_wasi_lib fst"
  by (auto simp: clones_denote_def sample_wasi_lib_def)

theorem wasi_dirs_stable_witness:
  "\<exists>ds s1 ds' s3.
     compute_preopen_dirs sample_wasi_lib [''/tmp''] [] \<lparr>open_directories = Map.empty, os = ([''/tmp'' \<mapsto> 5], 0)\<rparr> = (Inr ds, s1)
   \<and> compute_preopen_dirs sample_wasi_lib [] [(''/'', ''/tmp'')] (s1\<lparr>os := ([''/tmp'' \<mapsto> 9], 10)\<rparr>) = (Inr ds', s3)
   \<and> map fst ds' = [''/''] \<and> fst (snd (ds ! 0)) = fst (snd (ds' ! 0))"
proof -
  let ?s = "\<lparr>open_directories = Map.empty, os = ([''/tmp'' \<mapsto> 5], 0 :: nat)\<rparr>"
  obtain ds s1 where one: "compute_preopen_dirs sample_wasi_lib [''/tmp''] [] ?s = (Inr ds, s1)"
      and len: "length ds = 1" and cached: "open_directories s1 ''/tmp'' = Some (5, 1)"
    by (simp add: compute_preopen_dirs_def and_then_def ok_def get_dir_def on_os_def sample_wasi_lib_def)
  let ?s2 = "s1\<lparr>os := ([''/tmp'' \<mapsto> 9], 10)\<rparr>"
  have steps: "wasi_steps sample_wasi_lib s1 ?s2"
    by (rule wasi_steps.os_change [OF wasi_steps.refl])
  obtain ds' s3 where two: "compute_preopen_dirs sample_wasi_lib [] [(''/'', ''/tmp'')] ?s2 = (Inr ds', s3)"
      and ds': "length ds' = 1" "map fst ds' = [''/'']"
    using cached
    by (simp add: compute_preopen_dirs_def and_then_def ok_def get_dir_def on_os_def)
       (simp add: sample_wasi_lib_def)
  from wasi_dirs_stable [OF sample_clones one steps two] len ds'
  have same: "fst (snd (ds ! 0)) = fst (snd (ds' ! 0))"
    by simp
  show ?thesis
    by (intro exI conjI, rule one, rule two, rule ds'(2), rule same)
qed

subsection \<open>Calls in a process\<close>

text \<open>How setting up WASI ends for a provider, in a process whose WASI state is \<open>s\<close>; and a call of a host
  together with what it leaves of that state.\<close>

definition provider_wasi_params :: "'g wasmtime_provider \<Rightarrow> wasi_params" where
  "provider_wasi_params pr = (case wp_wasi_params pr of Some p \<Rightarrow> p | None \<Rightarrow> WasiParams_default)"

definition wasi_set_up ::
    "('d, 'b, 'x, 'o) wasi_lib \<Rightarrow> 'g wasmtime_provider \<Rightarrow> ('d, 'o) wasi_state \<Rightarrow> provider_error + unit" where
  "wasi_set_up lib pr s = new_store (wasmtime_with_wasi lib s undefined :: 'g wasmtime_api) (wp_wasi_params pr)"

definition call_in_process ::
    "('d, 'b, 'x, 'o) wasi_lib \<Rightarrow> 'g wasmtime_api \<Rightarrow> ('g wasmtime_provider, 'w) wapc_host \<Rightarrow> string \<Rightarrow> bytes
     \<Rightarrow> ('d, 'o) wasi_state \<Rightarrow> 'w env \<Rightarrow> ((wapc_error + bytes) \<times> ('d, 'o) wasi_state \<times> 'w env) outcome" where
  "call_in_process lib api h op payload s ev =
     obind (WapcHost_call (wasmtime_engine (wasmtime_with_wasi lib s api)) h op payload ev) (\<lambda>(r, ev').
       Ret (r, snd (init_wasi_ctx lib (provider_wasi_params (engine h)) s), ev'))"

lemma link_exports_wasi [simp]: "link_exports (api\<lparr>init_wasi := f\<rparr>) es l = link_exports api es l"
  by (induction es arbitrary: l) (simp_all add: func_new_def)

lemma WasmtimeCallContext_new_wasi [simp]:
  "WasmtimeCallContext_new (api\<lparr>init_wasi := f\<rparr>) l m ms ev = WasmtimeCallContext_new api l m ms ev"
  by (simp add: WasmtimeCallContext_new_def add_to_linker_def instantiate_def split: sum.splits)

lemma new_context_wasi:
  assumes "new_store api (wp_wasi_params pr) = new_store (api\<lparr>init_wasi := f\<rparr>) (wp_wasi_params pr)"
  shows "wasmtime_new_context (api\<lparr>init_wasi := f\<rparr>) pr ms ev = wasmtime_new_context api pr ms ev"
  using assms by (simp add: wasmtime_new_context_def split: sum.splits)

lemma wasmtime_contexts:
  "WapcCallContext_new (wasmtime_engine api) = WapcCallContext_new (wasmtime_engine api')"
  "WapcCallContext_call (wasmtime_engine api) = WapcCallContext_call (wasmtime_engine api')"
  by (simp_all add: fun_eq_iff WapcCallContext_new_def WapcCallContext_call_def)

lemma call_wasi:
  assumes "new_store api (wp_wasi_params (engine h)) = new_store (api\<lparr>init_wasi := f\<rparr>) (wp_wasi_params (engine h))"
  shows "WapcHost_call (wasmtime_engine (api\<lparr>init_wasi := f\<rparr>)) h op payload ev
    = WapcHost_call (wasmtime_engine api) h op payload ev"
  unfolding WapcHost_call_def Let_def wasmtime_engine_methods new_context_wasi [OF assms]
    wasmtime_contexts [of "api\<lparr>init_wasi := f\<rparr>" api] ..

lemma new_store_wasi: "new_store (wasmtime_with_wasi lib s api) (wp_wasi_params pr) = wasi_set_up lib pr s"
  by (simp add: wasi_set_up_def new_store_def wasmtime_with_wasi_def)

lemma same_set_up:
  assumes "wasi_set_up lib (engine h) s = wasi_set_up lib (engine h) s'"
  shows "WapcHost_call (wasmtime_engine (wasmtime_with_wasi lib s api)) h op payload ev
    = WapcHost_call (wasmtime_engine (wasmtime_with_wasi lib s' api)) h op payload ev"
proof -
  have other: "wasmtime_with_wasi lib s' api = (wasmtime_with_wasi lib s api)\<lparr>init_wasi := init_wasi (wasmtime_with_wasi lib s' api)\<rparr>"
    by (simp add: wasmtime_with_wasi_def)
  show ?thesis
    by (subst other, rule call_wasi [symmetric])
       (simp add: other [symmetric] new_store_wasi assms)
qed

text \<open>Without directories the set-up sees neither the cache nor the file system.\<close>

definition exposes_no_directory :: "'g wasmtime_provider \<Rightarrow> bool" where
  "exposes_no_directory pr \<longleftrightarrow>
     preopened_dirs (provider_wasi_params pr) = [] \<and> map_dirs (provider_wasi_params pr) = []"

lemma no_directory_set_up:
  assumes "exposes_no_directory pr"
  shows "wasi_set_up lib pr s = wasi_set_up lib pr s'"
proof -
  have "fst (init_wasi_ctx lib (provider_wasi_params pr) s) = fst (init_wasi_ctx lib (provider_wasi_params pr) s')"
    using assms
    by (simp add: exposes_no_directory_def init_wasi_ctx_def compute_preopen_dirs_def init_ctx_def and_then_def
        or_err_def ok_def lift_result_def split: sum.splits)
  then show ?thesis
    by (simp add: wasi_set_up_def new_store_def wasmtime_with_wasi_def provider_wasi_params_def)
qed

lemma failed_set_up:
  assumes "wasi_set_up lib (engine h) s = Inl e"
  shows "WapcHost_call (wasmtime_engine (wasmtime_with_wasi lib s api)) h op payload ev
    = Ret (Inl (Context (provider_error_to_string e)), ev)"
  using assms by (simp add: WapcHost_call_def wasmtime_new_context_def new_store_wasi Let_def)

text \<open>The guests of the model call the functions of waPC only, so what follows is about modules that import
  no others: a guest that imports WASI functions may read whatever they read.\<close>

definition imports_only_wapc :: "'g wasm_module \<Rightarrow> bool" where
  "imports_only_wapc m \<longleftrightarrow> list_all (\<lambda>imp. fst (fst imp) = HOST_NAMESPACE) (m_imports m)"

text \<open>C8: no call learns anything from the calls before it. On the wasmtime engine the same call of a module
  that imports the functions of waPC only, made in two environments that agree on whether there is a
  runtime and in two processes that have opened different directories and see different file systems,
  ends in the same way: with the same reply, the same lines printed and the same tasks spawned, or in
  the same panic. It is enough that the host's callback does not read the embedder's world, or that the
  module makes no synchronous host call; and that WASI can be set up in both processes or fails with
  the same error, as it does for a host that exposes no directories. A failure of the set-up is the
  reply itself, and changes nothing in the environment.\<close>

theorem calls_are_isolated:
  assumes "host_isolated h" and "in_runtime a = in_runtime b" and "imports_only_wapc (wp_module (engine h))"
  shows "(exposes_no_directory (engine h) \<or> wasi_set_up lib (engine h) s = wasi_set_up lib (engine h) s' \<longrightarrow>
      rel_outcome (\<lambda>(r, t, a') (r', t', b'). r = r' \<and> same_effects a b a' b')
        (call_in_process lib api h op payload s a) (call_in_process lib api h op payload s' b))
    \<and> (\<forall>e. wasi_set_up lib (engine h) s = Inl e \<longrightarrow>
      (\<exists>t. call_in_process lib api h op payload s a = Ret (Inl (Context (provider_error_to_string e)), t, a)))"
proof (intro conjI impI allI)
  assume "exposes_no_directory (engine h) \<or> wasi_set_up lib (engine h) s = wasi_set_up lib (engine h) s'"
  then have "wasi_set_up lib (engine h) s' = wasi_set_up lib (engine h) s"
    using no_directory_set_up by metis
  note same = same_set_up [OF this]
  show "rel_outcome (\<lambda>(r, t, a') (r', t', b'). r = r' \<and> same_effects a b a' b')
      (call_in_process lib api h op payload s a) (call_in_process lib api h op payload s' b)"
    unfolding call_in_process_def same by (rule rel_outcome_obind [OF isolated_calls [OF assms(1,2)]]) auto
next
  fix e
  assume "wasi_set_up lib (engine h) s = Inl e"
  then show "\<exists>t. call_in_process lib api h op payload s a = Ret (Inl (Context (provider_error_to_string e)), t, a)"
    by (simp add: call_in_process_def failed_set_up)
qed

text \<open>Two processes: a fresh one, and one that has opened a directory and whose file system has changed.\<close>

abbreviation fresh_process :: "(nat \<times> nat, (string \<rightharpoonup> nat) \<times> nat) wasi_state" where
  "fresh_process \<equiv> \<lparr>open_directories = Map.empty, os = ([''/tmp'' \<mapsto> 5], 0)\<rparr>"

abbreviation used_process :: "(nat \<times> nat, (string \<rightharpoonup> nat) \<times> nat) wasi_state" where
  "used_process \<equiv> \<lparr>open_directories = [''/tmp'' \<mapsto> (5, 1)], os = ([''/tmp'' \<mapsto> 9], 10)\<rparr>"

lemma calling_host_plain:
  "exposes_no_directory (engine calling_host)" "imports_only_wapc (wp_module (engine calling_host))"
  by (simp_all add: exposes_no_directory_def provider_wasi_params_def calling_host_def sample_host_def WasiParams_default_def
      imports_only_wapc_def calling_module_def rude_module_def)

lemma calling_process_reply:
  "\<exists>t. call_in_process sample_wasi_lib sample_api calling_host ''echo'' [] fresh_process sample_env =
     Ret (Inr [0, 0], t, sample_env\<lparr>world := 1, context_count := 2\<rparr>)"
proof -
  have "wasi_set_up sample_wasi_lib (engine calling_host) fresh_process = Inr ()"
    by (simp add: wasi_set_up_def new_store_def wasmtime_with_wasi_def calling_host_def sample_host_def
        WasiParams_default_def init_wasi_ctx_def compute_preopen_dirs_def init_ctx_def and_then_def or_err_def
        ok_def lift_result_def sample_wasi_lib_def)
  moreover have "new_store sample_api p = Inr ()" for p
    by (simp add: new_store_def sample_api_def)
  ultimately have "WapcHost_call (wasmtime_engine (wasmtime_with_wasi sample_wasi_lib fresh_process sample_api))
      calling_host ''echo'' [] sample_env = Ret (Inr [0, 0], sample_env\<lparr>world := 1, context_count := 2\<rparr>)"
    using call_wasi [of sample_api calling_host "init_wasi (wasmtime_with_wasi sample_wasi_lib fresh_process sample_api)"]
      new_store_wasi [of sample_wasi_lib fresh_process sample_api "engine calling_host"] calling_reply
    by (simp add: wasmtime_with_wasi_def)
  then show ?thesis
    by (simp add: call_in_process_def)
qed

theorem calls_are_isolated_witness:
  "\<exists>t b'. call_in_process sample_wasi_lib sample_api calling_host ''echo'' [] used_process
     (sample_env\<lparr>world := 41, stdout := [''earlier'']\<rparr>) = Ret (Inr [0, 0], t, b') \<and> stdout b' = [''earlier'']"
proof -
  let ?b = "sample_env\<lparr>world := 41, stdout := [''earlier'']\<rparr>"
  let ?call = "call_in_process sample_wasi_lib sample_api calling_host ''echo'' []"
  have isolated: "host_isolated calling_host"
    by (simp add: host_isolated_def calling_host_def sample_callback_blind)
  have runtime: "in_runtime sample_env = in_runtime ?b"
    by simp
  have "rel_outcome (\<lambda>(r, t, a') (r', t', b'). r = r' \<and> same_effects sample_env ?b a' b')
      (?call fresh_process sample_env) (?call used_process ?b)"
    using calls_are_isolated [OF isolated runtime calling_host_plain(2)] calling_host_plain(1) by blast
  then show ?thesis
    using calling_process_reply by (cases "?call used_process ?b") (auto simp: same_effects_def)
qed

text \<open>So a reply depends neither on the calls made before it nor on what happens to the file system between
  them: before every call it is as the list says.\<close>

primrec serve_calls ::
    "('d, 'b, 'x, 'o) wasi_lib \<Rightarrow> 'g wasmtime_api \<Rightarrow> ('g wasmtime_provider, 'w) wapc_host \<Rightarrow> ('o \<times> string \<times> bytes) list
     \<Rightarrow> ('d, 'o) wasi_state \<Rightarrow> 'w env \<Rightarrow> ((wapc_error + bytes) list \<times> ('d, 'o) wasi_state \<times> 'w env) outcome" where
  "serve_calls lib api h [] s ev = Ret ([], s, ev)"
| "serve_calls lib api h (q # qs) s ev =
     obind (call_in_process lib api h (fst (snd q)) (snd (snd q)) (s\<lparr>os := fst q\<rparr>) ev) (\<lambda>(r, s1, ev1).
     obind (serve_calls lib api h qs s1 ev1) (\<lambda>(rs, s2, ev2). Ret (r # rs, s2, ev2)))"

theorem replies_forget_history:
  assumes "host_isolated h" and "exposes_no_directory (engine h)" and "in_runtime a = in_runtime ev"
    and "serve_calls lib api h qs s ev = Ret (rs, s', ev')"
  shows "length rs = length qs
    \<and> (\<forall>k < length qs. \<exists>t a'. call_in_process lib api h (fst (snd (qs ! k))) (snd (snd (qs ! k))) z a = Ret (rs ! k, t, a'))"
  using assms(3,4)
proof (induction qs arbitrary: s ev rs)
  case (Cons q qs)
  let ?s = "s\<lparr>os := fst q\<rparr>" and ?op = "fst (snd q)" and ?payload = "snd (snd q)"
  obtain r s1 ev1 rs1 where first: "call_in_process lib api h ?op ?payload ?s ev = Ret (r, s1, ev1)"
    and rest: "serve_calls lib api h qs s1 ev1 = Ret (rs1, s', ev')" and rs: "rs = r # rs1"
    using Cons.prems(2) by (auto simp: outcome_inversion)
  have same: "WapcHost_call (wasmtime_engine (wasmtime_with_wasi lib z api)) h ?op ?payload a
      = WapcHost_call (wasmtime_engine (wasmtime_with_wasi lib ?s api)) h ?op ?payload a"
    by (rule same_set_up [OF no_directory_set_up [OF assms(2)]])
  obtain a1 t where a1: "call_in_process lib api h ?op ?payload z a = Ret (r, t, a1)" and eff: "same_effects ev a ev1 a1"
    using isolated_calls [OF assms(1), of ev a "wasmtime_with_wasi lib ?s api" ?op ?payload] Cons.prems(1) first
    unfolding call_in_process_def same
    by (cases "WapcHost_call (wasmtime_engine (wasmtime_with_wasi lib ?s api)) h ?op ?payload a")
       (auto simp: outcome_inversion)
  have "in_runtime a = in_runtime ev1"
    using eff Cons.prems(1) by (auto simp: same_effects_def)
  from Cons.IH [OF this rest] a1 show ?case
    by (auto simp: rs nth_Cons split: nat.splits)
qed simp

end
