(* ===== verification/Wasm3_Provider.thy ===== *)
theory Wasm3_Provider
  imports Host_Calls
begin

text \<open>
  The wasm3 engine provider (\<open>crates/wasm3-provider/src\<close>: \<open>lib.rs\<close>, \<open>callbacks.rs\<close>, \<open>errors.rs\<close>).

  \<^item> The crate is written against an older \<open>wapc\<close>, whose \<open>ModuleState\<close> serves one call at a time, without
    ids, and whose engine trait is \<open>init\<close>, \<open>call\<close> and \<open>replace\<close>. That version is not in the repository:
    the methods the callbacks use are the record \<open>legacy_state\<close>, a parameter. The names of the host
    functions are those of \<open>Wapc_Functions\<close>.
  \<^item> The wasm3 library is the record \<open>wasm3_api\<close>, a parameter: creating an environment and a runtime,
    parsing and loading a module, linking a closure, finding a function of a given type. A loaded
    module has the type \<open>'m\<close>; linking may change it.
  \<^item> The memory of a call context is the memory of the runtime's module, empty when it has none. The
    closures share the module state that was given to \<open>init\<close>; it is passed as an argument.
  \<^item> A panic inside a closure is a panic here; what a panic does when it reaches the C code of wasm3 is
    up to the library.
\<close>

subsection \<open>Errors\<close>

datatype wasm3_error = Wasm3 string

fun wasm3_error_to_string :: "wasm3_error \<Rightarrow> string" where
  "wasm3_error_to_string (Wasm3 m) = ''WASM3: '' @ m"

definition to_wapc :: "dyn_error + 'a \<Rightarrow> wasm3_error + 'a" where
  "to_wapc = map_err Wasm3"

text \<open>\<open>to_wapc()?\<close> in a function that returns a boxed error.\<close>

abbreviation to_wapc_boxed :: "dyn_error + 'a \<Rightarrow> dyn_error + 'a" where
  "to_wapc_boxed r \<equiv> map_err wasm3_error_to_string (to_wapc r)"

subsection \<open>What the crate does not own\<close>

record 's legacy_state =
  ls_get_guest_request :: "'s \<Rightarrow> invocation option"
  ls_get_host_response :: "'s \<Rightarrow> bytes option"
  ls_get_host_error :: "'s \<Rightarrow> string option"
  ls_set_guest_response :: "bytes \<Rightarrow> 's \<Rightarrow> 's"
  ls_set_guest_error :: "string \<Rightarrow> 's \<Rightarrow> 's"
  ls_do_console_log :: "string \<Rightarrow> 's \<Rightarrow> 's"
  ls_do_host_call ::
    "string \<Rightarrow> string \<Rightarrow> string \<Rightarrow> bytes \<Rightarrow> 's \<Rightarrow> ((dyn_error + i32) \<times> 's) outcome"

record ('m, 'g) wasm3_api =
  environment_new :: "dyn_error + unit"
  create_runtime :: "nat \<Rightarrow> dyn_error + unit"
  module_parse :: "bytes \<Rightarrow> dyn_error + 'm"
  load_module :: "'m \<Rightarrow> dyn_error + 'm \<times> 'g winst"
  link_closure :: "string \<Rightarrow> string \<Rightarrow> func_type \<Rightarrow> 'm \<Rightarrow> (dyn_error + unit) \<times> 'm"
  find_starter :: "string \<Rightarrow> 'm \<Rightarrow> dyn_error + ('g, unit) guest_prog"
  find_guest_call :: "string \<Rightarrow> 'm \<Rightarrow> dyn_error + (i32 \<Rightarrow> i32 \<Rightarrow> ('g, i32) guest_prog)"
  runtime_guest_call :: "string \<Rightarrow> 'm \<Rightarrow> dyn_error + (i32 \<Rightarrow> i32 \<Rightarrow> ('g, i32) guest_prog)"
  msg_not_linked :: "host_exports \<Rightarrow> string"

subsection \<open>Guest memory\<close>

text \<open>Two slice operations one after the other: the first checks the pointer, the second the length.\<close>

record ('g, 's) w3_cx =
  w3_inst :: "'g winst"
  w3_host :: 's

definition context_memory :: "('g, 's) w3_cx \<Rightarrow> bytes" where
  "context_memory c = (case wmem (w3_inst c) of Some data \<Rightarrow> data | None \<Rightarrow> [])"

definition set_context_memory :: "bytes \<Rightarrow> ('g, 's) w3_cx \<Rightarrow> ('g, 's) w3_cx" where
  "set_context_memory data c =
     (case wmem (w3_inst c) of
        Some _ \<Rightarrow> c\<lparr>w3_inst := (w3_inst c)\<lparr>wmem := Some data\<rparr>\<rparr>
      | None \<Rightarrow> c)"

definition slice_from :: "u64 \<Rightarrow> bytes \<Rightarrow> bytes outcome" where
  "slice_from k data =
     (if unat k \<le> length data then Ret (drop (unat k) data) else Panic Index_Out_Of_Bounds)"

definition slice_to :: "nat \<Rightarrow> bytes \<Rightarrow> bytes outcome" where
  "slice_to n data = (if n \<le> length data then Ret (take n data) else Panic Index_Out_Of_Bounds)"

definition w3_get_vec_from_memory :: "('g, 's) w3_cx \<Rightarrow> i32 \<Rightarrow> i32 \<Rightarrow> bytes outcome" where
  "w3_get_vec_from_memory c ptr len =
     obind (slice_from (usize_of_i32 ptr) (context_memory c)) (slice_to (unat (usize_of_i32 len)))"

definition w3_write_bytes_to_memory :: "i32 \<Rightarrow> bytes \<Rightarrow> ('g, 's) w3_cx \<Rightarrow> ('g, 's) w3_cx outcome" where
  "w3_write_bytes_to_memory ptr bs c =
     obind (slice_from (usize_of_i32 ptr) (context_memory c)) (\<lambda>rest.
     obind (slice_to (length bs) rest) (\<lambda>_.
       Ret (set_context_memory (overwrite (unat (usize_of_i32 ptr)) bs (context_memory c)) c)))"

definition w3_get_string_from_memory :: "('g, 's) w3_cx \<Rightarrow> i32 \<Rightarrow> i32 \<Rightarrow> string outcome" where
  "w3_get_string_from_memory c ptr len =
     obind (w3_get_vec_from_memory c ptr len) (\<lambda>v. unwrap_result (from_utf8 v))"

subsection \<open>The callbacks\<close>

definition w3_host_call ::
    "'s legacy_state \<Rightarrow> i32 \<Rightarrow> i32 \<Rightarrow> i32 \<Rightarrow> i32 \<Rightarrow> i32 \<Rightarrow> i32 \<Rightarrow> i32 \<Rightarrow> i32 \<Rightarrow> ('g, 's) w3_cx
     \<Rightarrow> (i32 \<times> ('g, 's) w3_cx) outcome" where
  "w3_host_call h bd_ptr bd_len ns_ptr ns_len op_ptr op_len ptr len c =
     obind (w3_get_vec_from_memory c ptr len) (\<lambda>v.
     obind (w3_get_string_from_memory c bd_ptr bd_len) (\<lambda>bd.
     obind (w3_get_string_from_memory c ns_ptr ns_len) (\<lambda>ns.
     obind (w3_get_string_from_memory c op_ptr op_len) (\<lambda>op.
     obind (ls_do_host_call h bd ns op v (w3_host c)) (\<lambda>(result, s).
       Ret (case result of Inr r \<Rightarrow> r | Inl e \<Rightarrow> 0, c\<lparr>w3_host := s\<rparr>))))))"

definition w3_guest_request :: "'s legacy_state \<Rightarrow> i32 \<Rightarrow> i32 \<Rightarrow> ('g, 's) w3_cx \<Rightarrow> ('g, 's) w3_cx outcome" where
  "w3_guest_request h op_ptr ptr c =
     (case ls_get_guest_request h (w3_host c) of
        Some iv \<Rightarrow>
          obind (w3_write_bytes_to_memory ptr (msg iv) c) (w3_write_bytes_to_memory op_ptr (as_bytes (operation iv)))
      | None \<Rightarrow> Ret c)"

definition w3_host_response :: "'s legacy_state \<Rightarrow> i32 \<Rightarrow> ('g, 's) w3_cx \<Rightarrow> ('g, 's) w3_cx outcome" where
  "w3_host_response h ptr c =
     (case ls_get_host_response h (w3_host c) of
        Some r \<Rightarrow> w3_write_bytes_to_memory ptr r c
      | None \<Rightarrow> Ret c)"

definition w3_host_response_length :: "'s legacy_state \<Rightarrow> ('g, 's) w3_cx \<Rightarrow> i32" where
  "w3_host_response_length h c =
     i32_of_len (length (case ls_get_host_response h (w3_host c) of Some r \<Rightarrow> r | None \<Rightarrow> []))"

definition w3_console_log :: "'s legacy_state \<Rightarrow> i32 \<Rightarrow> i32 \<Rightarrow> ('g, 's) w3_cx \<Rightarrow> ('g, 's) w3_cx outcome" where
  "w3_console_log h ptr len c =
     obind (w3_get_string_from_memory c ptr len) (\<lambda>m. Ret (c\<lparr>w3_host := ls_do_console_log h m (w3_host c)\<rparr>))"

definition w3_guest_response :: "'s legacy_state \<Rightarrow> i32 \<Rightarrow> i32 \<Rightarrow> ('g, 's) w3_cx \<Rightarrow> ('g, 's) w3_cx outcome" where
  "w3_guest_response h ptr len c =
     obind (w3_get_vec_from_memory c ptr len) (\<lambda>v. Ret (c\<lparr>w3_host := ls_set_guest_response h v (w3_host c)\<rparr>))"

definition w3_guest_error :: "'s legacy_state \<Rightarrow> i32 \<Rightarrow> i32 \<Rightarrow> ('g, 's) w3_cx \<Rightarrow> ('g, 's) w3_cx outcome" where
  "w3_guest_error h ptr len c =
     obind (w3_get_string_from_memory c ptr len) (\<lambda>e. Ret (c\<lparr>w3_host := ls_set_guest_error h e (w3_host c)\<rparr>))"

definition w3_host_error :: "'s legacy_state \<Rightarrow> i32 \<Rightarrow> ('g, 's) w3_cx \<Rightarrow> ('g, 's) w3_cx outcome" where
  "w3_host_error h ptr c =
     (case ls_get_host_error h (w3_host c) of
        Some e \<Rightarrow> w3_write_bytes_to_memory ptr (as_bytes e) c
      | None \<Rightarrow> Ret c)"

definition w3_host_error_length :: "'s legacy_state \<Rightarrow> ('g, 's) w3_cx \<Rightarrow> i32" where
  "w3_host_error_length h c =
     i32_of_len (length (case ls_get_host_error h (w3_host c) of Some e \<Rightarrow> e | None \<Rightarrow> []))"

subsection \<open>The closures\<close>

text \<open>What a module must import for \<open>init\<close> to succeed, and what only draws a warning.\<close>

datatype on_missing = Warn | Refuse string

definition w3_closures :: "(host_exports \<times> func_type \<times> on_missing) list" where
  "w3_closures =
     [(HostCall, FuncType (i32s 8) [I32], Warn),
      (GuestRequest, FuncType (i32s 2) [],
         Refuse ''Module did not import __guest_request - will not work with waPC''),
      (ConsoleLog, FuncType (i32s 2) [], Warn),
      (HostResponse, FuncType (i32s 1) [], Warn),
      (HostResponseLen, FuncType (i32s 0) [I32], Warn),
      (GuestResponse, FuncType (i32s 2) [], Refuse ''Module did not import __guest_response''),
      (GuestError, FuncType (i32s 2) [], Refuse ''Module did not import __guest_error''),
      (HostError, FuncType (i32s 1) [], Warn),
      (HostErrorLen, FuncType (i32s 0) [I32], Warn)]"

fun link_closures ::
    "('m, 'g) wasm3_api \<Rightarrow> (host_exports \<times> func_type \<times> on_missing) list \<Rightarrow> 'm
     \<Rightarrow> dyn_error + 'm" where
  "link_closures api [] m = Inr m"
| "link_closures api ((e, ty, missing) # cs) m =
     (case link_closure api HOST_NAMESPACE (host_export_name e) ty m of
        (Inr _, m') \<Rightarrow> link_closures api cs m'
      | (Inl _, m') \<Rightarrow>
          (case missing of Refuse text \<Rightarrow> Inl text | Warn \<Rightarrow> link_closures api cs m'))"

definition void :: "'c outcome \<Rightarrow> (i32 option \<times> 'c) outcome" where
  "void r = obind r (\<lambda>c. Ret (None, c))"

text \<open>A closure gets as many parameters as its type has; \<open>None\<close> where there is no such closure.\<close>

fun w3_closure ::
    "'s legacy_state \<Rightarrow> host_exports \<Rightarrow> i32 list \<Rightarrow> ('g, 's) w3_cx
     \<Rightarrow> (i32 option \<times> ('g, 's) w3_cx) outcome option" where
  "w3_closure h HostCall ps c =
     (case ps of
        [bd_ptr, bd_len, ns_ptr, ns_len, op_ptr, op_len, ptr, len] \<Rightarrow>
          Some (obind (w3_host_call h bd_ptr bd_len ns_ptr ns_len op_ptr op_len ptr len c)
            (\<lambda>(r, c'). Ret (Some r, c')))
      | _ \<Rightarrow> None)"
| "w3_closure h GuestRequest ps c =
     (case ps of [op_ptr, ptr] \<Rightarrow> Some (void (w3_guest_request h op_ptr ptr c)) | _ \<Rightarrow> None)"
| "w3_closure h ConsoleLog ps c =
     (case ps of [ptr, len] \<Rightarrow> Some (void (w3_console_log h ptr len c)) | _ \<Rightarrow> None)"
| "w3_closure h HostResponse ps c =
     (case ps of [ptr] \<Rightarrow> Some (void (w3_host_response h ptr c)) | _ \<Rightarrow> None)"
| "w3_closure h HostResponseLen ps c =
     (case ps of [] \<Rightarrow> Some (Ret (Some (w3_host_response_length h c), c)) | _ \<Rightarrow> None)"
| "w3_closure h GuestResponse ps c =
     (case ps of [ptr, len] \<Rightarrow> Some (void (w3_guest_response h ptr len c)) | _ \<Rightarrow> None)"
| "w3_closure h GuestError ps c =
     (case ps of [ptr, len] \<Rightarrow> Some (void (w3_guest_error h ptr len c)) | _ \<Rightarrow> None)"
| "w3_closure h HostError ps c =
     (case ps of [ptr] \<Rightarrow> Some (void (w3_host_error h ptr c)) | _ \<Rightarrow> None)"
| "w3_closure h HostErrorLen ps c =
     (case ps of [] \<Rightarrow> Some (Ret (Some (w3_host_error_length h c), c)) | _ \<Rightarrow> None)"
| "w3_closure h AsyncHostCall ps c = None"
| "w3_closure h GuestResponseReady ps c = None"

primrec run_w3 ::
    "('m, 'g) wasm3_api \<Rightarrow> 's legacy_state \<Rightarrow> ('g, 'r) guest_prog \<Rightarrow> ('g, 's) w3_cx
     \<Rightarrow> ((string + 'r) \<times> ('g, 's) w3_cx) outcome" where
  "run_w3 api h (GRet x) = (\<lambda>c. Ret (Inr x, c))"
| "run_w3 api h (GTrap t) = (\<lambda>c. Ret (Inl t, c))"
| "run_w3 api h (GGet k) = (\<lambda>c. run_w3 api h (k (w3_inst c)) c)"
| "run_w3 api h (GPut i p) = (\<lambda>c. run_w3 api h p (c\<lparr>w3_inst := i\<rparr>))"
| "run_w3 api h (GCall e ps k) = (\<lambda>c.
     case w3_closure h e ps c of
       None \<Rightarrow> Ret (Inl (msg_not_linked api e), c)
     | Some out \<Rightarrow> obind out (\<lambda>(r, c'). run_w3 api h (k r) c'))"

subsection \<open>The provider\<close>

record ('m, 'g) wasm3_provider =
  w3_inner :: "('m \<times> 'g winst) option"
  w3_modbytes :: bytes

definition Wasm3EngineProvider_new :: "bytes \<Rightarrow> ('m, 'g) wasm3_provider" where
  "Wasm3EngineProvider_new buf = \<lparr>w3_inner = None, w3_modbytes = buf\<rparr>"

definition WASI_UNSTABLE :: string where
  "WASI_UNSTABLE = ''wasi_unstable''"

text \<open>The runtime and the module in it.\<close>

definition w3_load :: "('m, 'g) wasm3_api \<Rightarrow> bytes \<Rightarrow> dyn_error + 'm \<times> 'g winst" where
  "w3_load api buf =
     (case to_wapc_boxed (create_runtime api (1024 * 120)) of
        Inl e \<Rightarrow> Inl e
      | Inr _ \<Rightarrow>
          (case to_wapc_boxed (module_parse api buf) of
             Inl e \<Rightarrow> Inl e
           | Inr m \<Rightarrow> to_wapc_boxed (load_module api m)))"

text \<open>The closure of \<open>fd_write\<close> returns 0 and does nothing; a failure to link it is ignored.\<close>

definition w3_link :: "('m, 'g) wasm3_api \<Rightarrow> 'm \<Rightarrow> dyn_error + 'm" where
  "w3_link api m =
     (case link_closures api w3_closures m of
        Inl e \<Rightarrow> Inl e
      | Inr m1 \<Rightarrow>
          (case link_closure api WASI_UNSTABLE ''fd_write'' (FuncType (i32s 4) [I32]) m1 of
             (_, m2) \<Rightarrow>
               (case find_guest_call api GUEST_CALL m2 of
                  Inl _ \<Rightarrow> Inl ''Could not find __guest_call function in WebAssembly module''
                | Inr _ \<Rightarrow> Inr m2)))"

fun w3_starters ::
    "('m, 'g) wasm3_api \<Rightarrow> 's legacy_state \<Rightarrow> 'm \<Rightarrow> string list \<Rightarrow> ('g, 's) w3_cx
     \<Rightarrow> ((dyn_error + unit) \<times> ('g, 's) w3_cx) outcome" where
  "w3_starters api h m [] c = Ret (Inr (), c)"
| "w3_starters api h m (starter # ss) c =
     (case find_starter api starter m of
        Inl _ \<Rightarrow> w3_starters api h m ss c
      | Inr p \<Rightarrow>
          obind (run_w3 api h p c) (\<lambda>(r, c').
            case r of
              Inr _ \<Rightarrow> w3_starters api h m ss c'
            | Inl e \<Rightarrow>
                Ret (Inl (''Failed during starter initialization '' @ [CHR 0x27] @ starter @ [CHR 0x27] @ '': '' @ e), c')))"

definition w3_init ::
    "('m, 'g) wasm3_api \<Rightarrow> 's legacy_state \<Rightarrow> ('m, 'g) wasm3_provider \<Rightarrow> 's
     \<Rightarrow> ((dyn_error + unit) \<times> ('m, 'g) wasm3_provider \<times> 's) outcome" where
  "w3_init api h pr s =
     (case environment_new api of
        Inl e \<Rightarrow> Panic Explicit_Panic
      | Inr _ \<Rightarrow>
          (case w3_load api (w3_modbytes pr) of
             Inl e \<Rightarrow> Ret (Inl e, pr, s)
           | Inr (m0, i) \<Rightarrow>
               (case w3_link api m0 of
                  Inl e \<Rightarrow> Ret (Inl e, pr, s)
                | Inr m \<Rightarrow>
                    obind (w3_starters api h m REQUIRED_STARTS \<lparr>w3_inst = i, w3_host = s\<rparr>) (\<lambda>(r, c).
                      Ret (case r of
                             Inl e \<Rightarrow> (Inl e, pr, w3_host c)
                           | Inr _ \<Rightarrow> (Inr (), pr\<lparr>w3_inner := Some (m, w3_inst c)\<rparr>, w3_host c))))))"

text \<open>A trap of the guest is an error of the call here; the wasmtime provider files it as the call's
  error and returns 0.\<close>

definition w3_call ::
    "('m, 'g) wasm3_api \<Rightarrow> 's legacy_state \<Rightarrow> ('m, 'g) wasm3_provider \<Rightarrow> i32 \<Rightarrow> i32 \<Rightarrow> 's
     \<Rightarrow> ((dyn_error + i32) \<times> ('m, 'g) wasm3_provider \<times> 's) outcome" where
  "w3_call api h pr op_length msg_length s =
     (case w3_inner pr of
        None \<Rightarrow> Ret (Inl ''Module call failure - no module was initialized'', pr, s)
      | Some (m, i) \<Rightarrow>
          (case to_wapc_boxed (runtime_guest_call api GUEST_CALL m) of
             Inl e \<Rightarrow> Ret (Inl e, pr, s)
           | Inr f \<Rightarrow>
               obind (run_w3 api h (f op_length msg_length) \<lparr>w3_inst = i, w3_host = s\<rparr>) (\<lambda>(r, c).
                 Ret (to_wapc_boxed r, pr\<lparr>w3_inner := Some (m, w3_inst c)\<rparr>, w3_host c))))"

definition w3_replace ::
    "('m, 'g) wasm3_provider \<Rightarrow> bytes \<Rightarrow> ((dyn_error + unit) \<times> ('m, 'g) wasm3_provider) outcome" where
  "w3_replace pr buf = Panic Not_Implemented"

end
