(* ===== verification/Wasm3_Calls.thy ===== *)
theory Wasm3_Calls
  imports Wasm3_Provider
begin

text \<open>
  What the wasm3 provider guarantees: exactly which accesses to a guest's memory succeed, that a guest of
  the older protocol that makes no host calls behaves on it as the same guest behaves on the wasmtime
  provider once its call's id is added, and which modules it accepts.
\<close>

subsection \<open>Guest memory\<close>

lemma w3_get_vec_eq:
  assumes "mem_ok (context_memory c)"
  shows "w3_get_vec_from_memory c ptr len =
    (if 0 \<le> sint ptr \<and> 0 \<le> sint len \<and> sint ptr + sint len \<le> int (length (context_memory c))
     then Ret (block (nat (sint ptr)) (nat (sint len)) (context_memory c))
     else Panic Index_Out_Of_Bounds)"
proof -
  have short: "length (context_memory c) < 2 ^ 63"
    using assms by (simp add: mem_ok_def)
  consider "sint ptr < 0" | "0 \<le> sint ptr" "sint len < 0" | "0 \<le> sint ptr" "0 \<le> sint len"
    by linarith
  then show ?thesis
  proof cases
    case 1
    then show ?thesis
      using unat_usize_of_i32_neg [of ptr] short by (simp add: w3_get_vec_from_memory_def slice_from_def)
  next
    case 2
    then show ?thesis
      using unat_usize_of_i32_neg [of len] short
      by (auto simp: w3_get_vec_from_memory_def slice_from_def slice_to_def)
  next
    case 3
    then show ?thesis
      by (auto simp: w3_get_vec_from_memory_def slice_from_def slice_to_def unat_usize_of_i32_nonneg block_def)
  qed
qed

lemma w3_write_eq:
  assumes "mem_ok (context_memory c)"
  shows "w3_write_bytes_to_memory ptr bs c =
    (case write_bytes_to_memory (context_memory c) ptr bs of
       Ret data \<Rightarrow> Ret (set_context_memory data c)
     | _ \<Rightarrow> Panic Index_Out_Of_Bounds)"
proof -
  have short: "length (context_memory c) < 2 ^ 63"
    using assms by (simp add: mem_ok_def)
  show ?thesis
  proof (cases "sint ptr < 0")
    case True
    then show ?thesis
      using unat_usize_of_i32_neg [of ptr] short
      by (simp add: w3_write_bytes_to_memory_def slice_from_def write_bytes_to_memory_def)
  next
    case False
    then show ?thesis
      by (auto simp: w3_write_bytes_to_memory_def slice_from_def slice_to_def write_bytes_to_memory_def
          unat_usize_of_i32_nonneg)
  qed
qed

text \<open>C15: every access of the wasm3 provider to a guest's memory is checked. A read returns exactly for a
  range inside the memory and then returns its bytes, a write exactly for a place where all bytes fit
  and then changes these bytes only, and everything else panics. So where \<open>__guest_request\<close> has
  undefined behaviour on the wasmtime provider, for buffers that do not fit, it panics here.\<close>

theorem wasm3_accesses_checked:
  fixes c :: "('g, 's) w3_cx"
  assumes "wmem (w3_inst c) = Some data" and "mem_ok data"
  shows "w3_get_vec_from_memory c ptr len =
      (if 0 \<le> sint ptr \<and> 0 \<le> sint len \<and> sint ptr + sint len \<le> int (length data)
       then Ret (block (nat (sint ptr)) (nat (sint len)) data) else Panic Index_Out_Of_Bounds)
    \<and> w3_write_bytes_to_memory ptr bs c =
      (if fits data ptr (length bs)
       then Ret (set_context_memory (overwrite (nat (sint ptr)) bs data) c) else Panic Index_Out_Of_Bounds)
    \<and> (ls_get_guest_request h (w3_host c) = Some iv \<longrightarrow>
        w3_guest_request h op_ptr ptr c =
        (if fits data ptr (length (msg iv)) \<and> fits data op_ptr (length (operation iv))
         then Ret (set_context_memory (overwrite (nat (sint op_ptr)) (as_bytes (operation iv))
                (overwrite (nat (sint ptr)) (msg iv) data)) c)
         else Panic Index_Out_Of_Bounds))"
proof (intro conjI impI)
  have memory: "context_memory c = data"
    using assms(1) by (simp add: context_memory_def)
  have checked: "w3_write_bytes_to_memory p v d =
      (if fits (context_memory d) p (length v)
       then Ret (set_context_memory (overwrite (nat (sint p)) v (context_memory d)) d) else Panic Index_Out_Of_Bounds)"
    if "mem_ok (context_memory d)" for p v and d :: "('g, 's) w3_cx"
    using w3_write_eq [OF that, of p v] by (simp add: write_bytes_fits write_bytes_not_fits)
  show "w3_get_vec_from_memory c ptr len =
      (if 0 \<le> sint ptr \<and> 0 \<le> sint len \<and> sint ptr + sint len \<le> int (length data)
       then Ret (block (nat (sint ptr)) (nat (sint len)) data) else Panic Index_Out_Of_Bounds)"
    using w3_get_vec_eq [of c ptr len] assms(2) by (simp add: memory)
  show "w3_write_bytes_to_memory ptr bs c =
      (if fits data ptr (length bs)
       then Ret (set_context_memory (overwrite (nat (sint ptr)) bs data) c) else Panic Index_Out_Of_Bounds)"
    using checked [of c ptr bs] assms(2) by (simp add: memory)
  assume "ls_get_guest_request h (w3_host c) = Some iv"
  moreover have "context_memory (set_context_memory m c) = m" "set_context_memory m' (set_context_memory m c) = set_context_memory m' c" for m m'
    using assms(1) by (simp_all add: context_memory_def set_context_memory_def)
  moreover have "mem_ok (overwrite (nat (sint ptr)) (msg iv) data)" if "fits data ptr (length (msg iv))"
    using that assms(2) by (simp add: fits_def mem_ok_def)
  ultimately show "w3_guest_request h op_ptr ptr c =
        (if fits data ptr (length (msg iv)) \<and> fits data op_ptr (length (operation iv))
         then Ret (set_context_memory (overwrite (nat (sint op_ptr)) (as_bytes (operation iv))
                (overwrite (nat (sint ptr)) (msg iv) data)) c)
         else Panic Index_Out_Of_Bounds)"
    using assms(2) by (simp add: w3_guest_request_def checked memory)
qed

subsection \<open>One guest on two engines\<close>

text \<open>
  The older module state serves one call at a time. What is asked of it here, for a call that makes no
  host calls: its methods do for this call what the methods of the same names do for the call \<open>i\<close> of the
  current module state. \<open>R\<close> relates the older state to the current one and what is printed. A guest of
  the older protocol is a guest of the current one when every function about a call gets the call's id as
  its first argument.
\<close>

definition legacy_matches ::
    "'s legacy_state \<Rightarrow> i32 \<Rightarrow> ('s \<Rightarrow> 'w module_state \<Rightarrow> 'w env \<Rightarrow> bool) \<Rightarrow> bool" where
  "legacy_matches h i R \<longleftrightarrow> (\<forall>s ms ev. R s ms ev \<longrightarrow>
     ls_get_guest_request h s = get_guest_request i ms
     \<and> (\<forall>v. R (ls_set_guest_response h v s) (set_guest_response i v ms) ev)
     \<and> (\<forall>e. R (ls_set_guest_error h e s) (set_guest_error i e ms) ev)
     \<and> (\<forall>m. R (ls_do_console_log h m s) ms (do_console_log m ev)))"

lemma legacy_matchesD:
  assumes "legacy_matches h i R" and "R s ms ev"
  shows "ls_get_guest_request h s = get_guest_request i ms"
    and "R (ls_set_guest_response h v s) (set_guest_response i v ms) ev"
    and "R (ls_set_guest_error h e s) (set_guest_error i e ms) ev"
    and "R (ls_do_console_log h m s) ms (do_console_log m ev)"
  using assms by (simp_all add: legacy_matches_def)

text \<open>The host functions that no host call is involved in.\<close>

abbreviation host_call_fns :: "host_exports set" where
  "host_call_fns \<equiv> {HostCall, AsyncHostCall, HostResponse, HostResponseLen, HostError, HostErrorLen, GuestResponseReady}"

text \<open>What the validation of a module ensures: every import is called with as many arguments as its type has
  parameters.\<close>

primrec validated :: "('g, 'r) guest_prog \<Rightarrow> bool" where
  "validated (GRet x) = True"
| "validated (GTrap t) = True"
| "validated (GGet k) = (\<forall>i. validated (k i))"
| "validated (GPut i p) = validated p"
| "validated (GCall e ps k) = (length ps = length (params (host_export_type e)) \<and> (\<forall>r. validated (k r)))"

definition id_params :: "i32 \<Rightarrow> host_exports \<Rightarrow> i32 list \<Rightarrow> i32 list" where
  "id_params i e ps = (if e \<in> {ConsoleLog, HostCall, AsyncHostCall} then ps else i # ps)"

primrec add_id :: "i32 \<Rightarrow> ('g, 'r) guest_prog \<Rightarrow> ('g, 'r) guest_prog" where
  "add_id i (GRet x) = GRet x"
| "add_id i (GTrap t) = GTrap t"
| "add_id i (GGet k) = GGet (\<lambda>ins. add_id i (k ins))"
| "add_id i (GPut ins p) = GPut ins (add_id i p)"
| "add_id i (GCall e ps k) = GCall e (id_params i e ps) (\<lambda>r. add_id i (k r))"

text \<open>Guests whose memory stays within 32 bits.\<close>

definition wasm32_inst :: "'g winst \<Rightarrow> bool" where
  "wasm32_inst i \<longleftrightarrow> (\<forall>data. wmem i = Some data \<longrightarrow> mem_ok data)"

primrec wasm32 :: "('g, 'r) guest_prog \<Rightarrow> bool" where
  "wasm32 (GRet x) = True"
| "wasm32 (GTrap t) = True"
| "wasm32 (GGet k) = (\<forall>i. wasm32_inst i \<longrightarrow> wasm32 (k i))"
| "wasm32 (GPut i p) = (wasm32_inst i \<and> wasm32 p)"
| "wasm32 (GCall e ps k) = (\<forall>r. wasm32 (k r))"

lemma caller_memory_iff: "get_caller_memory c = Ret data \<longleftrightarrow> wmem (inst c) = Some data"
  by (simp add: get_caller_memory_def)

text \<open>Where a memory access of the wasmtime provider returns, the access of this one returns the same.\<close>

lemma w3_read:
  assumes "wmem i = Some data" and "wasm32_inst i" and "get_vec_from_memory data ptr len = Ret v"
  shows "w3_get_vec_from_memory \<lparr>w3_inst = i, w3_host = s\<rparr> ptr len = Ret v"
  using assms by (auto simp: wasm32_inst_def context_memory_def get_vec_eq w3_get_vec_eq split: if_splits)

lemma w3_read_string:
  assumes "wmem i = Some data" and "wasm32_inst i" and "get_string_from_memory data ptr len = Ret v"
  shows "w3_get_string_from_memory \<lparr>w3_inst = i, w3_host = s\<rparr> ptr len = Ret v"
  using assms(3)
  by (auto simp: get_string_from_memory_def w3_get_string_from_memory_def elim!: obind_RetE
      dest!: w3_read [OF assms(1,2), where s = s])

lemma w3_write:
  assumes "wmem i = Some data" and "wasm32_inst i" and "write_bytes_to_memory data ptr bs = Ret data'"
  shows "w3_write_bytes_to_memory ptr bs \<lparr>w3_inst = i, w3_host = s\<rparr>
      = Ret \<lparr>w3_inst = i\<lparr>wmem := Some data'\<rparr>, w3_host = s\<rparr>"
    and "wasm32_inst (i\<lparr>wmem := Some data'\<rparr>)"
proof -
  have ok: "mem_ok data"
    using assms(1,2) by (simp add: wasm32_inst_def)
  then show "w3_write_bytes_to_memory ptr bs \<lparr>w3_inst = i, w3_host = s\<rparr>
      = Ret \<lparr>w3_inst = i\<lparr>wmem := Some data'\<rparr>, w3_host = s\<rparr>"
    using assms(1,3) by (simp add: w3_write_eq context_memory_def set_context_memory_def)
  show "wasm32_inst (i\<lparr>wmem := Some data'\<rparr>)"
    using assms(3) ok by (auto simp: write_bytes_Ret fits_def wasm32_inst_def mem_ok_def)
qed

lemma with_params_RetE:
  assumes "with_params n ps f = Ret y"
  obtains "n \<le> length ps" and "f (\<lambda>k. ps ! k) = Ret y"
  using assms by (auto simp: with_params_def split: if_splits)

lemma length_three: "length ps = Suc (Suc 0) \<longleftrightarrow> (\<exists>a b. ps = [a, b])"
  by (auto simp: length_Suc_conv)

text \<open>Two engines in the same state of a run.\<close>

definition same_run :: "('s \<Rightarrow> 'w module_state \<Rightarrow> 'w env \<Rightarrow> bool) \<Rightarrow> ('g, 's) w3_cx \<Rightarrow> ('g, 'w) cx \<Rightarrow> bool" where
  "same_run R d c \<longleftrightarrow> w3_inst d = inst c \<and> R (w3_host d) (mstate c) (env c) \<and> wasm32_inst (inst c)"

lemma sim_guest_request:
  assumes h: "legacy_matches h i R" and same: "same_run R d c"
    and run: "linker_guest_request [i, op_ptr, ptr] c = Ret (r, c')"
  shows "\<exists>d'. w3_closure h GuestRequest [op_ptr, ptr] d = Some (Ret (r, d')) \<and> same_run R d' c'"
proof -
  obtain s where d: "d = \<lparr>w3_inst = inst c, w3_host = s\<rparr>" and rel: "R s (mstate c) (env c)" and small: "wasm32_inst (inst c)"
    using same by (cases d) (simp add: same_run_def)
  obtain data where data: "wmem (inst c) = Some data"
    using run by (auto simp: linker_guest_request_def with_params_def caller_memory_iff elim!: obind_RetE)
  show ?thesis
  proof (cases "get_guest_request i (mstate c)")
    case None
    then show ?thesis
      using run legacy_matchesD(1) [OF h rel] same
      by (auto simp: d linker_guest_request_def with_params_def w3_guest_request_def void_def elim!: obind_RetE)
  next
    case (Some iv)
    then obtain data1 data2 where one: "write_bytes_to_memory data ptr (msg iv) = Ret data1"
      and two: "write_bytes_to_memory data1 op_ptr (as_bytes (operation iv)) = Ret data2"
      and r: "r = None" "c' = set_caller_memory data2 c"
      using run data
      by (auto simp: linker_guest_request_def with_params_def get_caller_memory_def elim!: obind_RetE)
    note first = w3_write(1) [OF data small one, where s = s] w3_write(2) [OF data small one]
    note second = w3_write(1) [OF _ first(2) two, where s = s] w3_write(2) [OF _ first(2) two]
    show ?thesis
      using Some first second r legacy_matchesD(1) [OF h rel] rel
      by (simp add: d w3_guest_request_def void_def same_run_def set_caller_memory_def)
  qed
qed

lemma sim_closure:
  assumes h: "legacy_matches h i R" and same: "same_run R d c"
    and run: "linker_fn e (id_params i e ps) c = Ret (r, c')" and e: "e \<notin> host_call_fns"
    and arity: "length (id_params i e ps) = length (params (host_export_type e))"
  shows "\<exists>d'. w3_closure h e ps d = Some (Ret (r, d')) \<and> same_run R d' c'"
proof -
  obtain s where d: "d = \<lparr>w3_inst = inst c, w3_host = s\<rparr>" and rel: "R s (mstate c) (env c)" and small: "wasm32_inst (inst c)"
    using same by (cases d) (simp add: same_run_def)
  have "length ps = Suc (Suc 0)"
    using arity e by (cases e) (simp_all add: id_params_def i32s_def)
  then obtain a b where ps: "ps = [a, b]"
    by (auto simp: length_three)
  show ?thesis
  proof (cases e)
    case ConsoleLog
    then show ?thesis
      using run small legacy_matchesD(4) [OF h rel]
      by (auto simp: ps d id_params_def linker_console_log_def with_params_def w3_console_log_def void_def
          caller_memory_iff w3_read_string same_run_def elim!: obind_RetE)
  next
    case GuestRequest
    then show ?thesis
      using run sim_guest_request [OF h same] by (simp add: ps id_params_def)
  next
    case GuestResponse
    then show ?thesis
      using run small legacy_matchesD(2) [OF h rel]
      by (auto simp: ps d id_params_def linker_guest_response_def with_params_def w3_guest_response_def void_def
          caller_memory_iff w3_read same_run_def elim!: obind_RetE)
  next
    case GuestError
    then show ?thesis
      using run small legacy_matchesD(3) [OF h rel]
      by (auto simp: ps d id_params_def linker_guest_error_def with_params_def w3_guest_error_def void_def
          caller_memory_iff w3_read_string same_run_def elim!: obind_RetE)
  qed (use e in simp_all)
qed

lemma run_w3_sim:
  assumes h: "legacy_matches h i R" and "run_guest (add_id i p) c = Ret (r, c')" and "avoids host_call_fns p"
    and "validated (add_id i p)" and "wasm32 p" and "same_run R d c"
  shows "\<exists>d'. run_w3 api h p d = Ret (r, d') \<and> same_run R d' c'"
  using assms(2-6)
proof (induction p arbitrary: c d)
  case (GGet k)
  have "w3_inst d = inst c" "wasm32_inst (inst c)"
    using GGet.prems(5) by (simp_all add: same_run_def)
  then show ?case
    using GGet.IH [OF rangeI, of "inst c" c d] GGet.prems by simp
next
  case (GPut j p)
  have "same_run R (d\<lparr>w3_inst := j\<rparr>) (c\<lparr>inst := j\<rparr>)"
    using GPut.prems by (simp add: same_run_def)
  then show ?case
    using GPut.IH [of "c\<lparr>inst := j\<rparr>" "d\<lparr>w3_inst := j\<rparr>"] GPut.prems by simp
next
  case (GCall e ps k)
  obtain x c1 where fn: "linker_fn e (id_params i e ps) c = Ret (x, c1)"
    and rest: "run_guest (add_id i (k x)) c1 = Ret (r, c')"
    using GCall.prems(1) by (auto elim!: obind_case_prod_RetE)
  obtain d1 where closure: "w3_closure h e ps d = Some (Ret (x, d1))" and same: "same_run R d1 c1"
    using sim_closure [OF h GCall.prems(5) fn] GCall.prems(2,3) by auto
  show ?case
    using GCall.IH [OF rangeI rest _ _ _ same] GCall.prems(2-4) closure by simp
qed auto

text \<open>C14: a guest of the older protocol that makes no host calls does on wasm3 what the same guest, told the
  id of its call, does on wasmtime, whatever the older module state is, as long as its methods mean what
  those of the current one mean for the call: when a call returns there it returns here, with the same
  memory, related states and the same code. The engines differ in what a trap becomes: wasmtime files its
  text as the error of the call and returns 0, wasm3 returns it as its own error. The guest is one that a
  module's validation accepts, with a 32-bit memory.\<close>

theorem wasm3_agrees_with_wasmtime:
  assumes "w3_inner pr = Some (m, wc_inst wc)" and "runtime_guest_call api GUEST_CALL m = Inr f"
    and "get_func_3_1 (wc_module wc) (guest_export_name GuestCall) = Some (\<lambda>j ol ml. add_id j (f ol ml))"
    and "avoids host_call_fns (f op_length msg_length)" and "validated (add_id i (f op_length msg_length))"
    and "wasm32 (f op_length msg_length)" and "wasm32_inst (wc_inst wc)"
    and "legacy_matches h i R" and "R s ms ev"
    and "wasmtime_call wc i op_length msg_length ms ev = Ret (r, wc', ms', ev')"
  shows "\<exists>q s1 ms1. w3_call api h pr op_length msg_length s
        = Ret (q, pr\<lparr>w3_inner := Some (m, wc_inst wc')\<rparr>, s1)
    \<and> R s1 ms1 ev'
    \<and> ((\<exists>code. q = Inr code \<and> r = Inr code \<and> ms' = ms1)
       \<or> (\<exists>t. q = Inl (''WASM3: '' @ t) \<and> r = Inr 0 \<and> ms' = set_guest_error i t ms1))"
proof -
  let ?c = "\<lparr>inst = wc_inst wc, mstate = ms, env = ev\<rparr>" and ?d = "\<lparr>w3_inst = wc_inst wc, w3_host = s\<rparr>"
  obtain x c where run: "run_guest (add_id i (f op_length msg_length)) ?c = Ret (x, c)"
    and result: "case x of
        Inr code \<Rightarrow> (r, wc', ms', ev') = (Inr code, wc\<lparr>wc_inst := inst c\<rparr>, mstate c, env c)
      | Inl t \<Rightarrow> (r, wc', ms', ev') = (Inr 0, wc\<lparr>wc_inst := inst c\<rparr>, set_guest_error i t (mstate c), env c)"
    using assms(10) by (auto simp: wasmtime_call_def assms(3) [simplified] Let_def elim!: obind_case_prod_RetE split: sum.splits)
  have "same_run R ?d ?c"
    using assms(7,9) by (simp add: same_run_def)
  then obtain d where "run_w3 api h (f op_length msg_length) ?d = Ret (x, d)" and same: "same_run R d c"
    using run_w3_sim [OF assms(8) run assms(4-6)] by blast
  then have "w3_call api h pr op_length msg_length s
      = Ret (to_wapc_boxed x, pr\<lparr>w3_inner := Some (m, inst c)\<rparr>, w3_host d)"
    by (simp add: w3_call_def assms(1,2) to_wapc_def same_run_def)
  then show ?thesis
    using result same by (cases x) (auto simp: to_wapc_def same_run_def)
qed

subsection \<open>Which modules are accepted\<close>

text \<open>Linking a closure fails exactly when the module does not import it with its type, and changes
  nothing about what the module imports.\<close>

definition links_imports ::
    "('m, 'g) wasm3_api \<Rightarrow> ('m \<Rightarrow> string \<times> string \<Rightarrow> func_type \<Rightarrow> bool) \<Rightarrow> bool" where
  "links_imports api imports \<longleftrightarrow>
     (\<forall>ns name ty m. isl (fst (link_closure api ns name ty m)) = (\<not> imports m (ns, name) ty)
        \<and> imports (snd (link_closure api ns name ty m)) = imports m)"

definition imports_pair :: "('m \<Rightarrow> string \<times> string \<Rightarrow> func_type \<Rightarrow> bool) \<Rightarrow> 'm \<Rightarrow> string \<Rightarrow> bool" where
  "imports_pair imports m name \<longleftrightarrow> imports m (HOST_NAMESPACE, name) (FuncType (i32s 2) [])"

lemma link_closures_Warn:
  "link_closures api ((e, ty, Warn) # cs) m =
     link_closures api cs (snd (link_closure api HOST_NAMESPACE (host_export_name e) ty m))"
  by (cases "link_closure api HOST_NAMESPACE (host_export_name e) ty m") (auto split: sum.splits)

lemma link_closures_Refuse:
  assumes "links_imports api imports"
  shows "link_closures api ((e, ty, Refuse t) # cs) m =
     (if imports m (HOST_NAMESPACE, host_export_name e) ty
      then link_closures api cs (snd (link_closure api HOST_NAMESPACE (host_export_name e) ty m))
      else Inl t)"
proof -
  have "isl (fst (link_closure api HOST_NAMESPACE (host_export_name e) ty m))
      = (\<not> imports m (HOST_NAMESPACE, host_export_name e) ty)"
    using assms by (simp add: links_imports_def)
  then show ?thesis
    by (cases "link_closure api HOST_NAMESPACE (host_export_name e) ty m") (auto split: sum.splits)
qed

lemma link_all_closures:
  assumes "links_imports api imports"
  shows "\<exists>m'. imports m' = imports m \<and> link_closures api w3_closures m =
    (if \<not> imports_pair imports m GUEST_REQUEST_FN
     then Inl ''Module did not import __guest_request - will not work with waPC''
     else if \<not> imports_pair imports m GUEST_RESPONSE_FN then Inl ''Module did not import __guest_response''
     else if \<not> imports_pair imports m GUEST_ERROR_FN then Inl ''Module did not import __guest_error''
     else Inr m')"
proof -
  have keep: "imports (snd (link_closure api ns name ty m)) = imports m" for ns name ty m
    using assms by (simp add: links_imports_def)
  show ?thesis
    unfolding w3_closures_def
    by (simp add: link_closures_Warn link_closures_Refuse [OF assms] keep imports_pair_def
        del: link_closures.simps(2)) blast
qed

text \<open>Once a module is parsed and loaded, \<open>init\<close> fails with the matching text when the module does not
  import \<open>__guest_request\<close>, \<open>__guest_response\<close> or \<open>__guest_error\<close> with the right types or does not
  export \<open>__guest_call\<close>, without having run any of its code; whatever else it does not import is no
  reason to fail. Otherwise the start functions it exports run, and only if they all return is the
  module kept and later calls served.\<close>

theorem wasm3_init_outcome:
  assumes "links_imports api imports" and "environment_new api = Inr ()"
    and "w3_load api (w3_modbytes pr) = Inr (m, i)"
  shows "\<exists>m'. imports m' = imports m
    \<and> (\<not> imports_pair imports m GUEST_REQUEST_FN \<longrightarrow>
         w3_init api h pr s = Ret (Inl ''Module did not import __guest_request - will not work with waPC'', pr, s))
    \<and> (imports_pair imports m GUEST_REQUEST_FN \<and> \<not> imports_pair imports m GUEST_RESPONSE_FN \<longrightarrow>
         w3_init api h pr s = Ret (Inl ''Module did not import __guest_response'', pr, s))
    \<and> (imports_pair imports m GUEST_REQUEST_FN \<and> imports_pair imports m GUEST_RESPONSE_FN
         \<and> \<not> imports_pair imports m GUEST_ERROR_FN \<longrightarrow>
         w3_init api h pr s = Ret (Inl ''Module did not import __guest_error'', pr, s))
    \<and> (imports_pair imports m GUEST_REQUEST_FN \<and> imports_pair imports m GUEST_RESPONSE_FN
         \<and> imports_pair imports m GUEST_ERROR_FN \<longrightarrow>
         (if isl (find_guest_call api GUEST_CALL m')
          then w3_init api h pr s
            = Ret (Inl ''Could not find __guest_call function in WebAssembly module'', pr, s)
          else \<forall>r c. w3_starters api h m' REQUIRED_STARTS \<lparr>w3_inst = i, w3_host = s\<rparr> = Ret (r, c) \<longrightarrow>
            w3_init api h pr s
              = Ret (r, if isl r then pr else pr\<lparr>w3_inner := Some (m', w3_inst c)\<rparr>, w3_host c)))"
proof -
  obtain m1 where m1: "imports m1 = imports m"
    and linked: "link_closures api w3_closures m =
    (if \<not> imports_pair imports m GUEST_REQUEST_FN
     then Inl ''Module did not import __guest_request - will not work with waPC''
     else if \<not> imports_pair imports m GUEST_RESPONSE_FN then Inl ''Module did not import __guest_response''
     else if \<not> imports_pair imports m GUEST_ERROR_FN then Inl ''Module did not import __guest_error''
     else Inr m1)"
    using link_all_closures [OF assms(1)] by metis
  let ?m' = "snd (link_closure api WASI_UNSTABLE ''fd_write'' (FuncType (i32s 4) [I32]) m1)"
  have "imports ?m' = imports m"
    using assms(1) m1 by (simp add: links_imports_def)
  then show ?thesis
    by (intro exI [of _ ?m'])
       (auto simp: w3_init_def assms(2,3) w3_link_def linked case_prod_unfold isl_def split: sum.splits)
qed

subsection \<open>A module on wasm3\<close>

text \<open>A module is the list of its imports; its guest answers a call with two bytes of its memory.\<close>

definition listed_api :: "((string \<times> string) list, unit) wasm3_api" where
  "listed_api =
     \<lparr>environment_new = Inr (), create_runtime = (\<lambda>_. Inr ()),
      module_parse = (\<lambda>_. Inr [(''wapc'', ''__guest_request''), (''wapc'', ''__guest_response'')]),
      load_module = (\<lambda>m. Inr (m, \<lparr>wmem = Some sample_mem, wstate = ()\<rparr>)),
      link_closure = (\<lambda>ns name ty m. (if (ns, name) \<in> set m then Inr () else Inl ''not found'', m)),
      find_starter = (\<lambda>_ _. Inl ''not found''),
      find_guest_call = (\<lambda>_ _. Inr (\<lambda>_ _. GCall GuestResponse [4, 2] (\<lambda>_. GRet 1))),
      runtime_guest_call = (\<lambda>_ _. Inr (\<lambda>_ _. GCall GuestResponse [4, 2] (\<lambda>_. GRet 1))),
      msg_not_linked = (\<lambda>_. ''missing import'')\<rparr>"

definition listed_provider :: "((string \<times> string) list, unit) wasm3_provider" where
  "listed_provider = (Wasm3EngineProvider_new [])\<lparr>w3_inner := Some ([], m_instance answering_module)\<rparr>"

definition silent_state :: "unit legacy_state" where
  "silent_state =
     \<lparr>ls_get_guest_request = (\<lambda>_. None), ls_get_host_response = (\<lambda>_. None), ls_get_host_error = (\<lambda>_. None),
      ls_set_guest_response = (\<lambda>_ s. s), ls_set_guest_error = (\<lambda>_ s. s), ls_do_console_log = (\<lambda>_ s. s),
      ls_do_host_call = (\<lambda>_ _ _ _ s. Ret (Inl ''no host'', s))\<rparr>"

text \<open>A memory of sixteen bytes: a range inside, one that ends outside, a negative pointer, a write past the end.\<close>

theorem wasm3_accesses_checked_witness:
  "w3_get_vec_from_memory \<lparr>w3_inst = m_instance answering_module, w3_host = ()\<rparr> 4 2 = Ret [0, 0]
   \<and> w3_get_vec_from_memory \<lparr>w3_inst = m_instance answering_module, w3_host = ()\<rparr> 15 2 = Panic Index_Out_Of_Bounds
   \<and> w3_get_vec_from_memory \<lparr>w3_inst = m_instance answering_module, w3_host = ()\<rparr> (- 1) 2 = Panic Index_Out_Of_Bounds
   \<and> w3_write_bytes_to_memory 15 [1, 2] \<lparr>w3_inst = m_instance answering_module, w3_host = ()\<rparr> = Panic Index_Out_Of_Bounds"
proof -
  have mem: "wmem (w3_inst \<lparr>w3_inst = m_instance answering_module, w3_host = ()\<rparr>) = Some sample_mem"
    by (simp add: answering_module_def rude_module_def)
  have "block 4 2 sample_mem = [0, 0]"
    by (simp add: sample_mem_def block_def numeral_eq_Suc)
  then show ?thesis
    using wasm3_accesses_checked [OF mem sample_mem_ok(1), of 4 2]
      wasm3_accesses_checked [OF mem sample_mem_ok(1), where ptr = 15 and bs = "[1, 2]"]
      wasm3_accesses_checked [OF mem sample_mem_ok(1), of 15 2]
      wasm3_accesses_checked [OF mem sample_mem_ok(1), of "- 1" 2]
    by (simp add: fits_def)
qed

text \<open>An older module state with one slot for each thing it keeps of its call.\<close>

record one_call =
  oc_request :: "invocation option"
  oc_response :: "bytes option"
  oc_error :: "string option"
  oc_printed :: "string list"

definition one_call_state :: "one_call legacy_state" where
  "one_call_state =
     \<lparr>ls_get_guest_request = oc_request, ls_get_host_response = (\<lambda>_. None), ls_get_host_error = (\<lambda>_. None),
      ls_set_guest_response = (\<lambda>v s. s\<lparr>oc_response := Some v\<rparr>),
      ls_set_guest_error = (\<lambda>e s. s\<lparr>oc_error := Some e\<rparr>),
      ls_do_console_log = (\<lambda>m s. s\<lparr>oc_printed := oc_printed s @ [m]\<rparr>),
      ls_do_host_call = (\<lambda>_ _ _ _ s. Ret (Inl ''no host'', s))\<rparr>"

definition one_call_of :: "i32 \<Rightarrow> one_call \<Rightarrow> 'w module_state \<Rightarrow> 'w env \<Rightarrow> bool" where
  "one_call_of i s ms ev \<longleftrightarrow> (\<exists>c. calls ms i = Some c \<and> oc_request s = guest_request c
     \<and> oc_response s = guest_response c \<and> oc_error s = guest_error c) \<and> oc_printed s = stdout ev"

lemma one_call_matches: "legacy_matches one_call_state i (one_call_of i)"
  by (auto simp: legacy_matches_def one_call_state_def one_call_of_def get_guest_request_def set_guest_response_def
      set_guest_error_def calls_update_call do_console_log_def)

theorem wasm3_agrees_with_wasmtime_witness:
  "\<exists>s. w3_call listed_api one_call_state listed_provider 4 3
        \<lparr>oc_request = Some sample_invocation, oc_response = None, oc_error = None, oc_printed = []\<rparr>
      = Ret (Inr 1, listed_provider, s)
    \<and> oc_response s = Some [0, 0]"
proof -
  let ?wc = "\<lparr>wc_module = answering_module, wc_inst = m_instance answering_module\<rparr>"
  let ?f = "\<lambda>_ _. GCall GuestResponse [4, 2] (\<lambda>_. GRet 1)"
  let ?s = "\<lparr>oc_request = Some sample_invocation, oc_response = None, oc_error = None, oc_printed = []\<rparr>"
  let ?ms = "set_guest_response 1 [0, 0] sample_state"
  have inner: "w3_inner listed_provider = Some ([], wc_inst ?wc)"
    and fn: "runtime_guest_call listed_api GUEST_CALL [] = Inr ?f"
    and same: "listed_provider\<lparr>w3_inner := Some ([], m_instance answering_module)\<rparr> = listed_provider"
    by (simp_all add: listed_provider_def listed_api_def)
  have call: "get_func_3_1 (wc_module ?wc) (guest_export_name GuestCall) = Some (\<lambda>j ol ml. add_id j (?f ol ml))"
    by (simp add: answering_module_def get_func_3_1_def guest_name_defs id_params_def)
  have guest: "avoids host_call_fns (?f (4 :: i32) (3 :: i32))"
      "validated (add_id 1 (?f (4 :: i32) (3 :: i32)))" "wasm32 (?f (4 :: i32) (3 :: i32))"
    by (simp_all add: id_params_def i32s_def)
  have small: "wasm32_inst (wc_inst ?wc)"
    using sample_mem_ok by (simp add: wasm32_inst_def answering_module_def rude_module_def)
  have first: "one_call_of 1 ?s sample_state sample_env"
    by (simp add: one_call_of_def sample_defs sample_env_def)
  have run: "wasmtime_call ?wc 1 4 3 sample_state sample_env = Ret (Inr 1, ?wc, ?ms, sample_env)"
    using call
    by (simp add: wasmtime_call_def id_params_def linker_guest_response_def with_params_def get_caller_memory_def
        answering_module_def rude_module_def read_sample_mem)
  have "guest_response (the (calls ?ms 1)) = Some [0, 0]"
    by (simp add: sample_defs)
  then show ?thesis
    using wasm3_agrees_with_wasmtime [OF inner fn call guest small one_call_matches first run] same
    by (auto simp: one_call_of_def)
qed

theorem wasm3_init_outcome_witness:
  "w3_init listed_api silent_state (Wasm3EngineProvider_new [0]) ()
    = Ret (Inl ''Module did not import __guest_error'', Wasm3EngineProvider_new [0], ())"
proof -
  have links: "links_imports listed_api (\<lambda>m key _. key \<in> set m)"
    by (simp add: links_imports_def listed_api_def)
  have env: "environment_new listed_api = Inr ()"
    by (simp add: listed_api_def)
  have load: "w3_load listed_api (w3_modbytes (Wasm3EngineProvider_new [0])) =
      Inr ([(''wapc'', ''__guest_request''), (''wapc'', ''__guest_response'')], \<lparr>wmem = Some sample_mem, wstate = ()\<rparr>)"
    by (simp add: w3_load_def listed_api_def to_wapc_def)
  show ?thesis
    using wasm3_init_outcome [OF links env load, of silent_state "()"]
    by (simp add: imports_pair_def HOST_NAMESPACE_def host_name_defs)
qed

end
