(* ===== verification/Host_Ids.thy ===== *)
theory Host_Ids
  imports Call_Isolation
begin

text \<open>
  The ids of hosts and contexts. They come from two global counters, so they are distinct as long as these do
  not wrap around; but a host's id reaches only the log. What a call does, its host callbacks included,
  is the same under every id: the callback is given the id of the host call, which starts from 1 in
  every call.
\<close>

subsection \<open>Distinct ids\<close>

primrec new_hosts ::
    "('e, 'c, 'w) engine_provider \<Rightarrow> ('e \<times> 'w host_callback option \<times> 'w host_callback option) list \<Rightarrow> 'w env
     \<Rightarrow> ((wapc_error + ('e, 'w) wapc_host) list \<times> 'w env) outcome" where
  "new_hosts pr [] ev = Ret ([], ev)"
| "new_hosts pr (x # xs) ev =
     obind (WapcHost_new pr (fst x) (fst (snd x)) (snd (snd x)) ev) (\<lambda>(r, ev1).
     obind (new_hosts pr xs ev1) (\<lambda>(rs, ev2). Ret (r # rs, ev2)))"

lemma WapcHost_new_id:
  assumes "WapcHost_new pr e sync async ev = Ret (r, ev')"
  shows "module_count ev' = module_count ev + 1" and "r = Inr h \<Longrightarrow> WapcHost_id h = module_count ev"
  using assms
  by (auto simp: WapcHost_new_def next_id_def initialize_def Let_def WapcHost_id_def outcome_inversion map_err_def
      split: sum.splits)

lemma new_hosts_ids:
  assumes "new_hosts pr xs ev = Ret (rs, ev')"
  shows "length rs = length xs
    \<and> (\<forall>i h. i < length xs \<and> rs ! i = Inr h \<longrightarrow> WapcHost_id h = module_count ev + of_nat i)"
  using assms
proof (induction xs arbitrary: ev rs)
  case (Cons x xs)
  from Cons.prems obtain r ev1 rs1 where first: "WapcHost_new pr (fst x) (fst (snd x)) (snd (snd x)) ev = Ret (r, ev1)"
    and rest: "new_hosts pr xs ev1 = Ret (rs1, ev')" and rs: "rs = r # rs1"
    by (auto simp: outcome_inversion)
  from Cons.IH [OF rest] WapcHost_new_id [OF first] rs show ?case
    by (auto simp: nth_Cons' less_Suc_eq_0_disj)
qed simp

text \<open>Hosts made one after the other, up to 2 ^ 64 of them, have different ids.\<close>

lemma host_ids_distinct:
  assumes "new_hosts pr xs ev = Ret (rs, ev')" and "length xs \<le> 2 ^ 64"
    and "i < length xs" "j < length xs" "i \<noteq> j" and "rs ! i = Inr h" "rs ! j = Inr h'"
  shows "WapcHost_id h \<noteq> WapcHost_id h'"
proof
  assume "WapcHost_id h = WapcHost_id h'"
  then have "(of_nat i :: u64) = of_nat j"
    using new_hosts_ids [OF assms(1)] assms(3-7) by simp
  then have "unat (of_nat i :: u64) = unat (of_nat j :: u64)"
    by simp
  then show False
    using assms(2-5) by (simp add: unat_of_nat)
qed

subsection \<open>What a call makes of its host's id\<close>

text \<open>Two states of a run under two ids.\<close>

definition with_id :: "u64 \<Rightarrow> 'w module_state \<Rightarrow> 'w module_state" where
  "with_id k ms = ms\<lparr>module_id := k\<rparr>"

lemma with_id_simps [simp]:
  "calls (with_id k ms) = calls ms" "sync_hostcall (with_id k ms) = sync_hostcall ms"
  "call_index (with_id k ms) = call_index ms" "oneshots (with_id k ms) = oneshots ms"
  "(with_id k ms)\<lparr>calls := c\<rparr> = with_id k (ms\<lparr>calls := c\<rparr>)"
  "(with_id k ms)\<lparr>call_index := i\<rparr> = with_id k (ms\<lparr>call_index := i\<rparr>)"
  "(with_id k ms)\<lparr>oneshots := os\<rparr> = with_id k (ms\<lparr>oneshots := os\<rparr>)"
  by (simp_all add: with_id_def)

lemma update_with_id [simp]:
  "oneshot_resolve tx v (with_id k ms) = with_id k (oneshot_resolve tx v ms)"
  "update_call i f (with_id k ms) = with_id k (update_call i f ms)"
  by (simp_all add: oneshot_resolve_def update_call_def split: option.splits)

lemma insert_with_id [simp]:
  "calls_insert i cs (with_id k ms) = with_id k (calls_insert i cs ms)"
  "init_host_call i (with_id k ms) = with_id k (init_host_call i ms)"
  "drop_call_state cs (with_id k ms) = with_id k (drop_call_state cs ms)"
  by (simp_all add: calls_insert_def init_host_call_def drop_call_state_def Let_def split: option.splits)

lemma read_with_id [simp]:
  "get_guest_request i (with_id k ms) = get_guest_request i ms"
  "get_host_response i (with_id k ms) = get_host_response i ms"
  "get_host_error i (with_id k ms) = get_host_error i ms"
  by (simp_all add: get_guest_request_def get_host_response_def get_host_error_def)

lemma finish_with_id [simp]:
  "finish_guest_invocation i code (with_id k ms) = map_outcome (with_id k) (finish_guest_invocation i code ms)"
  by (auto simp: finish_guest_invocation_def oneshot_send_def Let_def unwrap_def split: option.splits)

lemma record_with_id [simp]:
  "record_host_result i r (with_id k ms) = map_prod id (with_id k) (record_host_result i r ms)"
  by (simp add: record_host_result_def split: sum.splits)

lemma host_call_with_id [simp]:
  "do_host_call bd ns op v (with_id k ms) w = map_outcome (\<lambda>(r, ms, w). (r, with_id k ms, w)) (do_host_call bd ns op v ms w)"
  "do_async_host_call bd ns op v rt (with_id k ms) =
     map_outcome (\<lambda>(r, t, ms). (r, t, with_id k ms)) (do_async_host_call bd ns op v rt ms)"
proof -
  have obind_map: "obind m (\<lambda>x. Ret (f x)) = map_outcome f m" for f :: "'x \<Rightarrow> 'y" and m
    by (cases m) simp_all
  show "do_host_call bd ns op v (with_id k ms) w = map_outcome (\<lambda>(r, ms, w). (r, with_id k ms, w)) (do_host_call bd ns op v ms w)"
    by (simp add: do_host_call_def next_call_index_def Let_def case_prod_unfold obind_map outcome.map_comp o_def)
  show "do_async_host_call bd ns op v rt (with_id k ms) =
     map_outcome (\<lambda>(r, t, ms). (r, t, with_id k ms)) (do_async_host_call bd ns op v rt ms)"
    by (simp add: do_async_host_call_def next_call_index_def Let_def)
qed

lemma set_guest_with_id [simp]:
  "set_guest_response i v (with_id k ms) = with_id k (set_guest_response i v ms)"
  "set_guest_error i t (with_id k ms) = with_id k (set_guest_error i t ms)"
  by (simp_all add: set_guest_response_def set_guest_error_def)

definition cx_with_id :: "u64 \<Rightarrow> ('g, 'w) cx \<Rightarrow> ('g, 'w) cx" where
  "cx_with_id k c = c\<lparr>mstate := with_id k (mstate c)\<rparr>"

lemma linker_fn_with_id:
  "linker_fn e ps (cx_with_id k c) = map_outcome (map_prod id (cx_with_id k)) (linker_fn e ps c)"
proof -
  have map_obind: "map_outcome f (obind m g) = obind m (\<lambda>x. map_outcome f (g x))" for f :: "'x \<Rightarrow> 'y" and m and g :: "'z \<Rightarrow> 'x outcome"
    by (cases m) simp_all
  have obind_map: "obind (map_outcome f m) g = obind m (\<lambda>x. g (f x))" for f :: "'x \<Rightarrow> 'y" and m and g :: "'y \<Rightarrow> 'z outcome"
    by (cases m) simp_all
  have params: "map_outcome f (with_params n ps g) = with_params n ps (\<lambda>p. map_outcome f (g p))" for f :: "'x \<Rightarrow> 'y" and n g
    by (simp add: with_params_def)
  note map_case = option.case_distrib [of "map_outcome (map_prod id (cx_with_id k))"]
  show ?thesis
    by (cases c; cases e)
       (simp_all add: cx_with_id_def linker_console_log_def linker_guest_request_def linker_host_call_def
        linker_async_host_call_def linker_host_response_def linker_host_response_len_def
        linker_guest_response_ready_def linker_guest_response_def linker_guest_error_def
        linker_host_error_def linker_host_error_len_def params map_obind obind_map get_caller_memory_def Let_def
        set_caller_memory_def case_prod_unfold map_case cong: option.case_cong)
qed

lemma run_guest_with_id:
  "run_guest p (cx_with_id k c) = map_outcome (map_prod id (cx_with_id k)) (run_guest p c)"
proof (induction p arbitrary: c)
  case (GPut i p)
  have "(cx_with_id k c)\<lparr>inst := i\<rparr> = cx_with_id k (c\<lparr>inst := i\<rparr>)"
    by (simp add: cx_with_id_def)
  then show ?case
    using GPut by simp
next
  case (GCall e ps f)
  show ?case
    by (cases "linker_fn e ps c") (auto simp: linker_fn_with_id GCall)
qed (simp_all add: cx_with_id_def)

text \<open>The same for the methods of the engine and the host; \<open>under_id k\<close> changes the state in a result.\<close>

abbreviation under_id :: "u64 \<Rightarrow> ('r \<times> 'w module_state \<times> 'w env) outcome \<Rightarrow> ('r \<times> 'w module_state \<times> 'w env) outcome" where
  "under_id k \<equiv> map_outcome (\<lambda>(r, ms, ev). (r, with_id k ms, ev))"

abbreviation context_under_id ::
    "u64 \<Rightarrow> ('r \<times> 'c \<times> 'w module_state \<times> 'w env) outcome \<Rightarrow> ('r \<times> 'c \<times> 'w module_state \<times> 'w env) outcome" where
  "context_under_id k \<equiv> map_outcome (\<lambda>(r, x, ms, ev). (r, x, with_id k ms, ev))"

lemma run_from_with_id:
  "run_guest p \<lparr>inst = i, mstate = with_id k ms, env = ev\<rparr> =
     map_outcome (map_prod id (cx_with_id k)) (run_guest p \<lparr>inst = i, mstate = ms, env = ev\<rparr>)"
  using run_guest_with_id [of p k "\<lparr>inst = i, mstate = ms, env = ev\<rparr>"] by (simp add: cx_with_id_def)

lemma cx_with_id_simps [simp]:
  "inst (cx_with_id k c) = inst c" "mstate (cx_with_id k c) = with_id k (mstate c)" "env (cx_with_id k c) = env c"
  by (simp_all add: cx_with_id_def)

lemma new_context_with_id:
  "wasmtime_new_context api p (with_id k ms) ev = under_id k (wasmtime_new_context api p ms ev)"
proof -
  have inst: "instantiate api l m (with_id k ms) ev = under_id k (instantiate api l m ms ev)" for l m
  proof (cases "m_start m")
    case (Some q)
    then show ?thesis
      by (cases "run_guest q \<lparr>inst = m_instance m, mstate = ms, env = ev\<rparr>")
         (auto simp: instantiate_def run_from_with_id split: sum.splits)
  qed (simp add: instantiate_def)
  have "WasmtimeCallContext_new api l m (with_id k ms) ev = under_id k (WasmtimeCallContext_new api l m ms ev)" for l m
    by (cases "add_to_linker api l"; cases "instantiate api (projr (add_to_linker api l)) m ms ev")
       (auto simp: WasmtimeCallContext_new_def inst split: sum.splits option.splits)
  then show ?thesis
    by (cases "WasmtimeCallContext_new api (wp_linker p) (wp_module p) ms ev")
       (auto simp: wasmtime_new_context_def split: sum.splits)
qed

lemma starters_with_id:
  "run_starters ss wc (with_id k ms) ev = context_under_id k (run_starters ss wc ms ev)"
proof (induction ss arbitrary: wc ms ev)
  case (Cons s ss)
  show ?case
  proof (cases "get_func_0_0 (wc_module wc) s")
    case (Some q)
    then show ?thesis
      by (cases "run_guest q \<lparr>inst = wc_inst wc, mstate = ms, env = ev\<rparr>")
         (auto simp: Let_def run_from_with_id Cons split: sum.splits)
  qed (simp add: Cons)
qed simp

lemma open_with_id:
  "WapcCallContext_new (wasmtime_engine api) wc (with_id k ms) ev =
     under_id k (WapcCallContext_new (wasmtime_engine api) wc ms ev)"
  by (cases "run_starters REQUIRED_STARTS wc ms (ev\<lparr>context_count := context_count ev + 1\<rparr>)")
     (auto simp: WapcCallContext_new_def Let_def wasmtime_context_init_def starters_with_id split: sum.splits)

lemma new_invocation_with_id:
  "new_invocation iv (with_id k ms) = (case new_invocation iv ms of (i, rx, ms') \<Rightarrow> (i, rx, with_id k ms'))"
  by (simp add: new_invocation_def next_call_index_def oneshot_channel_def Let_def)

lemma guest_call_with_id:
  "wasmtime_call wc i ol ml (with_id k ms) ev = context_under_id k (wasmtime_call wc i ol ml ms ev)"
proof (cases "get_func_3_1 (wc_module wc) (guest_export_name GuestCall)")
  case (Some f)
  then show ?thesis
    by (cases "run_guest (f i ol ml) \<lparr>inst = wc_inst wc, mstate = ms, env = ev\<rparr>")
       (auto simp: wasmtime_call_def Let_def run_from_with_id split: sum.splits)
qed (simp add: wasmtime_call_def)

lemma context_call_with_id:
  "WapcCallContext_call (wasmtime_engine api) cc op payload (with_id k ms) ev =
     context_under_id k (WapcCallContext_call (wasmtime_engine api) cc op payload ms ev)"
proof -
  let ?iv = "Invocation_new op payload"
  obtain i rx ms1 where ni: "new_invocation ?iv ms = (i, rx, ms1)"
    by (cases "new_invocation ?iv ms")
  show ?thesis
    by (cases "wasmtime_call (wcc_context cc) i (i32_of_len (length (operation ?iv))) (i32_of_len (length (msg ?iv))) ms1 ev")
       (auto simp: WapcCallContext_call_def Let_def ni new_invocation_with_id guest_call_with_id
          take_state_def unwrap_def split: sum.splits option.splits)
qed

lemma call_with_id:
  fixes h :: "('g wasmtime_provider, 'w) wapc_host"
  shows "WapcHost_call (wasmtime_engine api) (h\<lparr>host_id := k\<rparr>) op payload ev = WapcHost_call (wasmtime_engine api) h op payload ev"
proof -
  let ?ms = "ModuleState_new (host_sync_hostcall h) (host_async_hostcall h) (host_id h)"
  have ms: "ModuleState_new (host_sync_hostcall h) (host_async_hostcall h) k = with_id k ?ms"
    by (simp add: ModuleState_new_def with_id_def)
  let ?call = "\<lambda>cc (ms, ev). obind (WapcCallContext_call (wasmtime_engine api) cc op payload ms ev)
      (\<lambda>(r, cc', ms', ev'). Ret (wrap_call_error r, ev'))"
  have call: "?call cc (with_id k ms, ev) = ?call cc (ms, ev)" for cc ms and ev :: "'w env"
    by (cases "WapcCallContext_call (wasmtime_engine api) cc op payload ms ev") (auto simp: context_call_with_id)
  let ?run = "\<lambda>wc (ms, ev). obind (WapcCallContext_new (wasmtime_engine api) wc ms ev)
      (\<lambda>(rcc, ms', ev'). case rcc of Inl e \<Rightarrow> Ret (Inl e, ev') | Inr cc \<Rightarrow> ?call cc (ms', ev'))"
  have run: "?run wc (with_id k ms, ev) = ?run wc (ms, ev)" for wc ms and ev :: "'w env"
    using call by (cases "WapcCallContext_new (wasmtime_engine api) wc ms ev") (auto simp: open_with_id split: sum.splits)
  have new: "obind (wasmtime_new_context api (engine h) (with_id k ?ms) ev)
      (\<lambda>(rc, ms', ev'). case rc of Inl e \<Rightarrow> Ret (Inl (Context e), ev') | Inr wc \<Rightarrow> ?run wc (ms', ev'))
    = obind (wasmtime_new_context api (engine h) ?ms ev)
      (\<lambda>(rc, ms', ev'). case rc of Inl e \<Rightarrow> Ret (Inl (Context e), ev') | Inr wc \<Rightarrow> ?run wc (ms', ev'))"
    using run by (cases "wasmtime_new_context api (engine h) ?ms ev") (auto simp: new_context_with_id split: sum.splits)
  then show ?thesis
    unfolding prod.case by (simp add: WapcHost_call_def Let_def ms)
qed

text \<open>C22: hosts made one after the other have different ids (\<open>host_ids_distinct\<close>), but nothing that a call does depends on the id of its
  host: with any other id it ends with the same reply, the same effect on the embedder's world, the
  same output and tasks, or the same panic. So the host callback, contrary to what the documentation
  of \<open>WapcHost::id\<close> promises, is told nothing that sets one host apart from another.\<close>

theorem host_id_unobservable:
  "WapcHost_call (wasmtime_engine api) (h\<lparr>host_id := k\<rparr>) op payload ev = WapcHost_call (wasmtime_engine api) h op payload ev"
  by (rule call_with_id)

end
