(* ===== verification/Host_Pool.thy ===== *)
theory Host_Pool
  imports Wapc_Errors "HOL-Library.Multiset"
begin

text \<open>
  The elastic pool of hosts (\<open>crates/wapc-pool/src/hostpool.rs\<close>, \<open>errors.rs\<close>).

  \<^item> The channel \<open>bounded(1)\<close> between callers and workers is the list \<open>tx_queue\<close>. The pool keeps both
    of its ends, so it never disconnects. A message names its caller; the oneshot channel in it is
    the caller's entry in \<open>callers\<close>.
  \<^item> A closure given to the thread pool is a job, with the idle limit it was spawned with (none
    for the \<open>min_threads\<close> spawned by \<open>new\<close>). The thread pool is a library: when it starts a job is
    left open, and so is the number of threads it reports.
  \<^item> What a host answers to an operation is a relation \<open>serve\<close>; a host may also panic, which drops
    the sender of the reply. Time is abstracted: a send may time out when the channel is full and
    a receive may time out when it is empty.
  \<^item> \<open>call\<close> is cut at its blocking points, so the calls of many callers interleave.
\<close>

subsection \<open>Errors\<close>

datatype pool_error = RequestFailed string | NoPool

fun pool_error_to_string :: "pool_error \<Rightarrow> string" where
  "pool_error_to_string (RequestFailed s) = ''Request failed: '' @ s"
| "pool_error_to_string NoPool =
     ''No pool available. Have you initialized the HostPool or already shut it down?''"

definition wapc_error_of_pool_error :: "pool_error \<Rightarrow> wapc_error" where
  "wapc_error_of_pool_error e = General (pool_error_to_string e)"

subsection \<open>State\<close>

record request =
  req_op :: string
  req_payload :: bytes

record worker_message =
  reply_to :: nat
  msg_request :: request

datatype caller_state = Sending | Blocked | Awaiting | Dropped | Returned "wapc_error + bytes"

datatype job_state = Submitted | Receiving | Serving worker_message | Ended

record host_pool =
  pool_name :: string
  pool_open :: bool
  pool_max_threads :: nat
  pool_max_wait :: nat
  pool_max_idle :: nat
  tx_queue :: "worker_message list"
  jobs :: "(nat option \<times> job_state) list"
  callers :: "(request \<times> caller_state) list"

definition set_job :: "nat \<Rightarrow> job_state \<Rightarrow> host_pool \<Rightarrow> host_pool" where
  "set_job j st p = p\<lparr>jobs := (jobs p)[j := (fst (jobs p ! j), st)]\<rparr>"

definition set_caller :: "nat \<Rightarrow> caller_state \<Rightarrow> host_pool \<Rightarrow> host_pool" where
  "set_caller c st p = p\<lparr>callers := (callers p)[c := (fst (callers p ! c), st)]\<rparr>"

subsection \<open>Creating a pool\<close>

definition spawn :: "nat option \<Rightarrow> host_pool \<Rightarrow> (wapc_error + unit) \<times> host_pool" where
  "spawn idle p =
     (if pool_open p
      then (Inr (), p\<lparr>jobs := jobs p @ [(idle, Submitted)]\<rparr>)
      else (Inl (wapc_error_of_pool_error NoPool), p))"

primrec spawn_min :: "nat \<Rightarrow> host_pool \<Rightarrow> host_pool outcome" where
  "spawn_min 0 p = Ret p"
| "spawn_min (Suc n) p =
     (case spawn None p of
        (Inl e, p') \<Rightarrow> Panic Unwrap_Err
      | (Inr _, p') \<Rightarrow> spawn_min n p')"

text \<open>\<open>accepts\<close>: the sizes the thread pool's own builder takes without a panic.\<close>

definition HostPool_new ::
    "(nat \<Rightarrow> nat \<Rightarrow> bool) \<Rightarrow> string \<Rightarrow> nat \<Rightarrow> nat \<Rightarrow> nat \<Rightarrow> nat \<Rightarrow> host_pool outcome" where
  "HostPool_new accepts name min_threads max_threads max_wait max_idle =
     (if accepts min_threads max_threads
      then spawn_min min_threads
        \<lparr>pool_name = name, pool_open = True, pool_max_threads = max_threads, pool_max_wait = max_wait,
         pool_max_idle = max_idle, tx_queue = [], jobs = [], callers = []\<rparr>
      else Panic Callback_Panic)"

subsection \<open>A call\<close>

definition call_start :: "string \<Rightarrow> bytes \<Rightarrow> host_pool \<Rightarrow> host_pool" where
  "call_start op payload p =
     p\<lparr>callers := callers p @ [(\<lparr>req_op = op, req_payload = payload\<rparr>, Sending)]\<rparr>"

definition call_send :: "nat \<Rightarrow> host_pool \<Rightarrow> host_pool" where
  "call_send c p =
     (set_caller c Awaiting p)
       \<lparr>tx_queue := tx_queue p @ [\<lparr>reply_to = c, msg_request = fst (callers p ! c)\<rparr>]\<rparr>"

definition num_active_workers :: "nat \<Rightarrow> host_pool \<Rightarrow> nat" where
  "num_active_workers reported p = (if pool_open p then reported else 0)"

text \<open>The send timed out: grow the pool when the thread pool reports fewer threads than the
  maximum, ignore a failure to do so, and wait.\<close>

definition call_timed_out :: "nat \<Rightarrow> nat \<Rightarrow> host_pool \<Rightarrow> host_pool" where
  "call_timed_out c reported p =
     set_caller c Blocked
       (if num_active_workers reported p < pool_max_threads p then snd (spawn (Some (pool_max_idle p)) p) else p)"

subsection \<open>A worker\<close>

definition worker_receive :: "nat \<Rightarrow> host_pool \<Rightarrow> host_pool" where
  "worker_receive j p =
     (case tx_queue p of
        [] \<Rightarrow> p
      | m # q \<Rightarrow> (set_job j (Serving m) p)\<lparr>tx_queue := q\<rparr>)"

text \<open>\<open>tx.send(result)\<close>: lost when the caller is gone.\<close>

definition deliver :: "nat \<Rightarrow> wapc_error + bytes \<Rightarrow> host_pool \<Rightarrow> host_pool" where
  "deliver c r p = (if snd (callers p ! c) = Awaiting then set_caller c (Returned r) p else p)"

definition worker_reply :: "nat \<Rightarrow> worker_message \<Rightarrow> wapc_error + bytes \<Rightarrow> host_pool \<Rightarrow> host_pool" where
  "worker_reply j m r p = deliver (reply_to m) r (set_job j Receiving p)"

text \<open>A panic of the host ends the job; the dropped sender wakes the caller with an error.\<close>

definition closed_reply :: "string \<Rightarrow> wapc_error + bytes" where
  "closed_reply closed = Inl (General closed)"

definition worker_panic :: "nat \<Rightarrow> worker_message \<Rightarrow> string \<Rightarrow> host_pool \<Rightarrow> host_pool" where
  "worker_panic j m closed p = deliver (reply_to m) (closed_reply closed) (set_job j Ended p)"

subsection \<open>Shutting down\<close>

text \<open>\<open>shutdown\<close> takes the thread pool and waits for its jobs; \<open>joined\<close> is what it waits for.\<close>

definition shutdown :: "host_pool \<Rightarrow> (wapc_error + unit) \<times> host_pool" where
  "shutdown p =
     (if pool_open p then (Inr (), p\<lparr>pool_open := False\<rparr>)
      else (Inl (wapc_error_of_pool_error NoPool), p))"

definition joined :: "host_pool \<Rightarrow> bool" where
  "joined p \<longleftrightarrow> (\<forall>x \<in> set (jobs p). snd x = Ended)"

subsection \<open>The builder\<close>

record host_pool_builder =
  b_name :: "string option"
  b_factory :: bool
  b_min_threads :: nat
  b_max_threads :: nat
  b_max_wait :: nat
  b_max_idle :: nat

definition HostPoolBuilder_new :: host_pool_builder where
  "HostPoolBuilder_new =
     \<lparr>b_name = None, b_factory = False, b_min_threads = 1, b_max_threads = 2,
      b_max_wait = 100, b_max_idle = 5 * 60 * 1000\<rparr>"

definition pool_name_set :: "string \<Rightarrow> host_pool_builder \<Rightarrow> host_pool_builder" where
  "pool_name_set n b = b\<lparr>b_name := Some n\<rparr>"

definition pool_factory :: "host_pool_builder \<Rightarrow> host_pool_builder" where
  "pool_factory b = b\<lparr>b_factory := True\<rparr>"

definition min_threads :: "nat \<Rightarrow> host_pool_builder \<Rightarrow> host_pool_builder" where
  "min_threads n b = b\<lparr>b_min_threads := n\<rparr>"

definition max_threads :: "nat \<Rightarrow> host_pool_builder \<Rightarrow> host_pool_builder" where
  "max_threads n b = b\<lparr>b_max_threads := n\<rparr>"

definition max_idle :: "nat \<Rightarrow> host_pool_builder \<Rightarrow> host_pool_builder" where
  "max_idle n b = b\<lparr>b_max_idle := n\<rparr>"

definition max_wait :: "nat \<Rightarrow> host_pool_builder \<Rightarrow> host_pool_builder" where
  "max_wait n b = b\<lparr>b_max_wait := n\<rparr>"

definition pool_build :: "(nat \<Rightarrow> nat \<Rightarrow> bool) \<Rightarrow> host_pool_builder \<Rightarrow> host_pool outcome" where
  "pool_build accepts b =
     (if \<not> b_factory b then Panic Unwrap_None
      else HostPool_new accepts (case b_name b of Some n \<Rightarrow> n | None \<Rightarrow> ''waPC host pool'')
             (b_min_threads b) (b_max_threads b) (b_max_wait b) (b_max_idle b))"

subsection \<open>Interleavings\<close>

datatype pool_event =
    E_Call | E_Send | E_Timeout | E_Start | E_Receive | E_Reply | E_Idle | E_Panic | E_Drop | E_Shutdown

text \<open>The channel takes a message when it is empty. A caller can be dropped only while it awaits its
  reply, the one point where \<open>call\<close> awaits; \<open>shutdown\<close> needs the pool for itself, so no call is
  running.\<close>

inductive pool_step ::
    "(request \<Rightarrow> wapc_error + bytes \<Rightarrow> bool) \<Rightarrow> string \<Rightarrow> pool_event \<Rightarrow> host_pool \<Rightarrow> host_pool \<Rightarrow> bool"
  for serve closed where
  call: "pool_step serve closed E_Call p (call_start op payload p)"
| send: "c < length (callers p) \<Longrightarrow> snd (callers p ! c) \<in> {Sending, Blocked} \<Longrightarrow> tx_queue p = [] \<Longrightarrow>
    pool_step serve closed E_Send p (call_send c p)"
| timeout: "c < length (callers p) \<Longrightarrow> snd (callers p ! c) = Sending \<Longrightarrow> tx_queue p \<noteq> [] \<Longrightarrow>
    pool_step serve closed E_Timeout p (call_timed_out c active p)"
| start: "j < length (jobs p) \<Longrightarrow> snd (jobs p ! j) = Submitted \<Longrightarrow>
    pool_step serve closed E_Start p (set_job j Receiving p)"
| factory_panic: "j < length (jobs p) \<Longrightarrow> snd (jobs p ! j) = Submitted \<Longrightarrow>
    pool_step serve closed E_Panic p (set_job j Ended p)"
| receive: "j < length (jobs p) \<Longrightarrow> snd (jobs p ! j) = Receiving \<Longrightarrow> tx_queue p \<noteq> [] \<Longrightarrow>
    pool_step serve closed E_Receive p (worker_receive j p)"
| reply: "j < length (jobs p) \<Longrightarrow> snd (jobs p ! j) = Serving m \<Longrightarrow> serve (msg_request m) r \<Longrightarrow>
    pool_step serve closed E_Reply p (worker_reply j m r p)"
| host_panic: "j < length (jobs p) \<Longrightarrow> snd (jobs p ! j) = Serving m \<Longrightarrow>
    pool_step serve closed E_Panic p (worker_panic j m closed p)"
| idle: "j < length (jobs p) \<Longrightarrow> jobs p ! j = (Some d, Receiving) \<Longrightarrow> tx_queue p = [] \<Longrightarrow>
    pool_step serve closed E_Idle p (set_job j Ended p)"
| drop: "c < length (callers p) \<Longrightarrow> snd (callers p ! c) = Awaiting \<Longrightarrow>
    pool_step serve closed E_Drop p (set_caller c Dropped p)"
| shutdown: "(\<forall>x \<in> set (callers p). snd x \<in> {Dropped} \<union> range Returned) \<Longrightarrow>
    pool_step serve closed E_Shutdown p (snd (shutdown p))"

inductive_cases pool_stepE: "pool_step serve closed e p p'"

inductive pool_run ::
    "(request \<Rightarrow> wapc_error + bytes \<Rightarrow> bool) \<Rightarrow> string \<Rightarrow> pool_event set \<Rightarrow> host_pool \<Rightarrow> host_pool \<Rightarrow> bool"
  for serve closed E p where
  run_refl: "pool_run serve closed E p p"
| run_step: "pool_run serve closed E p q \<Longrightarrow> pool_step serve closed e q r \<Longrightarrow> e \<in> E \<Longrightarrow>
    pool_run serve closed E p r"

subsection \<open>Messages in flight\<close>

text \<open>The messages in the channel and with the workers, as a multiset.\<close>

definition job_messages :: "nat option \<times> job_state \<Rightarrow> worker_message multiset" where
  "job_messages x = (case snd x of Serving m \<Rightarrow> {#m#} | _ \<Rightarrow> {#})"

definition in_flight :: "host_pool \<Rightarrow> worker_message multiset" where
  "in_flight p = mset (tx_queue p) + sum_list (map job_messages (jobs p))"

lemma job_messages_simps [simp]:
  "job_messages (d, Serving m) = {#m#}"
  "job_messages (d, Submitted) = {#}"
  "job_messages (d, Receiving) = {#}"
  "job_messages (d, Ended) = {#}"
  by (simp_all add: job_messages_def)

lemma sum_list_update_mset:
  fixes f :: "'a \<Rightarrow> 'b multiset"
  assumes "j < length xs"
  shows "sum_list (map f (xs[j := x])) + f (xs ! j) = sum_list (map f xs) + f x"
  using assms
proof (induction xs arbitrary: j)
  case (Cons y ys)
  then show ?case
    by (cases j) (simp_all add: ac_simps)
qed simp

lemma in_flight_set_job:
  assumes "j < length (jobs p)"
  shows "in_flight (set_job j st p) + job_messages (jobs p ! j) = in_flight p + job_messages (d, st)"
proof -
  have "job_messages (fst (jobs p ! j), st) = job_messages (d, st)"
    by (simp add: job_messages_def)
  then show ?thesis
    using sum_list_update_mset [OF assms, of job_messages "(fst (jobs p ! j), st)"]
    by (simp add: in_flight_def set_job_def ac_simps)
qed

lemma in_flight_set_caller [simp]: "in_flight (set_caller c st p) = in_flight p"
  by (simp add: in_flight_def set_caller_def)

lemma set_job_frame [simp]:
  "tx_queue (set_job j st p) = tx_queue p" "callers (set_job j st p) = callers p"
  "pool_open (set_job j st p) = pool_open p" "length (jobs (set_job j st p)) = length (jobs p)"
  by (simp_all add: set_job_def)

lemma set_caller_frame [simp]:
  "tx_queue (set_caller c st p) = tx_queue p" "jobs (set_caller c st p) = jobs p"
  "pool_open (set_caller c st p) = pool_open p" "length (callers (set_caller c st p)) = length (callers p)"
  by (simp_all add: set_caller_def)

subsection \<open>The invariant\<close>

text \<open>
  A message in flight carries the request of its caller, who awaits or was dropped; no caller has
  two messages in flight; a caller who awaits has one; and what a caller got is an answer to its own
  request, or the error of a closed channel.
\<close>

definition in_place :: "(request \<times> caller_state) list \<Rightarrow> worker_message \<Rightarrow> bool" where
  "in_place cs m \<longleftrightarrow> reply_to m < length cs \<and> msg_request m = fst (cs ! reply_to m)
     \<and> snd (cs ! reply_to m) \<in> {Awaiting, Dropped}"

definition answer_ok ::
    "(request \<Rightarrow> wapc_error + bytes \<Rightarrow> bool) \<Rightarrow> string \<Rightarrow> request \<times> caller_state \<Rightarrow> bool" where
  "answer_ok serve closed x \<longleftrightarrow>
     (case snd x of Returned r \<Rightarrow> serve (fst x) r \<or> r = closed_reply closed | _ \<Rightarrow> True)"

definition calls_wf ::
    "(request \<Rightarrow> wapc_error + bytes \<Rightarrow> bool) \<Rightarrow> string \<Rightarrow> (request \<times> caller_state) list
     \<Rightarrow> worker_message multiset \<Rightarrow> bool" where
  "calls_wf serve closed cs M \<longleftrightarrow>
     (\<forall>m. m \<in># M \<longrightarrow> in_place cs m)
     \<and> (\<forall>c. count (image_mset reply_to M) c \<le> 1)
     \<and> (\<forall>c < length cs. snd (cs ! c) = Awaiting \<longrightarrow> c \<in># image_mset reply_to M)
     \<and> (\<forall>c < length cs. answer_ok serve closed (cs ! c))"

definition pool_wf :: "(request \<Rightarrow> wapc_error + bytes \<Rightarrow> bool) \<Rightarrow> string \<Rightarrow> host_pool \<Rightarrow> bool" where
  "pool_wf serve closed p \<longleftrightarrow> length (tx_queue p) \<le> 1 \<and> calls_wf serve closed (callers p) (in_flight p)"

lemma calls_wf_new:
  assumes "calls_wf serve closed cs M"
  shows "calls_wf serve closed (cs @ [(q, Sending)]) M"
  using assms
  by (auto simp: calls_wf_def in_place_def nth_append less_Suc_eq answer_ok_def)

lemma calls_wf_send:
  assumes wf: "calls_wf serve closed cs M" and c: "c < length cs" "snd (cs ! c) \<in> {Sending, Blocked}"
  shows "calls_wf serve closed (cs[c := (fst (cs ! c), Awaiting)])
           (M + {#\<lparr>reply_to = c, msg_request = fst (cs ! c)\<rparr>#})"
proof -
  have other: "reply_to m \<noteq> c" if "m \<in># M" for m
    using wf c that by (force simp: calls_wf_def in_place_def)
  then have "c \<notin># image_mset reply_to M"
    by auto
  then have "count (image_mset reply_to M) c = 0"
    unfolding not_in_iff .
  then show ?thesis
    using wf c other
    by (auto simp: calls_wf_def in_place_def nth_list_update answer_ok_def)
qed

lemma calls_wf_quiet:
  assumes wf: "calls_wf serve closed cs M" and c: "c < length cs" "snd (cs ! c) \<in> {Sending, Blocked}"
  shows "calls_wf serve closed (cs[c := (fst (cs ! c), Blocked)]) M"
  using assms by (force simp: calls_wf_def in_place_def nth_list_update answer_ok_def)

lemma calls_wf_drop:
  assumes wf: "calls_wf serve closed cs M" and c: "c < length cs" "snd (cs ! c) = Awaiting"
  shows "calls_wf serve closed (cs[c := (fst (cs ! c), Dropped)]) M"
  using assms by (force simp: calls_wf_def in_place_def nth_list_update answer_ok_def)

lemma calls_wf_removed:
  assumes wf: "calls_wf serve closed cs (M + {#m#})"
  shows "reply_to m \<notin># image_mset reply_to M"
proof
  assume "reply_to m \<in># image_mset reply_to M"
  then have "count (image_mset reply_to M) (reply_to m) \<noteq> 0"
    by (metis not_in_iff)
  moreover have "count (image_mset reply_to (M + {#m#})) (reply_to m)
      = Suc (count (image_mset reply_to M) (reply_to m))"
    by simp
  moreover have "count (image_mset reply_to (M + {#m#})) (reply_to m) \<le> 1"
    using wf unfolding calls_wf_def by blast
  ultimately show False
    by linarith
qed

lemma calls_wf_deliver:
  assumes wf: "calls_wf serve closed cs (M + {#m#})"
    and r: "serve (msg_request m) r \<or> r = closed_reply closed"
  shows "calls_wf serve closed
    (if snd (cs ! reply_to m) = Awaiting then cs[reply_to m := (fst (cs ! reply_to m), Returned r)] else cs) M"
proof -
  note gone = calls_wf_removed [OF wf]
  have m: "in_place cs m"
    using wf by (simp add: calls_wf_def)
  have places: "in_place cs k" "reply_to k \<noteq> reply_to m" if "k \<in># M" for k
    using wf gone that by (auto simp: calls_wf_def intro: rev_image_eqI)
  have once: "count (image_mset reply_to M) c \<le> 1" for c
  proof -
    have "count (image_mset reply_to (M + {#m#})) c \<le> 1"
      using wf unfolding calls_wf_def by blast
    then show ?thesis
      by (simp split: if_splits)
  qed
  have awaits: "c \<in># image_mset reply_to M"
    if "c < length cs" "snd (cs ! c) = Awaiting" "c \<noteq> reply_to m" for c
    using wf that by (auto simp: calls_wf_def)
  have ok: "answer_ok serve closed (cs ! c)" if "c < length cs" for c
    using wf that by (simp add: calls_wf_def)
  show ?thesis
  proof (cases "snd (cs ! reply_to m) = Awaiting")
    case True
    let ?cs = "cs[reply_to m := (fst (cs ! reply_to m), Returned r)]"
    have "in_place ?cs k" if "k \<in># M" for k
      using places [OF that] by (simp add: in_place_def)
    moreover have "c \<in># image_mset reply_to M" if "c < length ?cs" "snd (?cs ! c) = Awaiting" for c
      using that m by (intro awaits) (auto simp: nth_list_update in_place_def split: if_splits)
    moreover have "answer_ok serve closed (?cs ! c)" if "c < length ?cs" for c
      using that m r ok by (auto simp: nth_list_update answer_ok_def in_place_def)
    ultimately show ?thesis
      using True once unfolding calls_wf_def by simp
  next
    case False
    then have "c \<in># image_mset reply_to M" if "c < length cs" "snd (cs ! c) = Awaiting" for c
      using that by (intro awaits) auto
    then show ?thesis
      using False places(1) once ok unfolding calls_wf_def by simp
  qed
qed

lemma in_flight_worker_receive:
  assumes "j < length (jobs p)" "snd (jobs p ! j) = Receiving" "tx_queue p \<noteq> []"
  shows "in_flight (worker_receive j p) = in_flight p"
proof -
  obtain m q where q: "tx_queue p = m # q"
    using assms(3) by (cases "tx_queue p") auto
  have "in_flight (set_job j (Serving m) p) = in_flight p + {#m#}"
    using in_flight_set_job [OF assms(1), of "Serving m" "fst (jobs p ! j)"] assms(2)
    by (simp add: job_messages_def)
  then show ?thesis
    by (simp add: worker_receive_def q in_flight_def)
qed

lemma in_flight_call_send:
  "in_flight (call_send c p) = in_flight p + {#\<lparr>reply_to = c, msg_request = fst (callers p ! c)\<rparr>#}"
  by (simp add: call_send_def in_flight_def)

lemma in_flight_served:
  assumes "j < length (jobs p)" "snd (jobs p ! j) = Serving m" "st = Receiving \<or> st = Ended"
  shows "in_flight p = in_flight (set_job j st p) + {#m#}"
  using in_flight_set_job [OF assms(1), of st "fst (jobs p ! j)"] assms(2,3)
  by (auto simp: job_messages_def)

lemma in_flight_quiet:
  assumes "j < length (jobs p)" "snd (jobs p ! j) \<in> {Submitted, Receiving}" "st \<in> {Receiving, Ended}"
  shows "in_flight (set_job j st p) = in_flight p"
  using in_flight_set_job [OF assms(1), of st "fst (jobs p ! j)"] assms(2,3)
  by (auto simp: job_messages_def)

lemma deliver_frame [simp]:
  "in_flight (deliver c r p) = in_flight p" "tx_queue (deliver c r p) = tx_queue p"
  "jobs (deliver c r p) = jobs p" "pool_open (deliver c r p) = pool_open p"
  by (simp_all add: deliver_def)

lemma callers_deliver:
  "callers (deliver c r p) = (if snd (callers p ! c) = Awaiting
     then (callers p)[c := (fst (callers p ! c), Returned r)] else callers p)"
  by (simp add: deliver_def set_caller_def)

lemma spawn_frame [simp]:
  "in_flight (snd (spawn d p)) = in_flight p" "tx_queue (snd (spawn d p)) = tx_queue p"
  "callers (snd (spawn d p)) = callers p" "pool_open (snd (spawn d p)) = pool_open p"
  by (simp_all add: spawn_def in_flight_def)

lemma pool_wf_served:
  assumes "pool_wf serve closed p" "j < length (jobs p)" "snd (jobs p ! j) = Serving m"
    and "st = Receiving \<or> st = Ended" "serve (msg_request m) r \<or> r = closed_reply closed"
  shows "pool_wf serve closed (deliver (reply_to m) r (set_job j st p))"
  using assms calls_wf_deliver [of serve closed "callers p" "in_flight (set_job j st p)" m r]
    in_flight_served [of j p m st]
  by (auto simp: pool_wf_def callers_deliver split: if_splits)

lemma pool_wf_step:
  assumes "pool_step serve closed e p p'" and "pool_wf serve closed p"
  shows "pool_wf serve closed p'"
  using assms
proof (cases rule: pool_step.cases)
  case (call op payload)
  then show ?thesis
    using assms(2) by (simp add: pool_wf_def call_start_def calls_wf_new in_flight_def)
next
  case (send c)
  then show ?thesis
    using assms(2) calls_wf_send [of serve closed "callers p" "in_flight p" c]
    by (simp add: pool_wf_def in_flight_call_send) (simp add: call_send_def set_caller_def)
next
  case (timeout c active)
  then show ?thesis
    using assms(2) calls_wf_quiet [of serve closed "callers p" "in_flight p" c]
    by (simp add: pool_wf_def call_timed_out_def) (simp add: set_caller_def)
next
  case (receive j)
  then show ?thesis
    using assms(2) by (simp add: pool_wf_def in_flight_worker_receive)
      (auto simp: worker_receive_def split: list.splits)
next
  case (reply j m r)
  then show ?thesis
    using assms(2) pool_wf_served by (simp add: worker_reply_def)
next
  case (host_panic j m)
  then show ?thesis
    using assms(2) pool_wf_served by (simp add: worker_panic_def)
next
  case (drop c)
  then show ?thesis
    using assms(2) calls_wf_drop [of serve closed "callers p" "in_flight p" c]
    by (simp add: pool_wf_def) (simp add: set_caller_def)
next
  case shutdown
  then show ?thesis
    using assms(2) by (simp add: pool_wf_def shutdown_def in_flight_def)
qed (use assms(2) in \<open>simp_all add: pool_wf_def in_flight_quiet\<close>)

lemma spawn_min_eq:
  "pool_open p \<Longrightarrow> spawn_min n p = Ret (p\<lparr>jobs := jobs p @ replicate n (None, Submitted)\<rparr>)"
proof (induction n arbitrary: p)
  case (Suc n)
  then show ?case
    by (simp add: spawn_def replicate_append_same [symmetric])
qed simp

definition fresh_pool :: "string \<Rightarrow> nat \<Rightarrow> nat \<Rightarrow> nat \<Rightarrow> nat \<Rightarrow> host_pool" where
  "fresh_pool name n m wait idle =
     \<lparr>pool_name = name, pool_open = True, pool_max_threads = m, pool_max_wait = wait,
      pool_max_idle = idle, tx_queue = [], jobs = replicate n (None, Submitted), callers = []\<rparr>"

lemma HostPool_new_eq:
  "HostPool_new accepts name n m wait idle =
     (if accepts n m then Ret (fresh_pool name n m wait idle) else Panic Callback_Panic)"
  by (simp add: HostPool_new_def spawn_min_eq fresh_pool_def)

lemma HostPool_new_Ret:
  "HostPool_new accepts name n m wait idle = Ret p \<Longrightarrow> p = fresh_pool name n m wait idle"
  by (simp add: HostPool_new_eq split: if_splits)

lemma in_flight_fresh [simp]: "in_flight (fresh_pool name n m wait idle) = {#}"
  by (induction n) (simp_all add: in_flight_def fresh_pool_def)

lemma pool_wf_fresh: "pool_wf serve closed (fresh_pool name n m wait idle)"
  by (simp add: pool_wf_def calls_wf_def) (simp add: fresh_pool_def)

lemma pool_wf_run:
  assumes "pool_run serve closed E p p'" and "pool_wf serve closed p"
  shows "pool_wf serve closed p'"
  using assms by (induction rule: pool_run.induct) (auto dest: pool_wf_step)

lemma size_filter_reply_to: "size (filter_mset (\<lambda>m. reply_to m = c) M) = count (image_mset reply_to M) c"
  by (induction M) auto

lemma filter_reply_to:
  assumes wf: "calls_wf serve closed cs M" and c: "c < length cs"
  shows "filter_mset (\<lambda>m. reply_to m = c) M \<subseteq># {#\<lparr>reply_to = c, msg_request = fst (cs ! c)\<rparr>#}"
    and "snd (cs ! c) = Awaiting \<Longrightarrow>
         filter_mset (\<lambda>m. reply_to m = c) M = {#\<lparr>reply_to = c, msg_request = fst (cs ! c)\<rparr>#}"
    and "snd (cs ! c) \<notin> {Awaiting, Dropped} \<Longrightarrow> filter_mset (\<lambda>m. reply_to m = c) M = {#}"
proof -
  let ?F = "filter_mset (\<lambda>m. reply_to m = c) M" and ?m = "\<lparr>reply_to = c, msg_request = fst (cs ! c)\<rparr>"
  have mine: "k = ?m" "snd (cs ! c) \<in> {Awaiting, Dropped}" if "k \<in># ?F" for k
    using wf that by (auto simp: calls_wf_def in_place_def)
  have "size ?F \<le> 1"
    using wf by (simp add: calls_wf_def size_filter_reply_to)
  then have either: "?F = {#} \<or> (\<exists>k. ?F = {#k#})"
    by (metis One_nat_def le_Suc_eq le_zero_eq size_1_singleton_mset size_eq_0_iff_empty)
  have single: "?F = {#?m#}" if "?F = {#k#}" for k
  proof -
    have "k \<in># ?F"
      unfolding that by simp
    then have "k = ?m"
      by (rule mine)
    with that show ?thesis
      by simp
  qed
  with either have cases: "?F = {#} \<or> ?F = {#?m#}"
    by blast
  show "?F \<subseteq># {#?m#}"
    using cases by (elim disjE) (simp_all only: empty_le subset_mset.order_refl)
  show "?F = {#}" if "snd (cs ! c) \<notin> {Awaiting, Dropped}"
  proof (rule ccontr)
    assume "?F \<noteq> {#}"
    then obtain k where "k \<in># ?F"
      by (auto simp only: multiset_nonemptyE)
    with mine(2) that show False
      by blast
  qed
  show "?F = {#?m#}" if "snd (cs ! c) = Awaiting"
  proof -
    have "c \<in># image_mset reply_to M"
      using wf c that by (simp add: calls_wf_def)
    then obtain m where "m \<in># ?F"
      by auto
    then have "?F \<noteq> {#}"
      by (metis empty_iff set_mset_empty)
    with cases show ?thesis
      by blast
  qed
qed

lemma pool_wf_caller:
  assumes "pool_wf serve closed p" and "c < length (callers p)"
  shows "case callers p ! c of
         (req, Awaiting) \<Rightarrow> filter_mset (\<lambda>m. reply_to m = c) (in_flight p) = {#\<lparr>reply_to = c, msg_request = req\<rparr>#}
       | (req, Dropped) \<Rightarrow> filter_mset (\<lambda>m. reply_to m = c) (in_flight p) \<subseteq># {#\<lparr>reply_to = c, msg_request = req\<rparr>#}
       | (req, Returned r) \<Rightarrow> filter_mset (\<lambda>m. reply_to m = c) (in_flight p) = {#}
                            \<and> (serve req r \<or> r = closed_reply closed)
       | (req, _) \<Rightarrow> filter_mset (\<lambda>m. reply_to m = c) (in_flight p) = {#}"
proof -
  obtain req st where c: "callers p ! c = (req, st)"
    by fastforce
  have wf: "calls_wf serve closed (callers p) (in_flight p)"
    using assms(1) by (simp add: pool_wf_def)
  then have "answer_ok serve closed (callers p ! c)"
    using assms(2) by (simp add: calls_wf_def)
  then show ?thesis
    using filter_reply_to [OF wf assms(2)] c by (cases st) (auto simp: answer_ok_def)
qed

text \<open>C19: whatever the interleaving of callers and workers, the channel holds at most one message; a
  caller who awaits has exactly one message in flight, which carries its own request; one who has
  not sent yet, or has its reply, has none; and a reply is an answer of a host to that very
  request, or the error of a worker that panicked.\<close>

theorem pool_calls_are_isolated:
  assumes "HostPool_new accepts name n m wait idle = Ret p0" and "pool_run serve closed E p0 p"
    and "c < length (callers p)"
  shows "length (tx_queue p) \<le> 1
    \<and> (case callers p ! c of
         (req, Awaiting) \<Rightarrow> filter_mset (\<lambda>m. reply_to m = c) (in_flight p) = {#\<lparr>reply_to = c, msg_request = req\<rparr>#}
       | (req, Dropped) \<Rightarrow> filter_mset (\<lambda>m. reply_to m = c) (in_flight p) \<subseteq># {#\<lparr>reply_to = c, msg_request = req\<rparr>#}
       | (req, Returned r) \<Rightarrow> filter_mset (\<lambda>m. reply_to m = c) (in_flight p) = {#}
                            \<and> (serve req r \<or> r = closed_reply closed)
       | (req, _) \<Rightarrow> filter_mset (\<lambda>m. reply_to m = c) (in_flight p) = {#})"
proof -
  have wf: "pool_wf serve closed p"
    using pool_wf_run [OF assms(2)] HostPool_new_Ret [OF assms(1)] pool_wf_fresh by blast
  show ?thesis
    by (rule conjI) (use wf in \<open>simp add: pool_wf_def\<close>, rule pool_wf_caller [OF wf assms(3)])
qed

subsection \<open>Replies are final\<close>

definition keeps_entry :: "nat \<Rightarrow> host_pool \<Rightarrow> host_pool \<Rightarrow> bool" where
  "keeps_entry c p p' \<longleftrightarrow> callers p' ! c = callers p ! c \<and> length (callers p) \<le> length (callers p')"

lemma keeps_entry_set_caller: "d \<noteq> c \<Longrightarrow> keeps_entry c p (set_caller d st p)"
  by (simp add: keeps_entry_def set_caller_def)

lemma keeps_entry_eq: "callers p' = callers q \<Longrightarrow> keeps_entry c p q \<Longrightarrow> keeps_entry c p p'"
  by (simp add: keeps_entry_def)

lemma keeps_entry_deliver:
  "snd (callers p ! c) = Returned r \<Longrightarrow> keeps_entry c p (deliver d v p)"
  by (cases "d = c") (auto simp: keeps_entry_def callers_deliver)

lemma callers_worker_receive [simp]: "callers (worker_receive j p) = callers p"
  by (simp add: worker_receive_def split: list.splits)

lemma step_keeps_return:
  assumes "pool_step serve closed e p p'" and "c < length (callers p)"
    and ret: "snd (callers p ! c) = Returned r"
  shows "keeps_entry c p p'"
  using assms(1)
proof (cases rule: pool_step.cases)
  case (call op payload)
  then show ?thesis
    using assms(2) by (simp add: keeps_entry_def call_start_def nth_append)
next
  case (send d)
  then have "d \<noteq> c"
    using ret by auto
  then show ?thesis
    using send keeps_entry_eq [OF _ keeps_entry_set_caller] by (simp add: call_send_def)
next
  case (timeout d active)
  then have "d \<noteq> c"
    using ret by auto
  then show ?thesis
    using timeout by (simp add: keeps_entry_def call_timed_out_def set_caller_def)
next
  case (reply j m v)
  then show ?thesis
    using keeps_entry_deliver [of "set_job j Receiving p" c r "reply_to m" v] ret
    by (simp add: worker_reply_def keeps_entry_def)
next
  case (host_panic j m)
  then show ?thesis
    using keeps_entry_deliver [of "set_job j Ended p" c r "reply_to m" "closed_reply closed"] ret
    by (simp add: worker_panic_def keeps_entry_def)
next
  case (drop d)
  then have "d \<noteq> c"
    using ret by auto
  then show ?thesis
    using drop keeps_entry_set_caller by simp
qed (simp_all add: keeps_entry_def shutdown_def)

lemma run_keeps_return:
  assumes "pool_run serve closed E p p'" and "c < length (callers p)"
    and "snd (callers p ! c) = Returned r"
  shows "callers p' ! c = callers p ! c \<and> c < length (callers p')"
  using assms
proof (induction rule: pool_run.induct)
  case (run_step q e s)
  then show ?case
    using step_keeps_return [of serve closed e q s c r] by (simp add: keeps_entry_def)
qed simp

text \<open>A call gets at most one reply: once it has returned, no later step of any caller or worker
  changes what it returned.\<close>

theorem pool_reply_final:
  assumes "pool_run serve closed E p p'" and "c < length (callers p)"
    and "snd (callers p ! c) = Returned r"
  shows "callers p' ! c = (fst (callers p ! c), Returned r)"
  using run_keeps_return [OF assms] assms(3) by (cases "callers p ! c") simp

subsection \<open>Building a pool\<close>

text \<open>A builder hands the settings it was given last to the pool, and the defaults for the
  others; the pool starts open, with an empty channel and as many workers without an idle limit as
  its minimum. Without a factory \<open>build\<close> panics.\<close>

theorem pool_build_result:
  "pool_build accepts (max_idle i (max_wait w (max_threads m (min_threads n (pool_factory (pool_name_set s HostPoolBuilder_new))))))
     = (if accepts n m then Ret (fresh_pool s n m w i) else Panic Callback_Panic)
   \<and> pool_build accepts (pool_factory HostPoolBuilder_new)
     = (if accepts 1 2 then Ret (fresh_pool ''waPC host pool'' 1 2 100 300000) else Panic Callback_Panic)
   \<and> pool_build accepts (max_idle i (max_wait w (max_threads m (min_threads n (pool_name_set s HostPoolBuilder_new)))))
     = Panic Unwrap_None"
  by (simp add: pool_build_def max_idle_def max_wait_def max_threads_def min_threads_def pool_factory_def
      pool_name_set_def HostPoolBuilder_new_def HostPool_new_eq)

subsection \<open>A run of a small pool\<close>

definition echo_serve :: "request \<Rightarrow> wapc_error + bytes \<Rightarrow> bool" where
  "echo_serve req r \<longleftrightarrow> r = Inr (req_payload req)"

definition echo_request :: request where
  "echo_request = \<lparr>req_op = ''echo'', req_payload = [1]\<rparr>"

definition small_pool :: host_pool where
  "small_pool = fresh_pool ''p'' 1 2 100 1000"

definition small_receiving :: host_pool where
  "small_receiving = call_send 0 (set_job 0 Receiving (call_start ''echo'' [1] small_pool))"

definition small_replied :: host_pool where
  "small_replied = worker_reply 0 \<lparr>reply_to = 0, msg_request = echo_request\<rparr> (Inr [1]) (worker_receive 0 small_receiving)"

lemmas small_defs = small_pool_def small_receiving_def small_replied_def fresh_pool_def call_start_def
  call_send_def set_job_def set_caller_def worker_receive_def worker_reply_def deliver_def echo_request_def

lemma small_new: "HostPool_new (\<lambda>_ _. True) ''p'' 1 2 100 1000 = Ret small_pool"
  by (simp add: HostPool_new_eq small_pool_def)

lemma small_run_receiving: "pool_run echo_serve closed {E_Call, E_Start, E_Send} small_pool small_receiving"
  unfolding small_receiving_def
  by (rule pool_run.run_step [OF pool_run.run_step [OF pool_run.run_step [OF pool_run.run_refl
        pool_step.call] pool_step.start] pool_step.send])
     (simp_all add: small_defs)

lemma small_receiving_calls:
  "callers small_receiving = [(echo_request, Awaiting)]" "jobs small_receiving = [(None, Receiving)]"
  "tx_queue small_receiving = [\<lparr>reply_to = 0, msg_request = echo_request\<rparr>]"
  by (simp_all add: small_defs)

theorem pool_calls_are_isolated_witness:
  "length (tx_queue small_receiving) \<le> 1
   \<and> filter_mset (\<lambda>m. reply_to m = 0) (in_flight small_receiving) = {#\<lparr>reply_to = 0, msg_request = echo_request\<rparr>#}"
proof -
  have c: "0 < length (callers small_receiving)"
    by (simp add: small_receiving_calls)
  show ?thesis
    using pool_calls_are_isolated [OF small_new small_run_receiving c] by (simp add: small_receiving_calls)
qed

lemma small_replied_calls: "callers small_replied = [(echo_request, Returned (Inr [1]))]"
  by (simp add: small_defs)

theorem pool_reply_final_witness:
  "callers (snd (shutdown small_replied)) ! 0 = (echo_request, Returned (Inr [1]))"
proof -
  have "pool_step echo_serve ''closed'' E_Shutdown small_replied (snd (shutdown small_replied))"
    by (rule pool_step.shutdown) (simp add: small_replied_calls)
  then have run: "pool_run echo_serve ''closed'' UNIV small_replied (snd (shutdown small_replied))"
    by (rule pool_run.run_step [OF pool_run.run_refl]) simp
  have c: "0 < length (callers small_replied)" and r: "snd (callers small_replied ! 0) = Returned (Inr [1])"
    by (simp_all add: small_replied_calls)
  from pool_reply_final [OF run c r] show ?thesis
    by (simp add: small_replied_calls)
qed

end
