(* ===== verification/Pool_Progress.thy ===== *)
theory Pool_Progress
  imports Host_Pool
begin

text \<open>
  What a pool does in the end (\<open>crates/wapc-pool/src/hostpool.rs\<close>). As long as one worker without an idle
  limit has not panicked every call is answered, on every schedule of callers and workers. Without
  workers calls get stuck: on a pool with no minimum, and on a pool that was shut down. A pool with a
  minimum never shuts down unless those workers panic.
\<close>

subsection \<open>Progress\<close>

text \<open>What is left to do: three steps for a call that has not sent its message, two for a message in
  the channel, one for a message with a worker.\<close>

definition unsent :: "request \<times> caller_state \<Rightarrow> nat" where
  "unsent x = (if snd x \<in> {Sending, Blocked} then 3 else 0)"

definition serving :: "nat option \<times> job_state \<Rightarrow> nat" where
  "serving x = size (job_messages x)"

definition work :: "host_pool \<Rightarrow> nat" where
  "work p = sum_list (map unsent (callers p)) + 2 * length (tx_queue p) + sum_list (map serving (jobs p))"

definition alive :: "host_pool \<Rightarrow> bool" where
  "alive p \<longleftrightarrow> (\<exists>x \<in> set (jobs p). snd x = Receiving \<or> (\<exists>m. snd x = Serving m))"

definition settled :: "host_pool \<Rightarrow> bool" where
  "settled p \<longleftrightarrow> (\<forall>x \<in> set (callers p). snd x = Dropped \<or> (\<exists>r. snd x = Returned r))"

lemma sum_list_update_nat:
  fixes f :: "'a \<Rightarrow> nat"
  assumes "j < length xs"
  shows "sum_list (map f (xs[j := x])) + f (xs ! j) = sum_list (map f xs) + f x"
  using assms
proof (induction xs arbitrary: j)
  case (Cons y ys)
  then show ?case
    by (cases j) (simp_all add: ac_simps)
qed simp

lemma work_send:
  assumes "c < length (callers p)" "snd (callers p ! c) \<in> {Sending, Blocked}"
  shows "work (call_send c p) < work p"
  using sum_list_update_nat [OF assms(1), of unsent "(fst (callers p ! c), Awaiting)"] assms(2)
  by (auto simp: work_def call_send_def set_caller_def unsent_def)

lemma work_receive:
  assumes "j < length (jobs p)" "snd (jobs p ! j) = Receiving" "tx_queue p \<noteq> []"
  shows "work (worker_receive j p) < work p"
proof -
  obtain m q where "tx_queue p = m # q"
    using assms(3) by (cases "tx_queue p") auto
  then show ?thesis
    using sum_list_update_nat [OF assms(1), of serving "(fst (jobs p ! j), Serving m)"] assms(2)
    by (auto simp: work_def worker_receive_def set_job_def serving_def job_messages_def)
qed

lemma unsent_deliver: "sum_list (map unsent (callers (deliver c r p))) = sum_list (map unsent (callers p))"
proof (cases "snd (callers p ! c) = Awaiting \<and> c < length (callers p)")
  case True
  then show ?thesis
    using sum_list_update_nat [of c "callers p" unsent "(fst (callers p ! c), Returned r)"]
    by (simp add: callers_deliver unsent_def)
next
  case False
  then show ?thesis
    by (auto simp: callers_deliver list_update_beyond)
qed

lemma work_reply:
  assumes "j < length (jobs p)" "snd (jobs p ! j) = Serving m"
  shows "work (worker_reply j m r p) < work p"
proof -
  have "sum_list (map serving ((jobs p)[j := (fst (jobs p ! j), Receiving)])) + 1 = sum_list (map serving (jobs p))"
    using sum_list_update_nat [OF assms(1), of serving "(fst (jobs p ! j), Receiving)"] assms(2)
    by (simp add: serving_def job_messages_def)
  then show ?thesis
    by (simp add: work_def worker_reply_def unsent_deliver) (simp add: set_job_def)
qed

abbreviation serving_events :: "pool_event set" where
  "serving_events \<equiv> {E_Send, E_Receive, E_Reply}"

lemma alive_set_job:
  "j < length (jobs p) \<Longrightarrow> st = Receiving \<or> (\<exists>m. st = Serving m) \<Longrightarrow> alive (set_job j st p)"
  unfolding alive_def by (intro bexI [of _ "(fst (jobs p ! j), st)"]) (auto simp: set_job_def set_update_memI)

lemma alive_jobs: "jobs p' = jobs p \<Longrightarrow> alive p' = alive p"
  by (simp add: alive_def)

lemma sum_list_empty:
  "(\<And>x. x \<in> set xs \<Longrightarrow> f x = {#}) \<Longrightarrow> sum_list (map f xs) = {#}"
  by (induction xs) auto

lemma length_callers_deliver [simp]: "length (callers (deliver c r p)) = length (callers p)"
  by (simp add: callers_deliver)

lemma idle_in_flight:
  assumes "\<And>j m. j < length (jobs p) \<Longrightarrow> snd (jobs p ! j) \<noteq> Serving m" and "tx_queue p = []"
  shows "in_flight p = {#}"
proof -
  have "job_messages x = {#}" if "x \<in> set (jobs p)" for x
    using assms(1) that by (auto simp: in_set_conv_nth job_messages_def split: job_state.splits)
  then have "sum_list (map job_messages (jobs p)) = {#}"
    by (rule sum_list_empty)
  then show ?thesis
    by (simp add: in_flight_def assms(2))
qed

lemma serving_step:
  assumes wf: "pool_wf serve closed p" and live: "alive p" and todo: "\<not> settled p"
    and total: "\<And>req. \<exists>r. serve req r"
  shows "\<exists>e p'. e \<in> serving_events \<and> pool_step serve closed e p p' \<and> work p' < work p \<and> alive p'
    \<and> length (callers p') = length (callers p)"
proof (cases "\<exists>j m. j < length (jobs p) \<and> snd (jobs p ! j) = Serving m")
  case True
  then obtain j m where j: "j < length (jobs p)" "snd (jobs p ! j) = Serving m"
    by blast
  obtain r where "serve (msg_request m) r"
    using total by blast
  then have "pool_step serve closed E_Reply p (worker_reply j m r p)"
    by (rule pool_step.reply [OF j])
  moreover have "alive (worker_reply j m r p)"
    using alive_set_job [OF j(1), of Receiving]
      alive_jobs [of "worker_reply j m r p" "set_job j Receiving p"] by (simp add: worker_reply_def)
  ultimately show ?thesis
    using work_reply [OF j, of r]
    by (intro exI [of _ E_Reply] exI [of _ "worker_reply j m r p"]) (simp add: worker_reply_def)
next
  case False
  from live obtain x where "x \<in> set (jobs p)" "snd x = Receiving \<or> (\<exists>m. snd x = Serving m)"
    unfolding alive_def by blast
  then obtain j where j: "j < length (jobs p)" "snd (jobs p ! j) = Receiving"
    using False by (metis in_set_conv_nth)
  show ?thesis
  proof (cases "tx_queue p = []")
    case True
    have "in_flight p = {#}"
      using idle_in_flight [OF _ True] False by blast
    then have "snd (callers p ! c) \<noteq> Awaiting" if "c < length (callers p)" for c
      using wf that by (auto simp: pool_wf_def calls_wf_def)
    moreover obtain c where c: "c < length (callers p)"
      "snd (callers p ! c) \<noteq> Dropped" "\<And>r. snd (callers p ! c) \<noteq> Returned r"
      using todo by (auto simp: settled_def in_set_conv_nth)
    ultimately have unsent: "snd (callers p ! c) \<in> {Sending, Blocked}"
      by (cases "snd (callers p ! c)") auto
    have "alive (call_send c p)"
      using live alive_jobs [of "call_send c p" p] by (simp add: call_send_def)
    then show ?thesis
      using pool_step.send [OF c(1) unsent True] work_send [OF c(1) unsent]
      by (intro exI [of _ E_Send] exI [of _ "call_send c p"]) (simp add: call_send_def)
  next
    case False
    then obtain m q where q: "tx_queue p = m # q"
      by (cases "tx_queue p") auto
    have "alive (worker_receive j p)"
      using alive_set_job [OF j(1), of "Serving m"]
        alive_jobs [of "worker_receive j p" "set_job j (Serving m) p"]
      by (simp add: worker_receive_def q)
    then show ?thesis
      using pool_step.receive [OF j False] work_receive [OF j False]
      by (intro exI [of _ E_Receive] exI [of _ "worker_receive j p"]) simp
  qed
qed

lemma run_cons:
  assumes "pool_run serve closed E q r" and "pool_step serve closed e p q" and "e \<in> E"
  shows "pool_run serve closed E p r"
  using assms by (induction rule: pool_run.induct) (blast intro: pool_run.intros)+

lemma serving_run:
  assumes "pool_wf serve closed p" and "alive p" and total: "\<And>req. \<exists>r. serve req r"
  shows "\<exists>p'. pool_run serve closed serving_events p p' \<and> settled p' \<and> length (callers p') = length (callers p)"
  using assms(1,2)
proof (induction "work p" arbitrary: p rule: less_induct)
  case less
  show ?case
  proof (cases "settled p")
    case True
    then show ?thesis
      by (blast intro: pool_run.run_refl)
  next
    case False
    then obtain e q where q: "e \<in> serving_events" "pool_step serve closed e p q" "work q < work p" "alive q"
      "length (callers q) = length (callers p)"
      using serving_step [OF less.prems False total] by blast
    then obtain p' where "pool_run serve closed serving_events q p'" "settled p'"
      "length (callers p') = length (callers q)"
      using less.hyps pool_wf_step [OF q(2) less.prems(1)] by blast
    then show ?thesis
      using run_cons [OF _ q(2,1)] q(5) by auto
  qed
qed

lemma serving_event_works:
  assumes "pool_step serve closed e p p'" and "e \<in> serving_events"
  shows "work p' < work p"
  using assms work_send work_receive work_reply by (cases rule: pool_step.cases) auto

lemma serving_event_alive:
  assumes "pool_step serve closed e p p'" and "e \<in> serving_events" and live: "alive p"
  shows "alive p'"
  using assms(1)
proof (cases rule: pool_step.cases)
  case (send c)
  then show ?thesis
    using live alive_jobs [of "call_send c p" p] by (simp add: call_send_def)
next
  case (receive j)
  then obtain m q where "tx_queue p = m # q"
    by (cases "tx_queue p") auto
  then show ?thesis
    using receive alive_set_job [of j p "Serving m"] alive_jobs [of p' "set_job j (Serving m) p"]
    by (simp add: worker_receive_def)
next
  case (reply j m r)
  then show ?thesis
    using alive_set_job [of j p Receiving] alive_jobs [of p' "set_job j Receiving p"] by (simp add: worker_reply_def)
qed (use assms(2) in simp_all)

lemma serving_run_alive:
  "pool_run serve closed serving_events p p' \<Longrightarrow> alive p \<Longrightarrow> alive p'"
  by (induction rule: pool_run.induct) (auto dest: serving_event_alive)

subsection \<open>Every schedule ends\<close>

text \<open>A job keeps its idle limit, and ends by a panic or, when it has a limit, by running out of time.\<close>

lemma set_job_nth:
  assumes "j < length (jobs p)" and "i < length (jobs p)"
  shows "i < length (jobs (set_job j st p)) \<and> fst (jobs (set_job j st p) ! i) = fst (jobs p ! i)
    \<and> snd (jobs (set_job j st p) ! i) = (if i = j then st else snd (jobs p ! i))"
  using assms by (simp add: set_job_def nth_list_update)

lemma step_keeps_job:
  assumes "pool_step serve closed e p p'" and i: "i < length (jobs p)"
  shows "i < length (jobs p') \<and> fst (jobs p' ! i) = fst (jobs p ! i)
    \<and> (snd (jobs p' ! i) = Ended \<longrightarrow> snd (jobs p ! i) = Ended \<or> e = E_Panic \<or> e = E_Idle \<and> fst (jobs p ! i) \<noteq> None)"
  using assms(1)
proof (cases rule: pool_step.cases)
  case (timeout c active)
  then show ?thesis
    using i by (auto simp: call_timed_out_def spawn_def nth_append)
next
  case (start j)
  then show ?thesis
    using set_job_nth [OF start(3) i, of Receiving] by simp
next
  case (factory_panic j)
  then show ?thesis
    using set_job_nth [OF factory_panic(3) i, of Ended] by simp
next
  case (receive j)
  then show ?thesis
    using set_job_nth [OF receive(3) i] by (auto simp: worker_receive_def split: list.splits)
next
  case (reply j m r)
  then show ?thesis
    using set_job_nth [OF reply(3) i, of Receiving] by (simp add: worker_reply_def)
next
  case (host_panic j m)
  then show ?thesis
    using set_job_nth [OF host_panic(3) i, of Ended] by (simp add: worker_panic_def)
next
  case (idle j d)
  then show ?thesis
    using set_job_nth [OF idle(3) i, of Ended] by auto
qed (use i in \<open>simp_all add: call_start_def call_send_def shutdown_def\<close>)

text \<open>A worker without an idle limit that has not ended.\<close>

definition steady :: "host_pool \<Rightarrow> bool" where
  "steady p \<longleftrightarrow> (\<exists>j < length (jobs p). fst (jobs p ! j) = None \<and> snd (jobs p ! j) \<noteq> Ended)"

lemma steady_step: "pool_step serve closed e p p' \<Longrightarrow> e \<noteq> E_Panic \<Longrightarrow> steady p \<Longrightarrow> steady p'"
  unfolding steady_def using step_keeps_job by metis

lemma steady_run: "pool_run serve closed E p p' \<Longrightarrow> E_Panic \<notin> E \<Longrightarrow> steady p \<Longrightarrow> steady p'"
  by (induction rule: pool_run.induct) (use steady_step in \<open>metis+\<close>)

text \<open>All that can happen to calls that are there, but panics, dropped callers and a shutdown.\<close>

abbreviation inner_events :: "pool_event set" where
  "inner_events \<equiv> {E_Send, E_Timeout, E_Start, E_Receive, E_Reply, E_Idle}"

text \<open>What is left to happen: a call that waits in \<open>send_timeout\<close> may time out, which spawns a job, and send;
  a job starts, receives, replies and ends.\<close>

definition call_steps :: "request \<times> caller_state \<Rightarrow> nat" where
  "call_steps x = (case snd x of Sending \<Rightarrow> 6 | Blocked \<Rightarrow> 3 | _ \<Rightarrow> 0)"

definition job_steps :: "nat option \<times> job_state \<Rightarrow> nat" where
  "job_steps x = (case snd x of Submitted \<Rightarrow> 2 | Receiving \<Rightarrow> 1 | Serving m \<Rightarrow> 2 | Ended \<Rightarrow> 0)"

definition steps_left :: "host_pool \<Rightarrow> nat" where
  "steps_left p = sum_list (map call_steps (callers p)) + 2 * length (tx_queue p) + sum_list (map job_steps (jobs p))"

lemma call_steps_set:
  assumes "c < length (callers p)"
  shows "sum_list (map call_steps (callers (set_caller c st p))) + call_steps (callers p ! c)
    = sum_list (map call_steps (callers p)) + call_steps (undefined, st)"
  using sum_list_update_nat [OF assms, of call_steps "(fst (callers p ! c), st)"]
  by (simp add: set_caller_def call_steps_def)

lemma job_steps_set:
  assumes "j < length (jobs p)"
  shows "sum_list (map job_steps (jobs (set_job j st p))) + job_steps (jobs p ! j)
    = sum_list (map job_steps (jobs p)) + job_steps (undefined, st)"
  using sum_list_update_nat [OF assms, of job_steps "(fst (jobs p ! j), st)"]
  by (simp add: set_job_def job_steps_def)

lemma call_steps_deliver:
  "sum_list (map call_steps (callers (deliver c r p))) = sum_list (map call_steps (callers p))"
proof (cases "snd (callers p ! c) = Awaiting \<and> c < length (callers p)")
  case True
  then show ?thesis
    using call_steps_set [of c p "Returned r"] by (simp add: deliver_def call_steps_def)
next
  case False
  then show ?thesis
    by (auto simp: callers_deliver list_update_beyond)
qed

lemma call_steps_simps:
  "snd (callers p ! c) = st \<Longrightarrow> call_steps (callers p ! c) = call_steps (undefined, st)"
  "snd (jobs p ! j) = st' \<Longrightarrow> job_steps (jobs p ! j) = job_steps (undefined, st')"
  by (simp_all add: call_steps_def job_steps_def)

lemma inner_event_ends:
  assumes "pool_step serve closed e p p'" and "e \<in> inner_events"
  shows "steps_left p' < steps_left p"
  using assms(1)
proof (cases rule: pool_step.cases)
  case (send c)
  then show ?thesis
    using call_steps_set [of c p Awaiting]
    by (auto simp: steps_left_def call_send_def call_steps_simps) (auto simp: call_steps_def)
next
  case (timeout c active)
  let ?q = "if num_active_workers active p < pool_max_threads p then snd (spawn (Some (pool_max_idle p)) p) else p"
  have frame: "callers ?q = callers p" "tx_queue ?q = tx_queue p"
    by simp_all
  have jobs: "sum_list (map job_steps (jobs ?q)) \<le> sum_list (map job_steps (jobs p)) + 2"
    by (simp add: spawn_def job_steps_def)
  have "sum_list (map call_steps (callers (set_caller c Blocked ?q))) + 6 = sum_list (map call_steps (callers p)) + 3"
    using call_steps_set [of c ?q Blocked] timeout frame(1) by (simp add: call_steps_def)
  then show ?thesis
    using timeout(2) jobs frame(2) by (simp add: steps_left_def call_timed_out_def)
next
  case (start j)
  then show ?thesis
    using job_steps_set [of j p Receiving]
    by (simp add: steps_left_def call_steps_simps) (simp add: job_steps_def)
next
  case (receive j)
  then obtain m q where "tx_queue p = m # q"
    by (cases "tx_queue p") auto
  then show ?thesis
    using receive job_steps_set [of j p "Serving m"]
    by (simp add: steps_left_def worker_receive_def call_steps_simps) (simp add: job_steps_def)
next
  case (reply j m r)
  then show ?thesis
    using job_steps_set [of j p Receiving]
    by (simp add: steps_left_def worker_reply_def call_steps_deliver call_steps_simps) (simp add: job_steps_def)
next
  case (idle j d)
  then show ?thesis
    using job_steps_set [of j p Ended]
    by (simp add: steps_left_def) (simp add: job_steps_def)
qed (use assms(2) in simp_all)

lemma steady_goes_on:
  assumes "pool_wf serve closed p" and steady: "steady p" and "\<not> settled p" and "\<And>req. \<exists>r. serve req r"
  shows "\<exists>e p'. e \<in> inner_events \<and> pool_step serve closed e p p'"
proof (cases "alive p")
  case True
  then show ?thesis
    using serving_step [OF assms(1) _ assms(3,4)] by blast
next
  case False
  obtain j where j: "j < length (jobs p)" "snd (jobs p ! j) \<noteq> Ended"
    using steady by (auto simp: steady_def)
  have "\<not> (snd (jobs p ! j) = Receiving \<or> (\<exists>m. snd (jobs p ! j) = Serving m))"
    using False nth_mem [OF j(1)] unfolding alive_def by blast
  then have "snd (jobs p ! j) = Submitted"
    using j(2) by (cases "snd (jobs p ! j)") auto
  then show ?thesis
    using pool_step.start [OF j(1)] by blast
qed

lemma length_callers_step:
  "pool_step serve closed e p p' \<Longrightarrow> e \<noteq> E_Call \<Longrightarrow> length (callers p') = length (callers p)"
  by (erule pool_step.cases)
     (simp_all add: call_send_def call_timed_out_def worker_reply_def worker_panic_def shutdown_def)

text \<open>From a state that goes on until it is settled, every way of going on settles it.\<close>

lemma inner_run_settles:
  assumes "pool_wf serve closed p" and "steady p" and total: "\<And>req. \<exists>r. serve req r"
  shows "\<exists>p'. pool_run serve closed inner_events p p' \<and> settled p' \<and> length (callers p') = length (callers p)"
  using assms(1,2)
proof (induction "steps_left p" arbitrary: p rule: less_induct)
  case less
  show ?case
  proof (cases "settled p")
    case True
    then show ?thesis
      by (blast intro: pool_run.run_refl)
  next
    case False
    then obtain e q where q: "e \<in> inner_events" "pool_step serve closed e p q"
      using steady_goes_on [OF less.prems False total] by blast
    have "steady q" "length (callers q) = length (callers p)"
      using q steady_step [OF q(2) _ less.prems(2)] length_callers_step [OF q(2)] by auto
    then obtain p' where "pool_run serve closed inner_events q p'" "settled p'" "length (callers p') = length (callers q)"
      using less.hyps [OF inner_event_ends [OF q(2,1)] pool_wf_step [OF q(2) less.prems(1)]] by blast
    then show ?thesis
      using run_cons [OF _ q(2,1)] \<open>length (callers q) = length (callers p)\<close> by auto
  qed
qed

text \<open>C20: a pool with a worker that has no idle limit answers its calls, provided a host answers every
  request. Take any reachable state in which one of the workers of \<open>min_threads\<close> has not panicked. From
  it every schedule of sends, timeouts, starts, receives, replies and idle workers going away is finite,
  whichever elastic workers come and go in it; none stops before every call has returned or was dropped;
  and one leads there. Without panics every pool with \<open>min_threads\<close> above 0 stays in such states.\<close>

theorem pool_answers_every_call:
  assumes "HostPool_new accepts name n m wait idle = Ret p0" and "pool_run serve closed E p0 p"
    and "steady p \<or> 0 < n \<and> E_Panic \<notin> E" and "\<And>req. \<exists>r. serve req r"
  shows "(\<forall>p' e q. pool_run serve closed inner_events p p' \<longrightarrow> e \<in> inner_events \<longrightarrow> pool_step serve closed e p' q
            \<longrightarrow> steps_left q < steps_left p')
    \<and> (\<forall>p'. pool_run serve closed inner_events p p' \<longrightarrow>
         settled p' \<or> (\<exists>e q. e \<in> inner_events \<and> pool_step serve closed e p' q))
    \<and> (\<exists>p'. pool_run serve closed inner_events p p' \<and> settled p' \<and> length (callers p') = length (callers p))"
proof -
  have new: "p0 = fresh_pool name n m wait idle"
    using HostPool_new_Ret [OF assms(1)] .
  have wf: "pool_wf serve closed p"
    using pool_wf_run [OF assms(2)] new pool_wf_fresh by blast
  have "steady p0" if "0 < n"
    using that by (auto simp: new steady_def fresh_pool_def)
  then have steady: "steady p"
    using assms(3) steady_run [OF assms(2)] by blast
  have "settled p' \<or> (\<exists>e q. e \<in> inner_events \<and> pool_step serve closed e p' q)"
    if run: "pool_run serve closed inner_events p p'" for p'
    using steady_goes_on [OF pool_wf_run [OF run wf] steady_run [OF run _ steady] _ assms(4)] by auto
  then show ?thesis
    using inner_run_settles [OF wf steady assms(4)] inner_event_ends by blast
qed

subsection \<open>Where calls get stuck\<close>

text \<open>A pool without jobs, with one call whose message is in the channel.\<close>

definition stranded :: "host_pool \<Rightarrow> bool" where
  "stranded p \<longleftrightarrow> jobs p = [] \<and> length (callers p) = 1 \<and> snd (callers p ! 0) \<in> {Awaiting, Dropped}"

lemma stranded_step:
  assumes "pool_step serve closed e p p'" and "e \<noteq> E_Call" and "stranded p"
  shows "stranded p'"
  using assms(1)
proof (cases rule: pool_step.cases)
  case (drop c)
  then show ?thesis
    using assms(3) by (auto simp: stranded_def set_caller_def)
qed (use assms(2,3) in \<open>auto simp: stranded_def shutdown_def\<close>)

lemma stranded_run:
  assumes "pool_run serve closed E p p'" and "E_Call \<notin> E" and "stranded p"
  shows "stranded p'"
  using assms by (induction rule: pool_run.induct) (metis stranded_step)+

text \<open>C34: on a pool with \<open>min_threads\<close> 0 a call that finds the channel empty is never answered, however
  long it waits, unless another call comes: its message goes into the channel at once, so the send
  does not time out and no worker is ever spawned.\<close>

theorem zero_min_threads_strands_call:
  assumes "HostPool_new accepts name 0 m wait idle = Ret p0"
  shows "\<exists>p. pool_run serve closed {E_Call, E_Send} p0 p \<and> snd (callers p ! 0) = Awaiting
    \<and> (\<forall>p'. pool_run serve closed (- {E_Call}) p p' \<longrightarrow> \<not> alive p' \<and> snd (callers p' ! 0) \<in> {Awaiting, Dropped})"
proof -
  let ?q = "call_start op payload p0"
  let ?p = "call_send 0 ?q"
  have p0: "p0 = fresh_pool name 0 m wait idle"
    using HostPool_new_Ret [OF assms] .
  have len: "0 < length (callers ?q)" and sending: "snd (callers ?q ! 0) \<in> {Sending, Blocked}"
    and empty: "tx_queue ?q = []"
    by (simp_all add: p0 call_start_def fresh_pool_def)
  have run: "pool_run serve closed {E_Call, E_Send} p0 ?p"
    by (rule pool_run.run_step [OF pool_run.run_step [OF pool_run.run_refl pool_step.call]
          pool_step.send [OF len sending empty]]) simp_all
  have stranded: "stranded ?p"
    by (simp add: stranded_def p0 call_start_def call_send_def fresh_pool_def set_caller_def)
  have "\<not> alive p' \<and> snd (callers p' ! 0) \<in> {Awaiting, Dropped}"
    if "pool_run serve closed (- {E_Call}) ?p p'" for p'
    using stranded_run [OF that _ stranded] by (simp add: stranded_def alive_def)
  moreover have "snd (callers ?p ! 0) = Awaiting"
    by (simp add: p0 call_start_def call_send_def fresh_pool_def set_caller_def)
  ultimately show ?thesis
    using run by blast
qed

subsection \<open>Shutting down\<close>

text \<open>A worker without an idle limit that ended did so in a panic.\<close>

lemma ended_by_panic:
  assumes "pool_run serve closed E p0 p" and "j < length (jobs p0)" and "fst (jobs p0 ! j) = None"
    and "snd (jobs p0 ! j) \<noteq> Ended"
  shows "j < length (jobs p) \<and> fst (jobs p ! j) = None
    \<and> (snd (jobs p ! j) = Ended \<longrightarrow> (\<exists>q q'. pool_run serve closed E p0 q \<and> E_Panic \<in> E
         \<and> pool_step serve closed E_Panic q q' \<and> pool_run serve closed E q' p
         \<and> snd (jobs q ! j) \<noteq> Ended \<and> snd (jobs q' ! j) = Ended))"
  using assms
proof (induction rule: pool_run.induct)
  case (run_step q e r)
  then have before: "j < length (jobs q)" "fst (jobs q ! j) = None"
    by simp_all
  note job = step_keeps_job [OF run_step.hyps(2) before(1)]
  show ?case
  proof (cases "snd (jobs q ! j) = Ended")
    case True
    then obtain a b where "pool_run serve closed E p0 a" "E_Panic \<in> E" "pool_step serve closed E_Panic a b"
        "snd (jobs a ! j) \<noteq> Ended" "snd (jobs b ! j) = Ended" and "pool_run serve closed E b q"
      using run_step.IH run_step.prems by blast
    then show ?thesis
      using job before pool_run.run_step [OF _ run_step.hyps(2,3), of b] by auto
  next
    case False
    then show ?thesis
      using job before run_step.hyps pool_run.run_refl [of serve closed E r] by auto
  qed
qed simp

text \<open>C35: on a pool with at least one minimum thread \<open>shutdown\<close> returns only when every one of those
  workers has panicked, in its factory or in a call, and never when nothing panics: it waits for their
  jobs, and a worker without an idle limit does not end otherwise, as it waits on a channel that the pool
  itself keeps open. Elastic workers may panic or go away as they like.\<close>

theorem shutdown_never_joins:
  assumes "HostPool_new accepts name n m wait idle = Ret p0" and "pool_run serve closed E p0 p" and "joined p"
    and "j < n"
  shows "\<exists>q q'. pool_run serve closed E p0 q \<and> E_Panic \<in> E \<and> pool_step serve closed E_Panic q q'
    \<and> pool_run serve closed E q' p \<and> snd (jobs q ! j) \<noteq> Ended \<and> snd (jobs q' ! j) = Ended"
proof -
  have first: "j < length (jobs p0)" "fst (jobs p0 ! j) = None" "snd (jobs p0 ! j) \<noteq> Ended"
    using HostPool_new_Ret [OF assms(1)] assms(4) by (simp_all add: fresh_pool_def)
  note job = ended_by_panic [OF assms(2) first]
  then have "snd (jobs p ! j) = Ended"
    using assms(3) unfolding joined_def by auto
  then show ?thesis
    using job by blast
qed

text \<open>A pool that was shut down and whose workers have ended. Its senders time out, but no worker can be
  spawned any more.\<close>

definition closed_down :: "host_pool \<Rightarrow> bool" where
  "closed_down p \<longleftrightarrow> \<not> pool_open p \<and> joined p"

lemma closed_down_step:
  assumes "pool_step serve closed e p p'" and down: "closed_down p"
  shows "closed_down p' \<and> (\<forall>c r. snd (callers p' ! c) = Returned r \<and> c < length (callers p')
    \<longrightarrow> c < length (callers p) \<and> snd (callers p ! c) = Returned r)"
proof -
  have ended: "snd (jobs p ! j) = Ended" if "j < length (jobs p)" for j
    using down that by (auto simp: closed_down_def joined_def)
  show ?thesis
    using assms(1)
  proof (cases rule: pool_step.cases)
    case (call op payload)
    then show ?thesis
      using down by (auto simp: closed_down_def joined_def call_start_def nth_append less_Suc_eq)
  next
    case (send c)
    then show ?thesis
      using down by (auto simp: closed_down_def joined_def call_send_def set_caller_def nth_list_update split: if_splits)
  next
    case (timeout c active)
    then show ?thesis
      using down
      by (auto simp: closed_down_def joined_def call_timed_out_def spawn_def set_caller_def nth_list_update split: if_splits)
  next
    case (drop c)
    then show ?thesis
      using down by (auto simp: closed_down_def joined_def set_caller_def nth_list_update split: if_splits)
  next
    case shutdown
    then show ?thesis
      using down by (auto simp: closed_down_def joined_def shutdown_def)
  qed (use ended in force)+
qed

lemma closed_down_run:
  assumes "pool_run serve closed E p p'" and "closed_down p"
  shows "closed_down p' \<and> (\<forall>c r. snd (callers p' ! c) = Returned r \<and> c < length (callers p')
    \<longrightarrow> c < length (callers p) \<and> snd (callers p ! c) = Returned r)"
  using assms
proof (induction rule: pool_run.induct)
  case (run_step q e s)
  then show ?case
    using closed_down_step [OF run_step.hyps(2)] by blast
qed simp

text \<open>C36: a call on a pool that was shut down returns nothing, not even the error for a pool without
  workers: \<open>spawn\<close> reports that error to \<open>call\<close>, which logs it and waits. The first such call hands its
  message to the channel, the others wait for room in it, and all wait for ever.\<close>

theorem call_after_shutdown_hangs:
  assumes "\<not> pool_open p" and "joined p" and "pool_run serve closed E p p'"
    and "length (callers p) \<le> c" and "c < length (callers p')"
  shows "(\<forall>r. snd (callers p' ! c) \<noteq> Returned r) \<and> \<not> alive p'
    \<and> spawn d p' = (Inl (wapc_error_of_pool_error NoPool), p')"
proof -
  have "closed_down p'" "\<And>r. snd (callers p' ! c) \<noteq> Returned r"
    using closed_down_run [OF assms(3)] assms(1,2,4,5) by (force simp: closed_down_def)+
  then show ?thesis
    by (force simp: closed_down_def joined_def alive_def spawn_def)
qed

subsection \<open>Runs of small pools\<close>

theorem pool_answers_every_call_witness:
  "\<exists>p'. pool_run echo_serve ''closed'' inner_events small_receiving p' \<and> settled p' \<and> length (callers p') = 1"
proof -
  have no_panic: "steady small_receiving \<or> 0 < (1 :: nat) \<and> E_Panic \<notin> {E_Call, E_Start, E_Send}"
    by simp
  have total: "\<exists>r. echo_serve req r" for req
    by (simp add: echo_serve_def)
  show ?thesis
    using pool_answers_every_call [OF small_new small_run_receiving no_panic total]
    by (simp add: small_receiving_calls)
qed

theorem zero_min_threads_strands_call_witness:
  "\<exists>p. pool_run echo_serve ''closed'' {E_Call, E_Send} (fresh_pool ''p'' 0 2 100 1000) p
     \<and> snd (callers p ! 0) = Awaiting"
proof -
  have "HostPool_new (\<lambda>_ _. True) ''p'' 0 2 100 1000 = Ret (fresh_pool ''p'' 0 2 100 1000)"
    by (simp add: HostPool_new_eq)
  from zero_min_threads_strands_call [OF this, of echo_serve "''closed''"] show ?thesis
    by blast
qed

text \<open>The only worker panics in its factory: then, and only then, \<open>shutdown\<close> would return.\<close>

theorem shutdown_never_joins_witness:
  "joined (set_job 0 Ended small_pool)
   \<and> (\<exists>q q'. pool_run echo_serve ''closed'' {E_Panic} small_pool q \<and> pool_step echo_serve ''closed'' E_Panic q q'
        \<and> snd (jobs q ! 0) \<noteq> Ended \<and> snd (jobs q' ! 0) = Ended)"
proof -
  have run: "pool_run echo_serve ''closed'' {E_Panic} small_pool (set_job 0 Ended small_pool)"
    by (rule pool_run.run_step [OF pool_run.run_refl pool_step.factory_panic]) (simp_all add: small_defs)
  have joined: "joined (set_job 0 Ended small_pool)"
    by (simp add: joined_def small_defs)
  show ?thesis
    using shutdown_never_joins [OF small_new run joined zero_less_one] joined by blast
qed

text \<open>An empty pool without minimum, shut down, then called.\<close>

theorem call_after_shutdown_hangs_witness:
  "\<exists>p. pool_run echo_serve ''closed'' {E_Shutdown, E_Call, E_Send} (fresh_pool ''p'' 0 2 100 1000) p
     \<and> snd (callers p ! 0) = Awaiting \<and> (\<forall>r. snd (callers p ! 0) \<noteq> Returned r) \<and> \<not> alive p"
proof -
  let ?start = "fresh_pool ''p'' 0 2 100 1000"
  let ?down = "snd (shutdown ?start)"
  let ?q = "call_start ''echo'' [1] ?down"
  let ?called = "call_send 0 ?q"
  have stop: "pool_step echo_serve ''closed'' E_Shutdown ?start ?down"
    by (rule pool_step.shutdown) (simp add: fresh_pool_def)
  have send: "pool_step echo_serve ''closed'' E_Send ?q ?called"
    by (rule pool_step.send) (simp_all add: call_start_def shutdown_def fresh_pool_def)
  have later: "pool_run echo_serve ''closed'' {E_Shutdown, E_Call, E_Send} ?down ?called"
    by (rule pool_run.run_step [OF pool_run.run_step [OF pool_run.run_refl pool_step.call] send]) simp_all
  have all: "pool_run echo_serve ''closed'' {E_Shutdown, E_Call, E_Send} ?start ?called"
    by (rule run_cons [OF later stop]) simp
  have "\<not> pool_open ?down" "joined ?down" "length (callers ?down) \<le> 0" "0 < length (callers ?called)"
    by (simp_all add: shutdown_def fresh_pool_def joined_def call_send_def call_start_def)
  from call_after_shutdown_hangs [OF this(1,2) later this(3,4)]
  have "(\<forall>r. snd (callers ?called ! 0) \<noteq> Returned r) \<and> \<not> alive ?called"
    by blast
  moreover have "snd (callers ?called ! 0) = Awaiting"
    by (simp add: call_send_def call_start_def shutdown_def fresh_pool_def set_caller_def)
  ultimately show ?thesis
    using all by blast
qed

end
