(* ===== verification/Guest_Protocol.thy ===== *)
theory Guest_Protocol
  imports Guest_Program Module_State
begin

text \<open>
  The synchronous half of the guest SDK (\<open>crates/wapc-guest/src/protocol.rs\<close>) and its errors
  (\<open>crates/wapc-guest/src/errors.rs\<close>), as guest programs on a 32-bit guest.

  \<^item> The statics are fields of \<open>sdk\<close>: the registry behind its mutex, the counter \<open>CALL_NUM\<close>, and
    whatever the module itself keeps (\<open>'u\<close>). A function pointer is an index into the table of
    handlers.
  \<^item> A vector is its contents; where the code takes its pointer, a block of the guest's memory is
    allocated for it. An empty vector has the dangling pointer 1 and allocates nothing, and a
    capacity above \<open>isize::MAX\<close> aborts, as \<open>Vec::with_capacity\<close> does. Freeing is left out.
  \<^item> The allocator and the handlers are not code of the repository: they are the parameters of
    \<open>guest_rt\<close>, together with the texts of the traps. The mutex of \<open>parking_lot\<close> cannot wait on a
    target without threads, so locking it twice traps.
  \<^item> \<open>println!\<close> prints nothing on \<open>wasm32-unknown-unknown\<close> and is left out.
\<close>

subsection \<open>Errors\<close>

datatype error_kind = HostErrorKind bytes | Async i32 string

text \<open>\<open>String::from_utf8_lossy\<close>: at a byte, either a well-formed character with so many more
  bytes (\<open>Inr\<close>), or a maximal ill-formed part with so many more bytes (\<open>Inl\<close>), which becomes one
  U+FFFD.\<close>

definition replacement :: bytes where
  "replacement = [0xEF, 0xBF, 0xBD]"

definition utf8_char :: "u8 \<Rightarrow> bytes \<Rightarrow> nat + nat" where
  "utf8_char b bs =
     (if utf8_width b = 0 then Inl 0
      else if utf8_width b = 1 then Inr 0
      else case bs of
        [] \<Rightarrow> Inl 0
      | c # cs \<Rightarrow>
          if \<not> utf8_second_ok b c then Inl 0
          else if utf8_width b = 2 then Inr 1
          else case cs of
            [] \<Rightarrow> Inl 1
          | d # ds \<Rightarrow>
              if \<not> is_cont d then Inl 1
              else if utf8_width b = 3 then Inr 2
              else case ds of
                [] \<Rightarrow> Inl 2
              | e # es \<Rightarrow> if is_cont e then Inr 3 else Inl 2)"

fun utf8_lossy :: "bytes \<Rightarrow> bytes" where
  "utf8_lossy [] = []"
| "utf8_lossy (b # bs) =
     (case utf8_char b bs of
        Inr n \<Rightarrow> b # take n bs @ utf8_lossy (drop n bs)
      | Inl n \<Rightarrow> replacement @ utf8_lossy (drop n bs))"

definition from_utf8_lossy :: "bytes \<Rightarrow> string" where
  "from_utf8_lossy bs = string_of_bytes (utf8_lossy bs)"

fun show_nat :: "nat \<Rightarrow> string" where
  "show_nat n = (if n < 10 then [char_of (48 + n)] else show_nat (n div 10) @ [char_of (48 + n mod 10)])"

declare show_nat.simps [simp del]

definition show_i32 :: "i32 \<Rightarrow> string" where
  "show_i32 k = (if sint k < 0 then ''-'' @ show_nat (nat (- sint k)) else show_nat (nat (sint k)))"

fun error_kind_to_string :: "error_kind \<Rightarrow> string" where
  "error_kind_to_string (HostErrorKind e) = ''Host error: '' @ from_utf8_lossy e"
| "error_kind_to_string (Async i e) = ''Async error: call '' @ show_i32 i @ '' failed: '' @ e"

subsection \<open>The state of the SDK and what it runs on\<close>

record 'u sdk =
  registry :: "bytes \<rightharpoonup> nat"
  registry_locked :: bool
  CALL_NUM :: i32
  user :: 'u

record 'u guest_rt =
  rt_alloc :: "nat \<Rightarrow> 'u sdk winst \<Rightarrow> (i32 \<times> 'u sdk winst) option"
  rt_handlers :: "nat \<Rightarrow> bytes \<Rightarrow> ('u sdk, host_result) guest_prog"
  trap_capacity :: string
  trap_alloc :: string
  trap_bounds :: string
  trap_lock :: string
  trap_result :: string

type_synonym ('u, 'r) sdk_prog = "('u sdk, 'r) guest_prog"

definition with_capacity :: "'u guest_rt \<Rightarrow> nat \<Rightarrow> ('u, i32) sdk_prog" where
  "with_capacity rt n =
     (if n = 0 then GRet 1
      else if 2 ^ 31 \<le> n then GTrap (trap_capacity rt)
      else GGet (\<lambda>i. case rt_alloc rt n i of
             None \<Rightarrow> GTrap (trap_alloc rt)
           | Some (p, i') \<Rightarrow> GPut i' (GRet p)))"

definition load_bytes :: "'u guest_rt \<Rightarrow> i32 \<Rightarrow> nat \<Rightarrow> ('u, bytes) sdk_prog" where
  "load_bytes rt p n = GGet (\<lambda>i. case wmem i of
     None \<Rightarrow> GTrap (trap_bounds rt)
   | Some m \<Rightarrow> if unat p + n \<le> length m then GRet (block (unat p) n m) else GTrap (trap_bounds rt))"

definition store_bytes :: "'u guest_rt \<Rightarrow> i32 \<Rightarrow> bytes \<Rightarrow> ('u, unit) sdk_prog" where
  "store_bytes rt p bs = GGet (\<lambda>i. case wmem i of
     None \<Rightarrow> GTrap (trap_bounds rt)
   | Some m \<Rightarrow>
       if unat p + length bs \<le> length m
       then GPut (i\<lparr>wmem := Some (overwrite (unat p) bs m)\<rparr>) (GRet ())
       else GTrap (trap_bounds rt))"

text \<open>The address of a vector with the given contents.\<close>

definition place :: "'u guest_rt \<Rightarrow> bytes \<Rightarrow> ('u, i32) sdk_prog" where
  "place rt bs =
     gbind (with_capacity rt (length bs)) (\<lambda>p. gbind (store_bytes rt p bs) (\<lambda>_. GRet p))"

text \<open>\<open>REGISTRY.lock()\<close>, with the map it guards, and the drop of the guard.\<close>

definition lock_registry :: "'u guest_rt \<Rightarrow> ('u, bytes \<rightharpoonup> nat) sdk_prog" where
  "lock_registry rt = GGet (\<lambda>i.
     if registry_locked (wstate i) then GTrap (trap_lock rt)
     else GPut (i\<lparr>wstate := (wstate i)\<lparr>registry_locked := True\<rparr>\<rparr>) (GRet (registry (wstate i))))"

definition unlock_registry :: "('u, unit) sdk_prog" where
  "unlock_registry = gmodify (\<lambda>i. i\<lparr>wstate := (wstate i)\<lparr>registry_locked := False\<rparr>\<rparr>)"

subsection \<open>Registering and dispatching\<close>

definition register_function :: "'u guest_rt \<Rightarrow> string \<Rightarrow> nat \<Rightarrow> ('u, unit) sdk_prog" where
  "register_function rt name f =
     gbind (lock_registry rt) (\<lambda>reg.
     gbind (gmodify (\<lambda>i. i\<lparr>wstate := (wstate i)\<lparr>registry := reg(as_bytes name \<mapsto> f)\<rparr>\<rparr>)) (\<lambda>_.
       unlock_registry))"

definition no_handler :: string where
  "no_handler = ''No handler registered for function ''"

definition unregistered_message :: "bytes \<Rightarrow> bytes" where
  "unregistered_message opbuf = as_bytes no_handler @ opbuf"

text \<open>The two replies of \<open>__guest_call\<close>; the guard of the registry lives to the end of the match.\<close>

definition respond :: "'u guest_rt \<Rightarrow> host_exports \<Rightarrow> i32 \<Rightarrow> bytes \<Rightarrow> i32 \<Rightarrow> ('u, i32) sdk_prog" where
  "respond rt e index bs code =
     gbind (place rt bs) (\<lambda>p.
     gbind (gcall_unit e [index, p, of_nat (length bs)]) (\<lambda>_.
     gbind unlock_registry (\<lambda>_. GRet code)))"

definition fetch_request :: "'u guest_rt \<Rightarrow> i32 \<Rightarrow> i32 \<Rightarrow> i32 \<Rightarrow> ('u, bytes \<times> bytes) sdk_prog" where
  "fetch_request rt index op_len req_len =
     gbind (with_capacity rt (unat req_len)) (\<lambda>buf_ptr.
     gbind (with_capacity rt (unat op_len)) (\<lambda>op_ptr.
     gbind (gcall_unit GuestRequest [index, op_ptr, buf_ptr]) (\<lambda>_.
     gbind (load_bytes rt buf_ptr (unat req_len)) (\<lambda>buf.
     gbind (load_bytes rt op_ptr (unat op_len)) (\<lambda>opbuf.
       GRet (buf, opbuf))))))"

definition guest_call :: "'u guest_rt \<Rightarrow> i32 \<Rightarrow> i32 \<Rightarrow> i32 \<Rightarrow> ('u, i32) sdk_prog" where
  "guest_call rt index op_len req_len =
     gbind (fetch_request rt index op_len req_len) (\<lambda>(buf, opbuf).
     gbind (lock_registry rt) (\<lambda>reg.
       case reg opbuf of
         Some handler \<Rightarrow>
           gbind (rt_handlers rt handler buf) (\<lambda>r.
             case r of
               Inr result \<Rightarrow> respond rt GuestResponse index result 1
             | Inl e \<Rightarrow> respond rt GuestError index (as_bytes e) 0)
       | None \<Rightarrow> respond rt GuestError index (unregistered_message opbuf) 0))"

subsection \<open>Host calls\<close>

text \<open>A slice of the guest: its address and its contents.\<close>

type_synonym slice = "i32 \<times> bytes"

definition fetch_call_num :: "('u, i32) sdk_prog" where
  "fetch_call_num = GGet (\<lambda>i.
     GPut (i\<lparr>wstate := (wstate i)\<lparr>CALL_NUM := CALL_NUM (wstate i) + 1\<rparr>\<rparr>) (GRet (CALL_NUM (wstate i))))"

text \<open>A vector filled by the host: its length is asked for, room is made for it, and the host
  writes it.\<close>

definition fetch_from_host ::
    "'u guest_rt \<Rightarrow> host_exports \<Rightarrow> host_exports \<Rightarrow> i32 \<Rightarrow> ('u, bytes) sdk_prog" where
  "fetch_from_host rt len_fn fill_fn index =
     GCall len_fn [index] (\<lambda>len.
       case len of
         None \<Rightarrow> GTrap (trap_result rt)
       | Some n \<Rightarrow>
           gbind (with_capacity rt (unat n)) (\<lambda>retptr.
           gbind (gcall_unit fill_fn [index, retptr]) (\<lambda>_.
             load_bytes rt retptr (unat n))))"

definition host_call_finish :: "'u guest_rt \<Rightarrow> i32 \<Rightarrow> i32 \<Rightarrow> ('u, error_kind + bytes) sdk_prog" where
  "host_call_finish rt index callresult =
     (if callresult \<noteq> 1
      then gbind (fetch_from_host rt HostErrorLen HostError index) (\<lambda>buf. GRet (Inl (HostErrorKind buf)))
      else gbind (fetch_from_host rt HostResponseLen HostResponse index) (\<lambda>buf. GRet (Inr buf)))"

definition slice_args :: "slice list \<Rightarrow> i32 list" where
  "slice_args ss = concat (map (\<lambda>s. [fst s, of_nat (length (snd s))]) ss)"

definition host_call :: "'u guest_rt \<Rightarrow> slice \<Rightarrow> slice \<Rightarrow> slice \<Rightarrow> slice \<Rightarrow> ('u, error_kind + bytes) sdk_prog" where
  "host_call rt binding ns op m =
     gbind fetch_call_num (\<lambda>index.
       GCall HostCall (index # slice_args [binding, ns, op, m]) (\<lambda>r.
         case r of
           None \<Rightarrow> GTrap (trap_result rt)
         | Some callresult \<Rightarrow> host_call_finish rt index callresult))"

definition console_log :: "slice \<Rightarrow> ('u, unit) sdk_prog" where
  "console_log s = gcall_unit ConsoleLog (slice_args [s])"

end
