(* ===== verification/Guest_Executor.thy ===== *)
theory Guest_Executor
  imports Guest_Protocol
begin

text \<open>
  The asynchronous half of the guest SDK (\<open>crates/wapc-guest/src/protocol.rs\<close>): the dispatcher,
  \<open>__async_guest_call\<close>, \<open>async_host_call\<close>, \<open>__host_call_response_ready\<close> and \<open>exhaust_tasks\<close>.

  \<^item> The statics of this half are \<open>async_statics\<close>, the part of the SDK's state that \<open>Guest_Protocol\<close>
    leaves to the module; what the module keeps for itself is its field \<open>own\<close>. \<open>ASYNC_HOST_CALLS\<close> is
    a list of its entries, a oneshot sender the index of a slot of \<open>host_oneshots\<close>. A trap inside a
    statement that holds the mutex leaves it locked, since a trap does not unwind.
  \<^item> A future is what the compiler makes of it: a value that \<open>poll\<close> maps to its next value or to its
    result. The dispatcher's futures have the type \<open>'t\<close> and are polled by the parameter \<open>rt_poll\<close>; the
    SDK's own futures are \<open>call_task\<close>, the task of one call, and \<open>host_call_future\<close>.
  \<^item> The executor is the library \<open>yielding-async-executor\<close>. It keeps the spawned futures, counts them
    and, while a condition holds, polls one of them after the other; which one is the parameter
    \<open>rt_pick\<close>, what it does when it has none to poll is \<open>rt_idle\<close>. Tasks that a module spawns for
    itself are left out.
  \<^item> The loop of \<open>run_while\<close> need not end, and a \<open>guest_prog\<close> is a finite tree: \<open>run_while\<close> gets a number
    of turns and traps with a text of its own when they are used up. \<open>exhaust_tasks_terminates\<close> says
    how many are enough.
  \<^item> \<open>usize\<close> has 32 bits in a guest, and its subtraction wraps around as in a release build; a debug
    build traps instead.
\<close>

subsection \<open>Statics and parameters\<close>

datatype 't call_task =
    Call_Start nat i32 bytes bytes
  | Call_Dispatched i32 't

record ('t, 'u) async_statics =
  dispatcher :: "nat option"
  async_registry :: "bytes \<rightharpoonup> nat"
  async_host_calls :: "(i32 \<times> nat) list"
  host_calls_locked :: bool
  host_oneshots :: "i32 oneshot list"
  tasks :: "'t call_task list"
  own :: 'u

type_synonym ('t, 'u) async_inst = "('t, 'u) async_statics sdk winst"
type_synonym ('t, 'u, 'r) async_prog = "(('t, 'u) async_statics, 'r) sdk_prog"

record sdk_invocation =
  inv_id :: i32
  inv_operation :: string
  inv_payload :: bytes

record ('t, 'u) async_rt =
  sync_rt :: "('t, 'u) async_statics guest_rt"
  rt_dispatch :: "nat \<Rightarrow> sdk_invocation \<Rightarrow> ('t, 'u, 't) async_prog"
  rt_poll :: "'t \<Rightarrow> ('t, 'u, 't + host_result) async_prog"
  rt_pick :: "('t, 'u) async_inst \<Rightarrow> nat option"
  rt_idle :: "('t, 'u, unit) async_prog"
  trap_unwrap :: string
  trap_turns :: string
  recv_error_text :: string

abbreviation statics :: "('t, 'u) async_inst \<Rightarrow> ('t, 'u) async_statics" where
  "statics i \<equiv> user (wstate i)"

definition set_statics ::
    "(('t, 'u) async_statics \<Rightarrow> ('t, 'u) async_statics) \<Rightarrow> ('t, 'u) async_inst \<Rightarrow> ('t, 'u) async_inst" where
  "set_statics f i = i\<lparr>wstate := (wstate i)\<lparr>user := f (statics i)\<rparr>\<rparr>"

definition change_statics ::
    "(('t, 'u) async_statics \<Rightarrow> ('t, 'u) async_statics) \<Rightarrow> ('t, 'u, unit) async_prog" where
  "change_statics f = gmodify (set_statics f)"

subsection \<open>The table of host calls in flight\<close>

text \<open>\<open>HashMap::get\<close>, \<open>insert\<close>, which drops the sender it replaces, and \<open>remove\<close>.\<close>

definition slot_resolve :: "nat \<Rightarrow> i32 oneshot \<Rightarrow> i32 oneshot list \<Rightarrow> i32 oneshot list" where
  "slot_resolve k v slots = (if k < length slots \<and> slots ! k = Pending then slots[k := v] else slots)"

definition remove_entry :: "i32 \<Rightarrow> (i32 \<times> nat) list \<Rightarrow> (i32 \<times> nat) list" where
  "remove_entry i m = filter (\<lambda>e. fst e \<noteq> i) m"

definition insert_host_call :: "i32 \<Rightarrow> nat \<Rightarrow> ('t, 'u) async_statics \<Rightarrow> ('t, 'u) async_statics" where
  "insert_host_call i tx st =
     (let st' = st\<lparr>async_host_calls := (i, tx) # remove_entry i (async_host_calls st)\<rparr>
      in case map_of (async_host_calls st) i of
           None \<Rightarrow> st'
         | Some old \<Rightarrow> st'\<lparr>host_oneshots := slot_resolve old Sender_Dropped (host_oneshots st)\<rparr>)"

definition lock_host_calls :: "('t, 'u) async_rt \<Rightarrow> ('t, 'u, unit) async_prog" where
  "lock_host_calls rt = GGet (\<lambda>i.
     if host_calls_locked (statics i) then GTrap (trap_lock (sync_rt rt))
     else GPut (set_statics (\<lambda>st. st\<lparr>host_calls_locked := True\<rparr>) i) (GRet ()))"

definition unlock_host_calls :: "('t, 'u, unit) async_prog" where
  "unlock_host_calls = change_statics (\<lambda>st. st\<lparr>host_calls_locked := False\<rparr>)"

subsection \<open>Registration\<close>

text \<open>A dispatcher can be set once; the table of asynchronous functions is never read.\<close>

definition register_dispatcher :: "nat \<Rightarrow> ('t, 'u, unit) async_prog" where
  "register_dispatcher d =
     change_statics (\<lambda>st. case dispatcher st of None \<Rightarrow> st\<lparr>dispatcher := Some d\<rparr> | Some _ \<Rightarrow> st)"

definition register_async_function :: "string \<Rightarrow> nat \<Rightarrow> ('t, 'u, unit) async_prog" where
  "register_async_function name f =
     change_statics (\<lambda>st. st\<lparr>async_registry := (async_registry st)(as_bytes name \<mapsto> f)\<rparr>)"

subsection \<open>The task of a call\<close>

text \<open>What follows the dispatcher's future: the reply, and the end of the call.\<close>

definition reply_async :: "('t, 'u) async_rt \<Rightarrow> i32 \<Rightarrow> host_result \<Rightarrow> ('t, 'u, unit) async_prog" where
  "reply_async rt i result =
     gbind (case result of
         Inr v \<Rightarrow>
           gbind (place (sync_rt rt) v) (\<lambda>p.
           gbind (gcall_unit GuestResponse [i, p, of_nat (length v)]) (\<lambda>_. GRet 1))
       | Inl e \<Rightarrow>
           gbind (place (sync_rt rt) (as_bytes e)) (\<lambda>p.
           gbind (gcall_unit GuestError [i, p, of_nat (length e)]) (\<lambda>_. GRet 0))) (\<lambda>code.
       gcall_unit GuestResponseReady [i, code])"

definition poll_dispatched ::
    "('t, 'u) async_rt \<Rightarrow> i32 \<Rightarrow> 't \<Rightarrow> ('t, 'u, 't call_task option) async_prog" where
  "poll_dispatched rt i t =
     gbind (rt_poll rt t) (\<lambda>r.
       case r of
         Inl t' \<Rightarrow> GRet (Some (Call_Dispatched i t'))
       | Inr result \<Rightarrow> gbind (reply_async rt i result) (\<lambda>_. GRet None))"

fun poll_call_task :: "('t, 'u) async_rt \<Rightarrow> 't call_task \<Rightarrow> ('t, 'u, 't call_task option) async_prog" where
  "poll_call_task rt (Call_Start d i opbuf buf) =
     gbind (rt_dispatch rt d \<lparr>inv_id = i, inv_operation = from_utf8_lossy opbuf, inv_payload = buf\<rparr>)
       (poll_dispatched rt i)"
| "poll_call_task rt (Call_Dispatched i t) = poll_dispatched rt i t"

subsection \<open>The executor\<close>

definition spawn_task :: "'t call_task \<Rightarrow> ('t, 'u, unit) async_prog" where
  "spawn_task t = change_statics (\<lambda>st. st\<lparr>tasks := tasks st @ [t]\<rparr>)"

text \<open>A task that is ready is gone; one that is pending takes its place again.\<close>

definition replace_task :: "nat \<Rightarrow> 't call_task option \<Rightarrow> 't call_task list \<Rightarrow> 't call_task list" where
  "replace_task k r ts =
     (case r of Some t \<Rightarrow> ts[k := t] | None \<Rightarrow> take k ts @ drop (Suc k) ts)"

definition executor_turn :: "('t, 'u) async_rt \<Rightarrow> ('t, 'u, unit) async_prog" where
  "executor_turn rt = GGet (\<lambda>i.
     case rt_pick rt i of
       None \<Rightarrow> rt_idle rt
     | Some k \<Rightarrow>
         gbind (poll_call_task rt (tasks (statics i) ! k)) (\<lambda>r.
           change_statics (\<lambda>st. st\<lparr>tasks := replace_task k r (tasks st)\<rparr>)))"

primrec run_while :: "('t, 'u) async_rt \<Rightarrow> ('t, 'u, bool) async_prog \<Rightarrow> nat \<Rightarrow> ('t, 'u, unit) async_prog" where
  "run_while rt cond 0 = GTrap (trap_turns rt)"
| "run_while rt cond (Suc n) =
     gbind cond (\<lambda>b. if b then gbind (executor_turn rt) (\<lambda>_. run_while rt cond n) else GRet ())"

text \<open>The condition of \<open>exhaust_tasks\<close>, over 32-bit counts.\<close>

definition more_tasks :: "nat \<Rightarrow> nat \<Rightarrow> bool" where
  "more_tasks count in_flight \<longleftrightarrow> 0 < (of_nat count - of_nat in_flight :: 32 word)"

definition exhaust_condition :: "('t, 'u) async_rt \<Rightarrow> ('t, 'u, bool) async_prog" where
  "exhaust_condition rt =
     gbind (lock_host_calls rt) (\<lambda>_.
     GGet (\<lambda>i. gbind unlock_host_calls (\<lambda>_.
       GRet (more_tasks (length (tasks (statics i))) (length (async_host_calls (statics i)))))))"

definition exhaust_tasks :: "('t, 'u) async_rt \<Rightarrow> nat \<Rightarrow> ('t, 'u, unit) async_prog" where
  "exhaust_tasks rt turns = run_while rt (exhaust_condition rt) turns"

subsection \<open>The exported functions\<close>

definition async_guest_call ::
    "('t, 'u) async_rt \<Rightarrow> nat \<Rightarrow> i32 \<Rightarrow> i32 \<Rightarrow> i32 \<Rightarrow> ('t, 'u, unit) async_prog" where
  "async_guest_call rt turns i op_len req_len =
     gbind (fetch_request (sync_rt rt) i op_len req_len) (\<lambda>(buf, opbuf).
     GGet (\<lambda>ins.
       case dispatcher (statics ins) of
         None \<Rightarrow> GTrap (trap_unwrap rt)
       | Some d \<Rightarrow>
           gbind (spawn_task (Call_Start d i opbuf buf)) (\<lambda>_. exhaust_tasks rt turns)))"

definition host_call_response_ready ::
    "('t, 'u) async_rt \<Rightarrow> nat \<Rightarrow> i32 \<Rightarrow> i32 \<Rightarrow> ('t, 'u, unit) async_prog" where
  "host_call_response_ready rt turns i code =
     gbind (lock_host_calls rt) (\<lambda>_.
     GGet (\<lambda>ins.
       case map_of (async_host_calls (statics ins)) i of
         None \<Rightarrow> GTrap (trap_unwrap rt)
       | Some tx \<Rightarrow>
           gbind (change_statics (\<lambda>st. st\<lparr>async_host_calls := remove_entry i (async_host_calls st)\<rparr>)) (\<lambda>_.
           gbind unlock_host_calls (\<lambda>_.
           gbind (change_statics (\<lambda>st. st\<lparr>host_oneshots := slot_resolve tx (Sent code) (host_oneshots st)\<rparr>)) (\<lambda>_.
             exhaust_tasks rt turns)))))"

subsection \<open>Asynchronous host calls\<close>

record host_call_future =
  hcf_index :: i32
  hcf_callresult :: i32
  hcf_recv :: nat

definition new_slot :: "('t, 'u, nat) async_prog" where
  "new_slot = GGet (\<lambda>i.
     gbind (change_statics (\<lambda>st. st\<lparr>host_oneshots := host_oneshots st @ [Pending]\<rparr>)) (\<lambda>_.
       GRet (length (host_oneshots (statics i)))))"

definition async_host_call ::
    "('t, 'u) async_rt \<Rightarrow> slice \<Rightarrow> slice \<Rightarrow> slice \<Rightarrow> slice \<Rightarrow> ('t, 'u, host_call_future) async_prog" where
  "async_host_call rt binding ns op m =
     gbind fetch_call_num (\<lambda>index.
     gbind new_slot (\<lambda>slot.
     gbind (lock_host_calls rt) (\<lambda>_.
     gbind (change_statics (insert_host_call index slot)) (\<lambda>_.
       GCall AsyncHostCall (index # slice_args [binding, ns, op, m]) (\<lambda>r.
         case r of
           None \<Rightarrow> GTrap (trap_result (sync_rt rt))
         | Some callresult \<Rightarrow>
             gbind unlock_host_calls (\<lambda>_.
               GRet \<lparr>hcf_index = index, hcf_callresult = callresult, hcf_recv = slot\<rparr>))))))"

definition poll_host_call ::
    "('t, 'u) async_rt \<Rightarrow> host_call_future \<Rightarrow> ('t, 'u, (error_kind + bytes) option) async_prog" where
  "poll_host_call rt f =
     (if hcf_callresult f = 0
      then gbind (fetch_from_host (sync_rt rt) HostErrorLen HostError (hcf_index f)) (\<lambda>buf. GRet (Some (Inr buf)))
      else GGet (\<lambda>i.
        case host_oneshots (statics i) ! hcf_recv f of
          Pending \<Rightarrow> GRet None
        | Sent code \<Rightarrow>
            gbind (fetch_from_host (sync_rt rt) HostResponseLen HostResponse (hcf_index f))
              (\<lambda>buf. GRet (Some (Inr buf)))
        | Sender_Dropped \<Rightarrow> GRet (Some (Inl (Async (hcf_index f) (recv_error_text rt))))))"

end
