(* ===== verification/Guest_Refinement.thy ===== *)
theory Guest_Refinement
  imports Guest_Protocol Host_Calls
begin

text \<open>
  The two ends of the protocol together: a guest built with the SDK, run by the host on the
  wasmtime engine, answers an operation as its handler does.
\<close>

subsection \<open>What is required of the guest's allocator\<close>

text \<open>
  The documented behaviour of a global allocator, over a ghost view of the instance: which
  instances it accepts, which blocks are live and how much room is left. A live block lies inside
  the memory; an allocation that fits the room succeeds, returns a block that overlaps no live one,
  and keeps the contents of the live blocks and the statics of the SDK; writing inside a live block
  or changing the SDK's statics disturbs nothing. Memories are at least one byte and less than
  2 ^ 31 bytes, the addresses an \<open>i32\<close> can name.
\<close>

record 'u heap_view =
  hv_ok :: "'u sdk winst \<Rightarrow> bool"
  hv_live :: "'u sdk winst \<Rightarrow> (nat \<times> nat) set"
  hv_room :: "'u sdk winst \<Rightarrow> nat"
  hv_cost :: "nat \<Rightarrow> nat"

definition statics_eq :: "'u sdk winst \<Rightarrow> 'u sdk winst \<Rightarrow> bool" where
  "statics_eq i j \<longleftrightarrow> registry (wstate i) = registry (wstate j)
     \<and> registry_locked (wstate i) = registry_locked (wstate j)"

definition live_in_memory :: "'u heap_view \<Rightarrow> bool" where
  "live_in_memory hv \<longleftrightarrow> (\<forall>i. hv_ok hv i \<longrightarrow>
     (\<exists>m. wmem i = Some m \<and> 0 < length m \<and> length m < 2 ^ 31
        \<and> (\<forall>a n. (a, n) \<in> hv_live hv i \<longrightarrow> a + n \<le> length m)))"

definition alloc_result ::
    "'u heap_view \<Rightarrow> 'u sdk winst \<Rightarrow> nat \<Rightarrow> nat \<Rightarrow> 'u sdk winst \<Rightarrow> bool" where
  "alloc_result hv i n p i' \<longleftrightarrow>
     hv_ok hv i' \<and> statics_eq i' i \<and> hv_room hv i \<le> hv_room hv i' + hv_cost hv n
     \<and> (p, n) \<in> hv_live hv i' \<and> hv_live hv i \<subseteq> hv_live hv i'
     \<and> (\<forall>a k. (a, k) \<in> hv_live hv i \<longrightarrow> disjnt_blocks a k p n)"

definition alloc_succeeds :: "'u guest_rt \<Rightarrow> 'u heap_view \<Rightarrow> bool" where
  "alloc_succeeds rt hv \<longleftrightarrow> (\<forall>i n. hv_ok hv i \<and> 0 < n \<and> n < 2 ^ 31 \<and> hv_cost hv n \<le> hv_room hv i \<longrightarrow>
     (\<exists>p i'. rt_alloc rt n i = Some (p, i') \<and> alloc_result hv i n (unat p) i'))"

definition heap_update_ok :: "'u heap_view \<Rightarrow> 'u sdk winst \<Rightarrow> 'u sdk winst \<Rightarrow> bool" where
  "heap_update_ok hv i i' \<longleftrightarrow> hv_ok hv i' \<and> hv_live hv i' = hv_live hv i \<and> hv_room hv i' = hv_room hv i"

definition writes_in_blocks :: "'u heap_view \<Rightarrow> bool" where
  "writes_in_blocks hv \<longleftrightarrow> (\<forall>i m a k bs. hv_ok hv i \<and> wmem i = Some m \<and> (a, k) \<in> hv_live hv i \<and> length bs \<le> k \<longrightarrow>
     heap_update_ok hv i (i\<lparr>wmem := Some (overwrite a bs m)\<rparr>))"

definition statics_changes :: "'u heap_view \<Rightarrow> bool" where
  "statics_changes hv \<longleftrightarrow> (\<forall>i reg b. hv_ok hv i \<longrightarrow>
     heap_update_ok hv i (i\<lparr>wstate := (wstate i)\<lparr>registry := reg, registry_locked := b\<rparr>\<rparr>))"

definition heap_contract :: "'u guest_rt \<Rightarrow> 'u heap_view \<Rightarrow> bool" where
  "heap_contract rt hv \<longleftrightarrow>
     live_in_memory hv \<and> alloc_succeeds rt hv \<and> writes_in_blocks hv \<and> statics_changes hv"

lemma heap_memory:
  assumes "heap_contract rt hv" and "hv_ok hv i"
  obtains m where "wmem i = Some m" "0 < length m" "length m < 2 ^ 31"
    "\<And>a n. (a, n) \<in> hv_live hv i \<Longrightarrow> a + n \<le> length m"
  using assms unfolding heap_contract_def live_in_memory_def by blast

lemma heap_statics:
  "heap_contract rt hv \<Longrightarrow> hv_ok hv i \<Longrightarrow>
     heap_update_ok hv i (i\<lparr>wstate := (wstate i)\<lparr>registry := reg, registry_locked := b\<rparr>\<rparr>)"
  by (simp add: heap_contract_def statics_changes_def)

lemma statics_eq_refl [simp]: "statics_eq i i"
  by (simp add: statics_eq_def)

lemma statics_eq_trans: "statics_eq i j \<Longrightarrow> statics_eq j k \<Longrightarrow> statics_eq i k"
  by (simp add: statics_eq_def)

lemma statics_eq_wmem [simp]: "statics_eq (i\<lparr>wmem := m\<rparr>) j = statics_eq i j"
  by (simp add: statics_eq_def)

subsection \<open>Vectors in guest memory\<close>

text \<open>A pointer to room for \<open>n\<close> bytes: a live block, or any address inside the memory for none.\<close>

definition buffer_at :: "'u heap_view \<Rightarrow> 'u sdk winst \<Rightarrow> i32 \<Rightarrow> nat \<Rightarrow> bool" where
  "buffer_at hv i p n \<longleftrightarrow> (if n = 0 then p = 1 else (unat p, n) \<in> hv_live hv i)"

lemma buffer_fits:
  assumes heap: "heap_contract rt hv" "hv_ok hv i" and buf: "buffer_at hv i p n" and mem: "wmem i = Some m"
  shows "fits m p n" "nat (sint p) = unat p" "unat p + n \<le> length m" "length m < 2 ^ 31"
proof -
  have m: "0 < length m" "length m < 2 ^ 31" "\<And>a n. (a, n) \<in> hv_live hv i \<Longrightarrow> a + n \<le> length m"
    using heap_memory [OF heap] mem by auto
  show bound: "unat p + n \<le> length m"
    using buf m by (cases "n = 0") (auto simp: buffer_at_def Suc_le_eq)
  show small: "length m < 2 ^ 31"
    by (fact m)
  have "unat p < 2 ^ 31"
    using bound small by simp
  then have "sint p = int (unat p)"
    using sint_i32_of_len [of "unat p"] by (simp add: i32_of_len_def)
  then show "nat (sint p) = unat p" "fits m p n"
    using bound by (simp_all add: fits_def)
qed

lemma run_with_capacity:
  assumes heap: "heap_contract rt hv" "hv_ok hv (inst c)" and n: "n < 2 ^ 31"
    and room: "hv_cost hv n \<le> hv_room hv (inst c)"
  shows "\<exists>p i'. run_guest (with_capacity rt n) c = Ret (Inr p, c\<lparr>inst := i'\<rparr>)
    \<and> hv_ok hv i' \<and> statics_eq i' (inst c) \<and> hv_room hv (inst c) \<le> hv_room hv i' + hv_cost hv n
    \<and> buffer_at hv i' p n \<and> hv_live hv (inst c) \<subseteq> hv_live hv i'
    \<and> (\<forall>a k. (a, k) \<in> hv_live hv (inst c) \<longrightarrow> disjnt_blocks a k (unat p) n)"
proof (cases "n = 0")
  case True
  then show ?thesis
    using heap by (intro exI [of _ 1] exI [of _ "inst c"])
      (simp add: with_capacity_def buffer_at_def disjnt_blocks_def)
next
  case False
  then obtain p i' where "rt_alloc rt n (inst c) = Some (p, i')" "alloc_result hv (inst c) n (unat p) i'"
    using heap n room unfolding heap_contract_def alloc_succeeds_def by blast
  then show ?thesis
    using False n by (intro exI [of _ p] exI [of _ i'])
      (auto simp: with_capacity_def buffer_at_def alloc_result_def)
qed

lemma buffer_write:
  assumes heap: "heap_contract rt hv" "hv_ok hv i" and buf: "buffer_at hv i p n" and mem: "wmem i = Some m"
    and len: "length bs \<le> n"
  shows "heap_update_ok hv i (i\<lparr>wmem := Some (overwrite (unat p) bs m)\<rparr>)"
proof (cases "n = 0")
  case True
  then have "i\<lparr>wmem := Some (overwrite (unat p) bs m)\<rparr> = i"
    using len mem by simp
  then show ?thesis
    using heap by (simp add: heap_update_ok_def)
next
  case False
  then show ?thesis
    using heap buf mem len unfolding heap_contract_def writes_in_blocks_def buffer_at_def by auto
qed

lemma buffer_at_mono:
  "buffer_at hv i p n \<Longrightarrow> hv_live hv i \<subseteq> hv_live hv i' \<Longrightarrow> buffer_at hv i' p n"
  by (auto simp: buffer_at_def split: if_splits)

lemma heap_update_trans:
  "heap_update_ok hv i j \<Longrightarrow> heap_update_ok hv j k \<Longrightarrow> heap_update_ok hv i k"
  by (simp add: heap_update_ok_def)

lemma run_load_bytes:
  "wmem (inst c) = Some m \<Longrightarrow> unat p + n \<le> length m \<Longrightarrow>
     run_guest (load_bytes rt p n) c = Ret (Inr (block (unat p) n m), c)"
  by (simp add: load_bytes_def)

subsection \<open>Fetching the request\<close>

lemma two_buffers_written:
  assumes heap: "heap_contract rt hv" "hv_ok hv i" and mem: "wmem i = Some m"
    and p: "buffer_at hv i p (length xs)" and q: "buffer_at hv i q (length ys)"
    and disj: "disjnt_blocks (unat p) (length xs) (unat q) (length ys)"
  shows "heap_update_ok hv i (i\<lparr>wmem := Some (overwrite (unat q) ys (overwrite (unat p) xs m))\<rparr>)"
    and "block (unat p) (length xs) (overwrite (unat q) ys (overwrite (unat p) xs m)) = xs"
    and "block (unat q) (length ys) (overwrite (unat q) ys (overwrite (unat p) xs m)) = ys"
    and "length (overwrite (unat q) ys (overwrite (unat p) xs m)) = length m"
proof -
  let ?m = "overwrite (unat p) xs m"
  note fp = buffer_fits [OF heap p mem] and fq = buffer_fits [OF heap q mem]
  have first: "heap_update_ok hv i (i\<lparr>wmem := Some ?m\<rparr>)"
    using buffer_write [OF heap p mem] by simp
  then have "hv_ok hv (i\<lparr>wmem := Some ?m\<rparr>)" "buffer_at hv (i\<lparr>wmem := Some ?m\<rparr>) q (length ys)"
    using q by (auto simp: heap_update_ok_def buffer_at_def)
  from buffer_write [OF heap(1) this, of ?m ys]
  have "heap_update_ok hv (i\<lparr>wmem := Some ?m\<rparr>) (i\<lparr>wmem := Some (overwrite (unat q) ys ?m)\<rparr>)"
    by simp
  with first show "heap_update_ok hv i (i\<lparr>wmem := Some (overwrite (unat q) ys ?m)\<rparr>)"
    by (rule heap_update_trans)
  show "block (unat p) (length xs) (overwrite (unat q) ys ?m) = xs"
    using disj fp fq by (simp add: block_overwrite_disjnt)
  show "block (unat q) (length ys) (overwrite (unat q) ys ?m) = ys"
    using fp fq by (intro block_overwrite_same) simp
  show "length (overwrite (unat q) ys ?m) = length m"
    using fp fq by simp
qed

lemma run_fetch_request:
  assumes heap: "heap_contract rt hv" "hv_ok hv (inst c)"
    and req: "get_guest_request index (mstate c) = Some (Invocation_new op payload)"
    and small: "length op < 2 ^ 31" "length payload < 2 ^ 31"
    and room: "hv_cost hv (length payload) + hv_cost hv (length op) \<le> hv_room hv (inst c)"
  shows "\<exists>i'. run_guest (fetch_request rt index (i32_of_len (length op)) (i32_of_len (length payload))) c
      = Ret (Inr (payload, as_bytes op), c\<lparr>inst := i'\<rparr>)
    \<and> hv_ok hv i' \<and> statics_eq i' (inst c)
    \<and> hv_room hv (inst c) \<le> hv_room hv i' + (hv_cost hv (length payload) + hv_cost hv (length op))"
proof -
  obtain p i1 where run1: "run_guest (with_capacity rt (length payload)) c = Ret (Inr p, c\<lparr>inst := i1\<rparr>)"
    and ok1: "hv_ok hv i1" and st1: "statics_eq i1 (inst c)" and buf1: "buffer_at hv i1 p (length payload)"
    and room1: "hv_room hv (inst c) \<le> hv_room hv i1 + hv_cost hv (length payload)"
    using run_with_capacity [OF heap small(2)] room by auto
  have "hv_cost hv (length op) \<le> hv_room hv (inst (c\<lparr>inst := i1\<rparr>))"
    using room room1 by simp
  from run_with_capacity [OF heap(1) _ small(1) this] ok1
  obtain q i2 where run2: "run_guest (with_capacity rt (length op)) (c\<lparr>inst := i1\<rparr>) = Ret (Inr q, c\<lparr>inst := i2\<rparr>)"
    and ok2: "hv_ok hv i2" and st2: "statics_eq i2 i1" and buf2: "buffer_at hv i2 q (length op)"
    and room2: "hv_room hv i1 \<le> hv_room hv i2 + hv_cost hv (length op)"
    and live: "hv_live hv i1 \<subseteq> hv_live hv i2"
    and fresh: "\<And>a k. (a, k) \<in> hv_live hv i1 \<Longrightarrow> disjnt_blocks a k (unat q) (length op)"
    by auto
  obtain m where mem: "wmem i2 = Some m"
    using heap_memory [OF heap(1) ok2] by blast
  have buf1': "buffer_at hv i2 p (length payload)"
    using buffer_at_mono [OF buf1 live] .
  have disj: "disjnt_blocks (unat p) (length payload) (unat q) (length (as_bytes op))"
    using buf1 fresh by (auto simp: buffer_at_def disjnt_blocks_def split: if_splits)
  have buf2': "buffer_at hv i2 q (length (as_bytes op))"
    using buf2 by simp
  note fp = buffer_fits [OF heap(1) ok2 buf1' mem] and fq = buffer_fits [OF heap(1) ok2 buf2 mem]
  let ?m = "overwrite (unat q) (as_bytes op) (overwrite (unat p) payload m)"
  let ?i = "i2\<lparr>wmem := Some ?m\<rparr>"
  note written = two_buffers_written [OF heap(1) ok2 mem buf1' buf2' disj]
  have request: "linker_guest_request [index, q, p] (c\<lparr>inst := i2\<rparr>) = Ret (None, c\<lparr>inst := ?i\<rparr>)"
    using guest_request_eq [of index "c\<lparr>inst := i2\<rparr>" _ m q p] req mem fp fq
    by (simp add: Invocation_new_def set_caller_memory_def)
  have len: "unat (i32_of_len (length payload)) = length payload" "unat (i32_of_len (length op)) = length op"
    using small by (simp_all add: unat_i32_of_len)
  have load1: "run_guest (load_bytes rt p (length payload)) (c\<lparr>inst := ?i\<rparr>) = Ret (Inr payload, c\<lparr>inst := ?i\<rparr>)"
    using run_load_bytes [of "c\<lparr>inst := ?i\<rparr>" ?m p "length payload" rt] written fp by simp
  have load2: "run_guest (load_bytes rt q (length op)) (c\<lparr>inst := ?i\<rparr>) = Ret (Inr (as_bytes op), c\<lparr>inst := ?i\<rparr>)"
    using run_load_bytes [of "c\<lparr>inst := ?i\<rparr>" ?m q "length op" rt] written fq by simp
  have "run_guest (fetch_request rt index (i32_of_len (length op)) (i32_of_len (length payload))) c
      = Ret (Inr (payload, as_bytes op), c\<lparr>inst := ?i\<rparr>)"
    by (simp add: fetch_request_def run_guest_gbind len run1 run2 gcall_unit_def request load1 load2)
  moreover have "hv_ok hv ?i" "statics_eq ?i (inst c)" "hv_room hv ?i = hv_room hv i2"
    using written(1) statics_eq_trans [OF st2 st1] by (simp_all add: heap_update_ok_def)
  ultimately show ?thesis
    using room1 room2 by (intro exI [of _ ?i]) simp
qed

subsection \<open>Replying\<close>

lemma run_place:
  assumes heap: "heap_contract rt hv" "hv_ok hv (inst c)" and small: "length bs < 2 ^ 31"
    and room: "hv_cost hv (length bs) \<le> hv_room hv (inst c)"
  shows "\<exists>p i' m. run_guest (place rt bs) c = Ret (Inr p, c\<lparr>inst := i'\<rparr>)
    \<and> hv_ok hv i' \<and> statics_eq i' (inst c) \<and> wmem i' = Some m
    \<and> get_vec_from_memory m p (of_nat (length bs)) = Ret bs"
proof -
  obtain p i1 where run1: "run_guest (with_capacity rt (length bs)) c = Ret (Inr p, c\<lparr>inst := i1\<rparr>)"
    and ok1: "hv_ok hv i1" and st1: "statics_eq i1 (inst c)" and buf: "buffer_at hv i1 p (length bs)"
    using run_with_capacity [OF heap small room] by auto
  obtain m where mem: "wmem i1 = Some m"
    using heap_memory [OF heap(1) ok1] by blast
  note fit = buffer_fits [OF heap(1) ok1 buf mem]
  let ?m = "overwrite (unat p) bs m"
  let ?i = "i1\<lparr>wmem := Some ?m\<rparr>"
  have "run_guest (place rt bs) c = Ret (Inr p, c\<lparr>inst := ?i\<rparr>)"
    using mem fit by (simp add: place_def run_guest_gbind run1 store_bytes_def)
  moreover have "hv_ok hv ?i"
    using buffer_write [OF heap(1) ok1 buf mem] by (simp add: heap_update_ok_def)
  moreover have "get_vec_from_memory ?m p (of_nat (length bs)) = Ret bs"
  proof -
    have "mem_ok ?m" "fits ?m p (length bs)" "nat (sint p) + length bs < 2 ^ 31"
      using fit by (simp_all add: mem_ok_def fits_def)
    from get_vec_fits [OF this] show ?thesis
      using fit by (simp add: i32_of_len_def)
  qed
  ultimately show ?thesis
    using st1 by (intro exI [of _ p] exI [of _ ?i] exI [of _ ?m]) simp
qed

lemma run_unlock_registry:
  "run_guest unlock_registry c =
     Ret (Inr (), c\<lparr>inst := (inst c)\<lparr>wstate := (wstate (inst c))\<lparr>registry_locked := False\<rparr>\<rparr>\<rparr>)"
  by (simp add: unlock_registry_def gmodify_def)

lemma run_respond:
  assumes "heap_contract rt hv" "hv_ok hv (inst c)" "length bs < 2 ^ 31"
    and "hv_cost hv (length bs) \<le> hv_room hv (inst c)"
  shows "\<exists>i'. run_guest (respond rt GuestResponse index bs code) c =
           Ret (Inr code, c\<lparr>mstate := set_guest_response index bs (mstate c), inst := i'\<rparr>)"
    and "rust_str s \<Longrightarrow> bs = as_bytes s \<Longrightarrow>
         \<exists>i'. run_guest (respond rt GuestError index bs code) c =
           Ret (Inr code, c\<lparr>mstate := set_guest_error index s (mstate c), inst := i'\<rparr>)"
proof -
  obtain p i' m where placed: "run_guest (place rt bs) c = Ret (Inr p, c\<lparr>inst := i'\<rparr>)"
    and mem: "wmem i' = Some m" and read: "get_vec_from_memory m p (of_nat (length bs)) = Ret bs"
    using run_place [OF assms] by auto
  show "\<exists>i'. run_guest (respond rt GuestResponse index bs code) c =
           Ret (Inr code, c\<lparr>mstate := set_guest_response index bs (mstate c), inst := i'\<rparr>)"
    by (auto simp: respond_def run_guest_gbind placed gcall_unit_def linker_guest_response_def
        with_params_def get_caller_memory_def mem read run_unlock_registry)
  show "\<exists>i'. run_guest (respond rt GuestError index bs code) c =
           Ret (Inr code, c\<lparr>mstate := set_guest_error index s (mstate c), inst := i'\<rparr>)"
    if "rust_str s" "bs = as_bytes s"
    using that read placed
    by (auto simp: respond_def run_guest_gbind gcall_unit_def linker_guest_error_def
        with_params_def get_caller_memory_def mem get_string_from_memory_def run_unlock_registry)
qed

subsection \<open>Answering a call\<close>

text \<open>
  What an operation answers: the handler's result, or the SDK's error for a name nobody
  registered. A handler implements a function of the payload when it returns that function's
  value from every state the SDK calls it in, whatever else it does in between (more host calls
  included), and leaves the allocator, the SDK's statics and the calls in progress intact.
\<close>

definition sdk_outcome :: "(bytes \<rightharpoonup> (bytes \<Rightarrow> host_result)) \<Rightarrow> string \<Rightarrow> bytes \<Rightarrow> host_result" where
  "sdk_outcome R op payload =
     (case R (as_bytes op) of
        None \<Rightarrow> Inl (no_handler @ op)
      | Some h \<Rightarrow> h payload)"

definition answer_bytes :: "host_result \<Rightarrow> bytes" where
  "answer_bytes r = (case r of Inl e \<Rightarrow> as_bytes e | Inr v \<Rightarrow> v)"

definition handler_keeps ::
    "'u heap_view \<Rightarrow> nat \<Rightarrow> ('u sdk, 'w) cx \<Rightarrow> ('u sdk, 'w) cx \<Rightarrow> bool" where
  "handler_keeps hv cost c c' \<longleftrightarrow>
     hv_ok hv (inst c') \<and> statics_eq (inst c') (inst c)
     \<and> hv_room hv (inst c) \<le> hv_room hv (inst c') + cost
     \<and> (\<forall>i. call_live (mstate c) i \<longrightarrow> calls (mstate c') i = calls (mstate c) i)"

definition handler_implements ::
    "'w itself \<Rightarrow> 'u guest_rt \<Rightarrow> 'u heap_view \<Rightarrow> (bytes \<Rightarrow> nat) \<Rightarrow> nat \<Rightarrow> (bytes \<Rightarrow> host_result) \<Rightarrow> bool" where
  "handler_implements w rt hv cost f h \<longleftrightarrow>
     (\<forall>(c :: ('u sdk, 'w) cx) payload.
        hv_ok hv (inst c) \<and> registry_locked (wstate (inst c)) \<and> cost payload \<le> hv_room hv (inst c) \<longrightarrow>
        (\<exists>c'. run_guest (rt_handlers rt f payload) c = Ret (Inr (h payload), c')
              \<and> handler_keeps hv (cost payload) c c'))"

lemma handler_run:
  fixes c :: "('u sdk, 'w) cx"
  assumes "handler_implements TYPE('w) rt hv cost f h"
    and "hv_ok hv (inst c)" and "registry_locked (wstate (inst c))" and "cost payload \<le> hv_room hv (inst c)"
  shows "\<exists>c'. run_guest (rt_handlers rt f payload) c = Ret (Inr (h payload), c')
    \<and> handler_keeps hv (cost payload) c c'"
  using assms unfolding handler_implements_def by blast

definition registry_implements ::
    "'w itself \<Rightarrow> 'u guest_rt \<Rightarrow> 'u heap_view \<Rightarrow> (bytes \<Rightarrow> nat) \<Rightarrow> (bytes \<rightharpoonup> nat)
     \<Rightarrow> (bytes \<rightharpoonup> (bytes \<Rightarrow> host_result)) \<Rightarrow> bool" where
  "registry_implements w rt hv cost reg R \<longleftrightarrow>
     (\<forall>name. case reg name of
        None \<Rightarrow> R name = None
      | Some f \<Rightarrow> (\<exists>h. R name = Some h \<and> handler_implements w rt hv cost f h))"

text \<open>Sizes of a call: everything the SDK and the handler allocate for it.\<close>

definition call_fits ::
    "'u heap_view \<Rightarrow> (bytes \<Rightarrow> nat) \<Rightarrow> string \<Rightarrow> bytes \<Rightarrow> host_result \<Rightarrow> 'u sdk winst \<Rightarrow> bool" where
  "call_fits hv cost op payload r i \<longleftrightarrow>
     length op < 2 ^ 31 \<and> length payload < 2 ^ 31 \<and> length (answer_bytes r) < 2 ^ 31
     \<and> hv_cost hv (length payload) + hv_cost hv (length op) + cost payload
         + hv_cost hv (length (answer_bytes r)) \<le> hv_room hv i"

definition answered :: "i32 \<Rightarrow> host_result \<Rightarrow> call_state \<Rightarrow> call_state" where
  "answered i r st = (case r of Inr v \<Rightarrow> st\<lparr>guest_response := Some v\<rparr> | Inl e \<Rightarrow> st\<lparr>guest_error := Some e\<rparr>)"

lemma run_answer:
  assumes heap: "heap_contract rt hv" "hv_ok hv (inst c)"
    and small: "length (answer_bytes r) < 2 ^ 31"
    and room: "hv_cost hv (length (answer_bytes r)) \<le> hv_room hv (inst c)"
    and valid: "\<And>e. r = Inl e \<Longrightarrow> rust_str e"
    and st: "calls (mstate c) index = Some st"
  shows "\<exists>c'. run_guest (case r of Inr v \<Rightarrow> respond rt GuestResponse index v 1
        | Inl e \<Rightarrow> respond rt GuestError index (as_bytes e) 0) c
      = Ret (Inr (case r of Inr v \<Rightarrow> 1 | Inl e \<Rightarrow> 0), c')
    \<and> calls (mstate c') index = Some (answered index r st) \<and> env c' = env c"
proof (cases r)
  case (Inl e)
  then show ?thesis
    using run_respond(2) [OF heap, of "as_bytes e" e index 0] small room valid st
    by (auto simp: answer_bytes_def answered_def set_guest_error_def calls_update_call)
next
  case (Inr v)
  then show ?thesis
    using run_respond(1) [OF heap, of v index 1] small room st
    by (auto simp: answer_bytes_def answered_def set_guest_response_def calls_update_call)
qed

lemma run_lock_registry:
  "\<not> registry_locked (wstate (inst c)) \<Longrightarrow>
     run_guest (lock_registry rt) c =
       Ret (Inr (registry (wstate (inst c))),
            c\<lparr>inst := (inst c)\<lparr>wstate := (wstate (inst c))\<lparr>registry_locked := True\<rparr>\<rparr>\<rparr>)"
  by (simp add: lock_registry_def)

lemma unregistered_message_eq: "unregistered_message (as_bytes op) = as_bytes (no_handler @ op)"
  by (simp add: unregistered_message_def)

lemma run_guest_call:
  fixes c :: "('u sdk, 'w) cx"
  assumes heap: "heap_contract rt hv" "hv_ok hv (inst c)"
    and reg: "registry_implements TYPE('w) rt hv cost (registry (wstate (inst c))) R"
    and unlocked: "\<not> registry_locked (wstate (inst c))"
    and st: "calls (mstate c) index = Some st" "guest_request st = Some (Invocation_new op payload)"
    and fits: "call_fits hv cost op payload (sdk_outcome R op payload) (inst c)"
    and valid: "\<And>e. sdk_outcome R op payload = Inl e \<Longrightarrow> rust_str e"
  shows "\<exists>c'. run_guest (guest_call rt index (i32_of_len (length op)) (i32_of_len (length payload))) c
      = Ret (Inr (case sdk_outcome R op payload of Inr v \<Rightarrow> 1 | Inl e \<Rightarrow> 0), c')
    \<and> calls (mstate c') index = Some (answered index (sdk_outcome R op payload) st)"
proof -
  let ?r = "sdk_outcome R op payload"
  have req: "get_guest_request index (mstate c) = Some (Invocation_new op payload)"
    using st by (simp add: get_guest_request_def)
  obtain i1 where fetch: "run_guest (fetch_request rt index (i32_of_len (length op)) (i32_of_len (length payload))) c
      = Ret (Inr (payload, as_bytes op), c\<lparr>inst := i1\<rparr>)"
    and ok1: "hv_ok hv i1" and st1: "statics_eq i1 (inst c)"
    and room1: "hv_room hv (inst c) \<le> hv_room hv i1 + (hv_cost hv (length payload) + hv_cost hv (length op))"
    using run_fetch_request [OF heap req] fits by (auto simp: call_fits_def)
  let ?i2 = "i1\<lparr>wstate := (wstate i1)\<lparr>registry_locked := True\<rparr>\<rparr>"
  let ?c2 = "c\<lparr>inst := ?i2\<rparr>"
  have lock: "run_guest (lock_registry rt) (c\<lparr>inst := i1\<rparr>) = Ret (Inr (registry (wstate (inst c))), ?c2)"
    using run_lock_registry [of "c\<lparr>inst := i1\<rparr>" rt] unlocked st1 by (simp add: statics_eq_def)
  have "heap_update_ok hv i1 (i1\<lparr>wstate := (wstate i1)\<lparr>registry := registry (wstate i1), registry_locked := True\<rparr>\<rparr>)"
    by (rule heap_statics [OF heap(1) ok1])
  then have "heap_update_ok hv i1 ?i2"
    by simp
  then have ok2: "hv_ok hv ?i2" and room2: "hv_room hv ?i2 = hv_room hv i1"
    by (simp_all add: heap_update_ok_def)
  show ?thesis
  proof (cases "registry (wstate (inst c)) (as_bytes op)")
    case None
    then have "R (as_bytes op) = None"
      using reg by (auto simp: registry_implements_def split: option.splits dest!: spec [of _ "as_bytes op"])
    then have r: "?r = Inl (no_handler @ op)"
      by (simp add: sdk_outcome_def)
    have "hv_ok hv (inst ?c2)" "hv_cost hv (length (answer_bytes ?r)) \<le> hv_room hv (inst ?c2)"
      "calls (mstate ?c2) index = Some st"
      using fits room1 room2 ok2 st by (simp_all add: call_fits_def)
    from run_answer [OF heap(1) this(1) _ this(2) valid this(3)] fits
    show ?thesis
      by (auto simp: guest_call_def run_guest_gbind fetch lock None unregistered_message_eq r call_fits_def)
  next
    case (Some f)
    then obtain h where h: "R (as_bytes op) = Some h" and impl: "handler_implements TYPE('w) rt hv cost f h"
      using reg by (auto simp: registry_implements_def split: option.splits dest!: spec [of _ "as_bytes op"])
    have r: "?r = h payload"
      by (simp add: sdk_outcome_def h)
    have "cost payload \<le> hv_room hv (inst ?c2)"
      using fits room1 room2 by (simp add: call_fits_def)
    then obtain c3 where run: "run_guest (rt_handlers rt f payload) ?c2 = Ret (Inr ?r, c3)"
      and keeps: "handler_keeps hv (cost payload) ?c2 c3"
      using handler_run [OF impl, of ?c2 payload] ok2 by (auto simp: r)
    have "hv_ok hv (inst c3)" "hv_cost hv (length (answer_bytes ?r)) \<le> hv_room hv (inst c3)"
      "calls (mstate c3) index = Some st"
      using keeps fits room1 room2 st by (auto simp: handler_keeps_def call_fits_def call_live_def)
    from run_answer [OF heap(1) this(1) _ this(2) valid this(3)] fits
    show ?thesis
      by (auto simp: guest_call_def run_guest_gbind fetch lock Some run call_fits_def)
  qed
qed

lemma sdk_call_reply:
  fixes ms :: "'w module_state"
  assumes sdk: "exported_call (wcc_context cc) = Some (guest_call rt)"
    and heap: "heap_contract rt hv" "hv_ok hv (wc_inst (wcc_context cc))"
    and reg: "registry_implements TYPE('w) rt hv cost (registry (wstate (wc_inst (wcc_context cc)))) R"
    and unlocked: "\<not> registry_locked (wstate (wc_inst (wcc_context cc)))"
    and fits: "call_fits hv cost op payload (sdk_outcome R op payload) (wc_inst (wcc_context cc))"
    and valid: "\<And>e. sdk_outcome R op payload = Inl e \<Longrightarrow> rust_str e"
  shows "\<exists>cc' ms' ev'. WapcCallContext_call (wasmtime_engine api) cc op payload ms ev =
    Ret (map_err GuestCallFailure (sdk_outcome R op payload), cc', ms', ev')"
proof -
  let ?r = "sdk_outcome R op payload"
  obtain i rx ms1 where ni: "new_invocation (Invocation_new op payload) ms = (i, rx, ms1)"
    by (cases "new_invocation (Invocation_new op payload) ms")
  let ?c = "\<lparr>inst = wc_inst (wcc_context cc), mstate = ms1, env = ev\<rparr>"
  obtain st where st: "calls (mstate ?c) i = Some st" "guest_request st = Some (Invocation_new op payload)"
    and fresh: "guest_error st = None" "guest_response st = None"
    using ni by (auto simp: new_invocation_def next_call_index_def oneshot_channel_def)
  obtain c' where run: "guest_run (guest_call rt) (wc_inst (wcc_context cc)) i op payload ms1 ev
      = Ret (Inr (case ?r of Inr v \<Rightarrow> 1 | Inl e \<Rightarrow> 0), c')"
    and ans: "calls (mstate c') i = Some (answered i ?r st)"
    using run_guest_call [of rt hv ?c cost R i st op payload] heap reg unlocked st fits valid
    by (auto simp: guest_run_def)
  have "reply_of_run i (Inr (case ?r of Inr v \<Rightarrow> 1 | Inl e \<Rightarrow> 0)) (mstate c') = Ret (map_err GuestCallFailure ?r)"
    using ans fresh
    by (cases ?r) (simp_all add: reply_of_run_def sync_result_def failure_of_def success_of_def answered_def)
  then show ?thesis
    using WapcCallContext_call_wasmtime [OF sdk ni run, of api] by auto
qed

text \<open>C2: a call of a guest built with the SDK returns what the handler registered for the operation
  returns for the payload; a handler's error and an unregistered operation become guest-call
  failures with the handler's message and the SDK's. It needs an allocator that keeps its contract,
  room for the call, and messages that are valid UTF-8, which every Rust string is.\<close>

theorem sdk_call_refines:
  fixes ms :: "'w module_state"
  assumes sdk: "exported_call (wcc_context cc) = Some (guest_call rt)"
    and heap: "heap_contract rt hv" "hv_ok hv (wc_inst (wcc_context cc))"
    and reg: "registry_implements TYPE('w) rt hv cost (registry (wstate (wc_inst (wcc_context cc)))) R"
    and unlocked: "\<not> registry_locked (wstate (wc_inst (wcc_context cc)))"
    and fits: "call_fits hv cost op payload (sdk_outcome R op payload) (wc_inst (wcc_context cc))"
    and valid: "\<And>e. sdk_outcome R op payload = Inl e \<Longrightarrow> rust_str e"
  shows "\<exists>cc' ms' ev'. WapcCallContext_call (wasmtime_engine api) cc op payload ms ev =
    Ret (map_err GuestCallFailure (sdk_outcome R op payload), cc', ms', ev')"
  using sdk_call_reply [OF sdk heap reg unlocked fits] valid by blast

subsection \<open>From registration to reply\<close>

text \<open>The \<open>wapc_init\<close> of a guest that registers its handlers one after the other.\<close>

primrec register_all :: "'u guest_rt \<Rightarrow> (string \<times> nat) list \<Rightarrow> ('u, unit) sdk_prog" where
  "register_all rt [] = GRet ()"
| "register_all rt (r # rs) = gbind (register_function rt (fst r) (snd r)) (\<lambda>_. register_all rt rs)"

definition registered :: "(string \<times> nat) list \<Rightarrow> bytes \<rightharpoonup> nat" where
  "registered regs = map_of (rev (map (\<lambda>(n, f). (as_bytes n, f)) regs))"

lemma registered_simps [simp]:
  "registered [] = Map.empty"
  "registered (regs @ [(n, f)]) = (registered regs)(as_bytes n \<mapsto> f)"
  by (simp_all add: registered_def)

lemma registered_as_bytes: "registered regs (as_bytes op) = map_of (rev regs) op"
  by (induction regs rule: rev_induct) (auto simp: registered_def)

lemma run_register_function:
  assumes "\<not> registry_locked (wstate (inst c))"
  shows "run_guest (register_function rt n f) c =
    Ret (Inr (), c\<lparr>inst := (inst c)\<lparr>wstate := (wstate (inst c))
      \<lparr>registry := (registry (wstate (inst c)))(as_bytes n \<mapsto> f), registry_locked := False\<rparr>\<rparr>\<rparr>)"
  using assms by (simp add: register_function_def run_guest_gbind run_lock_registry gmodify_def unlock_registry_def)

lemma run_register_all:
  assumes "\<not> registry_locked (wstate (inst c))"
  shows "run_guest (register_all rt regs) c =
    Ret (Inr (), c\<lparr>inst := (inst c)\<lparr>wstate := (wstate (inst c))
      \<lparr>registry := registry (wstate (inst c)) ++ registered regs, registry_locked := False\<rparr>\<rparr>\<rparr>)"
  using assms
proof (induction regs arbitrary: c)
  case Nil
  then show ?case by simp
next
  case (Cons r rs)
  have step: "(\<lambda>x. if x = as_bytes n then Some f else reg x) ++ registered rs
      = reg ++ registered ((n, f) # rs)" for reg n f
    by (auto simp: registered_def map_add_def fun_eq_iff split: option.splits)
  show ?case
    using Cons.prems Cons.IH
    by (cases r) (simp add: run_guest_gbind run_register_function step)
qed

text \<open>A wasmtime provider whose module is a guest built with the SDK, with \<open>init\<close> for its \<open>wapc_init\<close>, and
  can be instantiated; and one whose \<open>wapc_init\<close> registers handlers.\<close>

definition sdk_guest ::
    "'u sdk wasmtime_api \<Rightarrow> 'u guest_rt \<Rightarrow> ('u, unit) sdk_prog \<Rightarrow> 'u sdk wasmtime_provider \<Rightarrow> bool" where
  "sdk_guest api rt init p \<longleftrightarrow>
     new_store api (wp_wasi_params p) = Inr () \<and> first_taken (wp_linker p) = None
     \<and> list_all (import_linked (linked_with UNIV (wp_linker p))) (m_imports (wp_module p))
     \<and> m_start (wp_module p) = None
     \<and> get_func_2_0 (wp_module p) (guest_export_name HostResponseReady) \<noteq> None
     \<and> get_func_3_1 (wp_module p) (guest_export_name GuestCall) = Some (guest_call rt)
     \<and> get_func_0_0 (wp_module p) ''_start'' = None
     \<and> get_func_0_0 (wp_module p) ''wapc_init'' = Some init"

definition sdk_provider ::
    "'u sdk wasmtime_api \<Rightarrow> 'u guest_rt \<Rightarrow> (string \<times> nat) list \<Rightarrow> 'u sdk wasmtime_provider \<Rightarrow> bool" where
  "sdk_provider api rt regs p \<longleftrightarrow>
     sdk_guest api rt (register_all rt regs) p
     \<and> registry (wstate (m_instance (wp_module p))) = Map.empty
     \<and> \<not> registry_locked (wstate (m_instance (wp_module p)))"

text \<open>What the host promises its caller: remote procedure calls by name.\<close>

definition rpc_reply ::
    "(string \<times> nat) list \<Rightarrow> (nat \<Rightarrow> bytes \<Rightarrow> host_result) \<Rightarrow> string \<Rightarrow> bytes \<Rightarrow> wapc_error + bytes" where
  "rpc_reply regs H op payload =
     (case map_of (rev regs) op of
        None \<Rightarrow> Inl (GuestCallFailure (''Guest call failure: '' @ no_handler @ op))
      | Some f \<Rightarrow>
          (case H f payload of
             Inr v \<Rightarrow> Inr v
           | Inl e \<Rightarrow> Inl (GuestCallFailure (''Guest call failure: '' @ e))))"

definition rpc_handlers ::
    "(string \<times> nat) list \<Rightarrow> (nat \<Rightarrow> bytes \<Rightarrow> host_result) \<Rightarrow> bytes \<rightharpoonup> (bytes \<Rightarrow> host_result)" where
  "rpc_handlers regs H name = map_option H (registered regs name)"

lemma rpc_reply_eq:
  "rpc_reply regs H op payload = wrap_call_error (map_err GuestCallFailure (sdk_outcome (rpc_handlers regs H) op payload))"
  by (simp add: rpc_reply_def sdk_outcome_def rpc_handlers_def registered_as_bytes wrap_call_error_def
      map_err_def split: option.splits sum.splits)

lemma registry_implements_registered:
  assumes "\<And>n f. (n, f) \<in> set regs \<Longrightarrow> handler_implements w rt hv cost f (H f)"
  shows "registry_implements w rt hv cost (registered regs) (rpc_handlers regs H)"
proof -
  have "\<exists>n. (n, f) \<in> set regs" if "registered regs name = Some f" for name f
    using map_of_SomeD [OF that [unfolded registered_def]] by auto
  then show ?thesis
    using assms by (auto simp: registry_implements_def rpc_handlers_def split: option.splits)
qed

text \<open>A host whose guest, once initialised, implements the operations of \<open>R\<close>.\<close>

lemma sdk_guest_reply:
  fixes h :: "('u sdk wasmtime_provider, 'w) wapc_host"
  assumes sdk: "sdk_guest api rt init (engine h)" and "in_runtime ev"
    and init: "\<And>ms (ev :: 'w env). run_guest init \<lparr>inst = m_instance (wp_module (engine h)), mstate = ms, env = ev\<rparr>
        = Ret (Inr (), \<lparr>inst = i, mstate = ms, env = ev\<rparr>)"
    and heap: "heap_contract rt hv" "hv_ok hv i"
    and reg: "registry_implements TYPE('w) rt hv cost (registry (wstate i)) R"
    and unlocked: "\<not> registry_locked (wstate i)"
    and fits: "call_fits hv cost op payload (sdk_outcome R op payload) i"
    and valid: "\<And>e. sdk_outcome R op payload = Inl e \<Longrightarrow> rust_str e"
  shows "\<exists>ev'. WapcHost_call (wasmtime_engine api) h op payload ev
    = Ret (wrap_call_error (map_err GuestCallFailure (sdk_outcome R op payload)), ev')"
proof -
  let ?m = "wp_module (engine h)"
  let ?ms = "ModuleState_new (host_sync_hostcall h) (host_async_hostcall h) (host_id h)"
  let ?cc = "\<lparr>wcc_context = \<lparr>wc_module = ?m, wc_inst = i\<rparr>, wcc_id = context_count ev\<rparr>"
  let ?ev = "ev\<lparr>context_count := context_count ev + 1\<rparr>"
  have new: "wasmtime_new_context api (engine h) ?ms ev
      = Ret (Inr \<lparr>wc_module = ?m, wc_inst = m_instance ?m\<rparr>, ?ms, ev)"
    using sdk \<open>in_runtime ev\<close>
    by (auto simp: sdk_guest_def wasmtime_new_context_def WasmtimeCallContext_new_def add_to_linker_eq instantiate_def)
  have start: "wasmtime_context_init \<lparr>wc_module = ?m, wc_inst = m_instance ?m\<rparr> ?ms ?ev
      = Ret (Inr (), \<lparr>wc_module = ?m, wc_inst = i\<rparr>, ?ms, ?ev)"
    using sdk init
    by (simp add: sdk_guest_def wasmtime_context_init_def run_starters_eq REQUIRED_STARTS_def TINYGO_START_def
        WAPC_INIT_def)
  have exported: "exported_call (wcc_context ?cc) = Some (guest_call rt)"
    using sdk by (simp add: sdk_guest_def exported_call_def)
  obtain cc' ms' ev' where "WapcCallContext_call (wasmtime_engine api) ?cc op payload ?ms ?ev
      = Ret (map_err GuestCallFailure (sdk_outcome R op payload), cc', ms', ev')"
    using sdk_call_reply [OF exported heap(1), where cost = cost and R = R and op = op and payload = payload
        and api = api and ms = ?ms and ev = ?ev] heap(2) reg unlocked fits valid
    by auto
  then show ?thesis
    using new start by (simp add: WapcHost_call_def WapcCallContext_new_def Let_def)
qed

text \<open>C1: end to end, a host on the wasmtime engine whose guest registers its handlers with the SDK
  when it is initialised implements remote procedure calls by name: every call is answered by the
  handler last registered for the operation, with the handler's result or its error, and a call of
  a name nobody registered fails. It needs a Tokio runtime, a linker without the waPC names and a
  guest that imports nothing else, an allocator that keeps its contract and room for the call.\<close>

theorem host_call_implements_rpc:
  fixes h :: "('u sdk wasmtime_provider, 'w) wapc_host"
  assumes sdk: "sdk_provider api rt regs (engine h)" and "in_runtime ev"
    and heap: "heap_contract rt hv" "hv_ok hv (m_instance (wp_module (engine h)))"
    and handlers: "\<And>n f. (n, f) \<in> set regs \<Longrightarrow> handler_implements TYPE('w) rt hv cost f (H f)"
    and fits: "call_fits hv cost op payload (sdk_outcome (rpc_handlers regs H) op payload)
                 (m_instance (wp_module (engine h)))"
    and valid: "\<And>e. sdk_outcome (rpc_handlers regs H) op payload = Inl e \<Longrightarrow> rust_str e"
  shows "\<exists>ev'. WapcHost_call (wasmtime_engine api) h op payload ev = Ret (rpc_reply regs H op payload, ev')"
proof -
  let ?m = "wp_module (engine h)"
  let ?i = "(m_instance ?m)\<lparr>wstate := (wstate (m_instance ?m))
      \<lparr>registry := registered regs, registry_locked := False\<rparr>\<rparr>"
  have "heap_update_ok hv (m_instance ?m) ?i"
    by (rule heap_statics [OF heap])
  then have ok: "hv_ok hv ?i" and fits': "call_fits hv cost op payload (sdk_outcome (rpc_handlers regs H) op payload) ?i"
    using fits by (simp_all add: heap_update_ok_def call_fits_def)
  have guest: "sdk_guest api rt (register_all rt regs) (engine h)"
    and init: "run_guest (register_all rt regs) \<lparr>inst = m_instance ?m, mstate = ms, env = ev\<rparr>
        = Ret (Inr (), \<lparr>inst = ?i, mstate = ms, env = ev\<rparr>)" for ms and ev :: "'w env"
    using sdk by (simp_all add: sdk_provider_def run_register_all)
  have reg: "registry_implements TYPE('w) rt hv cost (registry (wstate ?i)) (rpc_handlers regs H)"
    using registry_implements_registered [OF handlers] by simp
  show ?thesis
    using sdk_guest_reply [OF guest \<open>in_runtime ev\<close> init heap(1) ok reg _ fits' valid] by (simp add: rpc_reply_eq)
qed

text \<open>An allocator for the witnesses, which hands out a memory of 128 bytes from the bottom up. The first
  free address is a part of the module's own state, read by \<open>brk\<close> and written by \<open>set_brk\<close>; the view
  may ask more of that state (\<open>P\<close>).\<close>

definition bump_alloc :: "('u \<Rightarrow> nat) \<Rightarrow> (nat \<Rightarrow> 'u \<Rightarrow> 'u) \<Rightarrow> nat \<Rightarrow> 'u sdk winst \<Rightarrow> (i32 \<times> 'u sdk winst) option" where
  "bump_alloc brk set_brk n i =
     (let a = brk (user (wstate i))
      in if a + n \<le> 128
         then Some (of_nat a, i\<lparr>wstate := (wstate i)\<lparr>user := set_brk (a + n) (user (wstate i))\<rparr>\<rparr>) else None)"

definition bump_heap :: "('u \<Rightarrow> nat) \<Rightarrow> ('u \<Rightarrow> bool) \<Rightarrow> 'u heap_view" where
  "bump_heap brk P =
     \<lparr>hv_ok = (\<lambda>i. (\<exists>m. wmem i = Some m \<and> length m = 128) \<and> brk (user (wstate i)) \<le> 128 \<and> P (user (wstate i))),
      hv_live = (\<lambda>i. {(a, n). a + n \<le> brk (user (wstate i))}),
      hv_room = (\<lambda>i. 128 - brk (user (wstate i))),
      hv_cost = (\<lambda>n. n)\<rparr>"

lemma bump_heap_contract:
  assumes "rt_alloc rt = bump_alloc brk set_brk"
    and "\<And>a u. brk (set_brk a u) = a" and "\<And>a u. P (set_brk a u) = P u"
  shows "heap_contract rt (bump_heap brk P)"
proof -
  have "alloc_succeeds rt (bump_heap brk P)"
    using assms
    by (auto simp: alloc_succeeds_def bump_alloc_def bump_heap_def alloc_result_def statics_eq_def
        disjnt_blocks_def unat_of_nat Let_def)
  moreover have "live_in_memory (bump_heap brk P)"
    by (auto simp: live_in_memory_def bump_heap_def)
  moreover have "writes_in_blocks (bump_heap brk P)" "statics_changes (bump_heap brk P)"
    by (auto simp: writes_in_blocks_def statics_changes_def heap_update_ok_def bump_heap_def)
  ultimately show ?thesis
    by (simp add: heap_contract_def)
qed

text \<open>A guest with two handlers.\<close>

definition bump_rt :: "nat guest_rt" where
  "bump_rt =
     \<lparr>rt_alloc = bump_alloc id (\<lambda>a _. a),
      rt_handlers = (\<lambda>f payload. GRet (if f = 0 then Inr payload else Inl ''refused'')),
      trap_capacity = ''capacity overflow'', trap_alloc = ''out of memory'',
      trap_bounds = ''out of bounds'', trap_lock = ''deadlock'', trap_result = ''bad result''\<rparr>"

abbreviation bump_view :: "nat heap_view" where
  "bump_view \<equiv> bump_heap id (\<lambda>_. True)"

definition bump_instance :: "nat sdk winst" where
  "bump_instance =
     \<lparr>wmem = Some (replicate 128 0),
      wstate = \<lparr>registry = Map.empty, registry_locked = False, CALL_NUM = 0, user = 8\<rparr>\<rparr>"

lemma bump_contract: "heap_contract bump_rt bump_view"
  by (rule bump_heap_contract [where set_brk = "\<lambda>a _. a"]) (simp_all add: bump_rt_def)

definition bump_handlers :: "nat \<Rightarrow> bytes \<Rightarrow> host_result" where
  "bump_handlers f payload = (if f = 0 then Inr payload else Inl ''refused'')"

lemma bump_handlers_implement:
  "handler_implements w bump_rt bump_view (\<lambda>_. 0) f (bump_handlers f)"
  by (simp add: handler_implements_def bump_rt_def bump_handlers_def handler_keeps_def)

definition bump_regs :: "(string \<times> nat) list" where
  "bump_regs = [(''echo'', 1), (''echo'', 0), (''refuse'', 1)]"

definition bump_module :: "nat sdk wasm_module" where
  "bump_module =
     \<lparr>m_imports = [((''wapc'', ''__guest_request''), host_export_type GuestRequest)],
      m_exports =
        [''__guest_call'' \<mapsto> Export_3_1 (guest_call bump_rt),
         ''wapc_init'' \<mapsto> Export_0_0 (register_all bump_rt bump_regs),
         ''__host_call_response_ready'' \<mapsto> Export_2_0 (\<lambda>_ _. GRet ())],
      m_instance = bump_instance,
      m_start = None\<rparr>"

definition bump_api :: "nat sdk wasmtime_api" where
  "bump_api =
     \<lparr>module_new = (\<lambda>_. Inr bump_module), init_wasi = (\<lambda>_. Inr ()), wasi_linker = Map.empty,
      msg_defined_twice = (\<lambda>_. ''import defined twice''), msg_bad_import = (\<lambda>_. ''unknown import'')\<rparr>"

definition bump_host :: "(nat sdk wasmtime_provider, nat) wapc_host" where
  "bump_host =
     \<lparr>engine = \<lparr>wp_module = bump_module, wp_linker = Map.empty, wp_wasi_params = None\<rparr>,
      host_async_hostcall = None, host_sync_hostcall = None, host_id = 1\<rparr>"

lemma first_taken_empty [simp]: "first_taken Map.empty = None"
  by (simp add: first_taken_def taken_def find_None_iff)

lemma bump_provider: "sdk_provider bump_api bump_rt bump_regs (engine bump_host)"
proof -
  have "import_linked (linked_with UNIV Map.empty) (wapc_key GuestRequest, host_export_type GuestRequest)"
    by (simp only: import_linked_def fst_conv snd_conv linked_with_key) simp
  then show ?thesis
    by (simp add: sdk_provider_def sdk_guest_def new_store_def bump_api_def bump_host_def bump_module_def
        bump_instance_def get_func_2_0_def get_func_3_1_def get_func_0_0_def guest_name_defs
        HOST_NAMESPACE_def GUEST_REQUEST_FN_def)
qed

definition bump_context :: "nat sdk wasmtime_context wapc_call_context" where
  "bump_context =
     \<lparr>wcc_context = \<lparr>wc_module = bump_module, wc_inst = bump_instance
        \<lparr>wstate := (wstate bump_instance)\<lparr>registry := registered bump_regs\<rparr>\<rparr>\<rparr>, wcc_id = 1\<rparr>"

lemma bump_outcomes:
  "sdk_outcome (rpc_handlers bump_regs bump_handlers) ''echo'' payload = Inr payload"
  "sdk_outcome (rpc_handlers bump_regs bump_handlers) ''refuse'' payload = Inl ''refused''"
  "sdk_outcome (rpc_handlers bump_regs bump_handlers) ''none'' payload = Inl (no_handler @ ''none'')"
  by (simp_all add: sdk_outcome_def rpc_handlers_def registered_as_bytes bump_regs_def bump_handlers_def)

lemma bump_registry:
  "registry_implements w bump_rt bump_view (\<lambda>_. 0) (registered bump_regs) (rpc_handlers bump_regs bump_handlers)"
  by (rule registry_implements_registered) (rule bump_handlers_implement)

theorem sdk_call_refines_witness:
  "\<exists>cc' ms' ev'. WapcCallContext_call (wasmtime_engine bump_api) bump_context ''echo'' [7, 8, 9]
      (ModuleState_new None None 1) sample_env = Ret (Inr [7, 8, 9], cc', ms', ev')"
proof -
  let ?R = "rpc_handlers bump_regs bump_handlers"
  let ?i = "wc_inst (wcc_context bump_context)"
  have sdk: "exported_call (wcc_context bump_context) = Some (guest_call bump_rt)"
    by (simp add: bump_context_def exported_call_def bump_module_def get_func_3_1_def guest_name_defs)
  have ok: "hv_ok bump_view ?i"
    by (simp add: bump_context_def bump_heap_def bump_instance_def)
  have reg: "registry_implements TYPE(nat) bump_rt bump_view (\<lambda>_. 0) (registry (wstate ?i)) ?R"
    by (simp add: bump_context_def bump_registry)
  have unlocked: "\<not> registry_locked (wstate ?i)"
    by (simp add: bump_context_def bump_instance_def)
  have fits: "call_fits bump_view (\<lambda>_. 0) ''echo'' [7, 8, 9] (sdk_outcome ?R ''echo'' [7, 8, 9]) ?i"
    by (simp add: call_fits_def bump_outcomes answer_bytes_def bump_heap_def bump_context_def bump_instance_def)
  have valid: "rust_str e" if "sdk_outcome ?R ''echo'' [7, 8, 9] = Inl e" for e
    using that by (simp add: bump_outcomes)
  show ?thesis
    using sdk_call_refines [OF sdk bump_contract ok reg unlocked fits valid, of bump_api
        "ModuleState_new None None 1" sample_env]
    by (simp add: bump_outcomes)
qed

theorem host_call_implements_rpc_witness:
  "\<exists>ev'. WapcHost_call (wasmtime_engine bump_api) bump_host ''refuse'' [7] sample_env
     = Ret (Inl (GuestCallFailure ''Guest call failure: refused''), ev')"
proof -
  let ?R = "rpc_handlers bump_regs bump_handlers"
  let ?i = "m_instance (wp_module (engine bump_host))"
  have runtime: "in_runtime sample_env"
    by (simp add: sample_env_def)
  have ok: "hv_ok bump_view ?i"
    by (simp add: bump_host_def bump_module_def bump_heap_def bump_instance_def)
  have fits: "call_fits bump_view (\<lambda>_. 0) ''refuse'' [7] (sdk_outcome ?R ''refuse'' [7]) ?i"
    by (simp add: call_fits_def bump_outcomes answer_bytes_def bump_heap_def bump_host_def bump_module_def
        bump_instance_def)
  have "rust_str ''refused''"
    by (simp add: rust_str_def as_bytes_def u8_of_char_def utf8_width_def in_range_def)
  then have valid: "rust_str e" if "sdk_outcome ?R ''refuse'' [7] = Inl e" for e
    using that by (simp add: bump_outcomes)
  have "rpc_reply bump_regs bump_handlers ''refuse'' [7]
      = Inl (GuestCallFailure ''Guest call failure: refused'')"
    by (simp add: rpc_reply_def bump_regs_def bump_handlers_def)
  with host_call_implements_rpc [OF bump_provider runtime bump_contract ok bump_handlers_implement fits valid]
  show ?thesis
    by simp
qed

subsection \<open>Where the two ends disagree\<close>

text \<open>The types the SDK's \<open>extern\<close> block gives to the host functions; a \<open>usize\<close> and a pointer of the
  guest are 32 bits wide.\<close>

fun sdk_import_type :: "host_exports \<Rightarrow> func_type" where
  "sdk_import_type ConsoleLog = FuncType (i32s 2) []"
| "sdk_import_type HostCall = FuncType (i32s 9) [I32]"
| "sdk_import_type AsyncHostCall = FuncType (i32s 9) [I32]"
| "sdk_import_type GuestRequest = FuncType (i32s 3) []"
| "sdk_import_type HostResponse = FuncType (i32s 2) []"
| "sdk_import_type HostResponseLen = FuncType (i32s 1) [I32]"
| "sdk_import_type GuestResponse = FuncType (i32s 3) []"
| "sdk_import_type GuestError = FuncType (i32s 3) []"
| "sdk_import_type HostError = FuncType (i32s 2) []"
| "sdk_import_type HostErrorLen = FuncType (i32s 1) [I32]"
| "sdk_import_type GuestResponseReady = FuncType (i32s 2) []"

definition imports_sdk :: "'g wasm_module \<Rightarrow> host_exports \<Rightarrow> bool" where
  "imports_sdk m e \<longleftrightarrow> (wapc_key e, sdk_import_type e) \<in> set (m_imports m)"

lemma sdk_import_type_eq:
  "sdk_import_type e = host_export_type e \<longleftrightarrow> e \<noteq> HostCall \<and> e \<noteq> AsyncHostCall"
  by (cases e) (simp_all add: i32s_def)

lemma sdk_import_linked:
  "import_linked (linked_with UNIV l) (wapc_key e, sdk_import_type e) \<longleftrightarrow> e \<noteq> HostCall \<and> e \<noteq> AsyncHostCall"
  using sdk_import_type_eq [of e] by (auto simp: import_linked_def linked_with_key)

lemma unlinked_context_fails:
  assumes "imports_sdk (wp_module p) e" and "e = HostCall \<or> e = AsyncHostCall"
    and "first_taken (wp_linker p) = None" and "new_store api (wp_wasi_params p) = Inr ()"
  shows "wasmtime_new_context api p ms ev = Ret (Inl (msg_bad_import api (wp_module p)), ms, ev)"
proof -
  have "\<not> import_linked (linked_with UNIV (wp_linker p)) (wapc_key e, sdk_import_type e)"
    using assms(2) by (simp only: sdk_import_linked) blast
  then have "\<not> list_all (import_linked (linked_with UNIV (wp_linker p))) (m_imports (wp_module p))"
    using assms(1) by (auto simp: imports_sdk_def list_all_iff)
  then show ?thesis
    using assms(3,4)
    by (simp add: wasmtime_new_context_def WasmtimeCallContext_new_def add_to_linker_eq instantiate_def)
qed

lemma unlinked_call_fails:
  assumes "imports_sdk (wp_module (engine h)) e" and "e = HostCall \<or> e = AsyncHostCall"
    and "first_taken (wp_linker (engine h)) = None"
    and "new_store api (wp_wasi_params (engine h)) = Inr ()"
  shows "WapcHost_call (wasmtime_engine api) h op payload ev =
      Ret (Inl (Context (msg_bad_import api (wp_module (engine h)))), ev)"
  by (simp add: WapcHost_call_def unlinked_context_fails [OF assms] Let_def)

text \<open>C26: a guest that makes host calls through the SDK cannot be run on the wasmtime engine: the SDK
  declares \<open>__host_call\<close> and \<open>__async_host_call\<close> with nine parameters, the engine links them with
  eight, and every call of such a guest fails when its context is created. All the other functions
  agree.\<close>

theorem sdk_host_calls_do_not_link:
  assumes "imports_sdk (wp_module (engine h)) e" and "e = HostCall \<or> e = AsyncHostCall"
    and "first_taken (wp_linker (engine h)) = None"
    and "new_store api (wp_wasi_params (engine h)) = Inr ()"
  shows "WapcHost_call (wasmtime_engine api) h op payload ev =
      Ret (Inl (Context (msg_bad_import api (wp_module (engine h)))), ev)
    \<and> (sdk_import_type e' = host_export_type e' \<longleftrightarrow> e' \<noteq> HostCall \<and> e' \<noteq> AsyncHostCall)"
  using unlinked_call_fails [OF assms] by (simp add: sdk_import_type_eq)

definition calling_host :: "(nat sdk wasmtime_provider, nat) wapc_host" where
  "calling_host = bump_host\<lparr>engine := (engine bump_host)
     \<lparr>wp_module := bump_module\<lparr>m_imports := [(wapc_key HostCall, sdk_import_type HostCall)]\<rparr>\<rparr>\<rparr>"

theorem sdk_host_calls_do_not_link_witness:
  "WapcHost_call (wasmtime_engine bump_api) calling_host ''echo'' [] sample_env
     = Ret (Inl (Context ''unknown import''), sample_env)"
proof -
  have imported: "imports_sdk (wp_module (engine calling_host)) HostCall"
    by (simp add: imports_sdk_def calling_host_def)
  have linker: "first_taken (wp_linker (engine calling_host)) = None"
    by (simp add: calling_host_def bump_host_def)
  have store: "new_store bump_api (wp_wasi_params (engine calling_host)) = Inr ()"
    by (simp add: new_store_def bump_api_def)
  have "msg_bad_import bump_api m = ''unknown import''" for m
    by (simp add: bump_api_def)
  then show ?thesis
    using sdk_host_calls_do_not_link [OF imported disjI1 [OF HOL.refl] linker store, of "''echo''" "[]" sample_env]
    by simp
qed

text \<open>What \<open>host_call\<close> of the SDK makes of the host's return code.\<close>

lemma run_host_call_finish_failure:
  assumes "code \<noteq> 1" and "run_guest (host_call_finish rt index code) c = Ret (Inr r, c')"
  shows "\<exists>buf. r = Inl (HostErrorKind buf)"
  using assms
  by (auto simp: host_call_finish_def run_guest_gbind outcome_inversion)

lemma do_host_call_code:
  assumes "do_host_call binding namespace op payload ms w = Ret (Inr code, ms', w')"
  shows "code = call_index ms \<or> code = 0"
proof -
  obtain r where "code = fst (record_host_result (call_index ms) r
      (init_host_call (call_index ms) (snd (next_call_index ms))))"
    using assms by (auto simp: do_host_call_eq obind_eq_Ret_iff)
  then show ?thesis
    by (cases r) (simp_all add: record_host_result_def)
qed

text \<open>C27: the SDK takes the return code of \<open>__host_call\<close> for a success only when it is 1, while the host
  returns the id of the host call for a success and 0 for a failure. Inside a guest call the id is
  never 1, so \<open>host_call\<close> reports every host call as failed, whatever the callback returned.\<close>

theorem sdk_reports_success_as_failure:
  assumes "do_host_call binding namespace op payload ms w = Ret (Inr code, ms', w')"
    and "call_index ms \<noteq> 1"
    and "run_guest (host_call_finish rt index code) c = Ret (Inr r, c')"
  shows "\<exists>buf. r = Inl (HostErrorKind buf)"
proof (rule run_host_call_finish_failure [OF _ assms(3)])
  have "code = call_index ms \<or> code = 0"
    by (rule do_host_call_code [OF assms(1)])
  then show "code \<noteq> 1"
    using assms(2) by auto
qed

definition in_guest_call :: "nat module_state" where
  "in_guest_call =
     snd (snd (new_invocation sample_invocation (ModuleState_new (Some sample_callback) None 1)))"

theorem sdk_reports_success_as_failure_witness:
  "\<exists>ms' c'. do_host_call ''b'' ''n'' ''op'' [7] in_guest_call 0 = Ret (Inr 2, ms', 1)
     \<and> get_host_response 2 ms' = Some [7, 7]
     \<and> run_guest (host_call_finish bump_rt 0 2) \<lparr>inst = bump_instance, mstate = ms', env = sample_env\<rparr>
         = Ret (Inr (Inl (HostErrorKind [])), c')"
proof -
  have index: "call_index in_guest_call = 2"
    by (simp add: in_guest_call_def new_invocation_def next_call_index_def oneshot_channel_def
        ModuleState_new_def calls_insert_def Let_def)
  have sync: "sync_hostcall in_guest_call = Some sample_callback"
    by (simp add: in_guest_call_def new_invocation_def next_call_index_def oneshot_channel_def
        ModuleState_new_def calls_insert_def Let_def)
  obtain ms' where call: "do_host_call ''b'' ''n'' ''op'' [7] in_guest_call 0 = Ret (Inr 2, ms', 1)"
    and resp: "get_host_response 2 ms' = Some [7, 7]" and none: "get_host_error 0 ms' = None"
    by (simp add: do_host_call_def next_call_index_def index sync run_callback_def sample_callback_def
        record_host_result_def calls_update_call call_accessor_defs Let_def)
      (simp add: in_guest_call_def new_invocation_def next_call_index_def oneshot_channel_def
        ModuleState_new_def calls_insert_def Let_def)
  let ?c = "\<lparr>inst = bump_instance, mstate = ms', env = sample_env\<rparr>"
  have run: "run_guest (host_call_finish bump_rt 0 2) ?c = Ret (Inr (Inl (HostErrorKind [])), ?c)"
    using none
    by (simp add: host_call_finish_def fetch_from_host_def run_guest_gbind linker_host_error_len_def
        linker_host_error_def with_params_def with_capacity_def gcall_unit_def load_bytes_def
        bump_instance_def)
  have "call_index in_guest_call \<noteq> 1"
    by (simp add: index)
  from sdk_reports_success_as_failure [OF call this run] call resp run show ?thesis
    by auto
qed

subsection \<open>Error messages of the SDK\<close>

lemma utf8_width_cases:
  obtains "utf8_width b = 0" | "utf8_width b = 1" | "utf8_width b = 2" | "utf8_width b = 3" | "utf8_width b = 4"
proof -
  have "utf8_width b \<in> {0, 1, 2, 3, 4}"
    by (simp add: utf8_width_def)
  then show thesis
    using that by blast
qed

lemma utf8_char_valid: "utf8_char b bs = Inr n \<Longrightarrow> utf8_valid (b # take n bs)"
  by (cases b rule: utf8_width_cases)
     (auto simp: utf8_char_def numeral_eq_Suc split: list.splits if_splits)

lemma utf8_valid_char:
  "utf8_valid (b # bs) \<Longrightarrow> \<exists>n. utf8_char b bs = Inr n \<and> utf8_valid (drop n bs)"
  by (cases b rule: utf8_width_cases)
     (auto simp: utf8_char_def numeral_eq_Suc split: list.splits if_splits)

lemma utf8_valid_replacement [simp]: "utf8_valid replacement"
  by (simp add: replacement_def utf8_width_def utf8_second_ok_def in_range_def is_cont_def)

lemma utf8_lossy_valid: "utf8_valid (utf8_lossy bs)"
proof (induction bs rule: utf8_lossy.induct)
  case (2 b bs)
  show ?case
  proof (cases "utf8_char b bs")
    case (Inl n)
    then show ?thesis
      using 2(1) [OF Inl] Inl by (simp add: utf8_valid_append)
  next
    case (Inr n)
    then show ?thesis
      using 2(2) [OF Inr] utf8_valid_append [OF utf8_char_valid [OF Inr], of "utf8_lossy (drop n bs)"] Inr
      by (simp del: utf8_valid.simps)
  qed
qed simp

lemma utf8_lossy_id: "utf8_valid bs \<Longrightarrow> utf8_lossy bs = bs"
proof (induction bs rule: utf8_lossy.induct)
  case (2 b bs)
  then obtain n where "utf8_char b bs = Inr n" "utf8_valid (drop n bs)"
    using utf8_valid_char by blast
  then show ?case
    using 2(2) by simp
qed simp

text \<open>The text of an SDK error is a valid Rust string whatever bytes the host answered with, so
  the engine that unwraps it does not panic; it is the host's bytes unchanged exactly when these are
  valid UTF-8.\<close>

theorem sdk_error_text_valid:
  "rust_str (error_kind_to_string (HostErrorKind bs))
   \<and> (as_bytes (error_kind_to_string (HostErrorKind bs)) = as_bytes ''Host error: '' @ bs \<longleftrightarrow> utf8_valid bs)"
proof -
  have prefix: "rust_str ''Host error: ''"
    by (simp add: rust_str_def as_bytes_def u8_of_char_def utf8_width_def in_range_def)
  have "utf8_lossy bs = bs \<longleftrightarrow> utf8_valid bs"
    using utf8_lossy_id [of bs] utf8_lossy_valid [of bs] by metis
  then show ?thesis
    using rust_str_append [OF prefix, of "from_utf8_lossy bs"] utf8_lossy_valid [of bs]
    by (simp add: from_utf8_lossy_def rust_str_def del: append_Cons)
qed

end
