(* ===== verification/Async_Calls.thy ===== *)
theory Async_Calls
  imports Host_Calls
begin

text \<open>
  One asynchronous call on the wasmtime engine, with the tasks that run beside it
  (\<open>call_async\<close> of \<open>crates/wapc/src/wapchost.rs\<close>, \<open>AsyncChannel\<close>, \<open>make_async_hostcall_handler\<close> and the
  \<open>Drop\<close> of \<open>crates/wasmtime-provider/src/engine_provider.rs\<close>, and the completion callback of
  \<open>linker_async_host_call\<close>).

  \<^item> The future of the call goes through the stages of \<open>call_stage\<close>; it may be dropped in any of
    them. Each host call the guest makes asynchronously is a task of \<open>spawned\<close>, which ends with
    \<open>finish_async_host_call\<close> and sends the result into the context's channel. The context's own task
    takes one message after the other and runs \<open>__host_call_response_ready\<close> of the guest with it.
  \<^item> A step is what happens between two points where another task may run on the shared store: the
    store's mutex is held for a whole run of the guest. The embedder's callback of a host call is one
    step, and a run of the guest is one step too: a host call whose callback ends while the guest still
    runs is taken to end after that run. The theory \<open>Parallel_Runs\<close> lets it end within the run.
  \<^item> Tokio decides which task runs when, so the steps are a relation. \<open>abort\<close> takes effect at some
    later time; until then the task may still take messages.
  \<^item> The steps describe what happens as long as no run of the guest panics its host: the task or future
    in which such a run happens is gone, and the state it leaves is not tracked.
\<close>

subsection \<open>The channel\<close>

datatype async_channel = Message "(i32 \<times> i32) + (i32 \<times> i32)" | Close

text \<open>What the completion callback sends, and the arguments the task makes of a message.\<close>

definition async_message :: "i32 \<Rightarrow> i32 \<Rightarrow> async_channel" where
  "async_message i code = (if code = 1 then Message (Inr (i, code)) else Message (Inl (i, code)))"

fun message_args :: "async_channel \<Rightarrow> (i32 \<times> i32) option" where
  "message_args (Message (Inr v)) = Some v"
| "message_args (Message (Inl v)) = Some v"
| "message_args Close = None"

lemma message_args_async_message [simp]: "message_args (async_message i code) = Some (i, code)"
  by (simp add: async_message_def)

subsection \<open>The state of a call\<close>

datatype call_stage =
    Unpolled
  | Yielded u64
  | Awaiting nat
  | Answered "wapc_error + bytes"
  | Abandoned

record ('g, 'w) async_call =
  ac_stage :: call_stage
  ac_context :: "'g wasmtime_context"
  ac_state :: "'w module_state"
  ac_env :: "'w env"
  ac_queue :: "async_channel list"
  ac_task :: bool

text \<open>Sending fails silently once the receiving task has ended; when it ends, its messages are
  dropped. Dropping the context sends \<open>Close\<close> and aborts the task.\<close>

definition ac_send :: "async_channel \<Rightarrow> ('g, 'w) async_call \<Rightarrow> ('g, 'w) async_call" where
  "ac_send m s = (if ac_task s then s\<lparr>ac_queue := ac_queue s @ [m]\<rparr> else s)"

definition end_task :: "('g, 'w) async_call \<Rightarrow> ('g, 'w) async_call" where
  "end_task s = s\<lparr>ac_task := False, ac_queue := []\<rparr>"

definition drop_context :: "call_stage \<Rightarrow> ('g, 'w) async_call \<Rightarrow> ('g, 'w) async_call" where
  "drop_context st s = ac_send Close (s\<lparr>ac_stage := st\<rparr>)"

definition context_dropped :: "('g, 'w) async_call \<Rightarrow> bool" where
  "context_dropped s \<longleftrightarrow> ac_stage s = Abandoned \<or> (\<exists>r. ac_stage s = Answered r)"

definition response_ready ::
    "'g wasmtime_context \<Rightarrow> (i32 \<Rightarrow> i32 \<Rightarrow> ('g, unit) guest_prog) option" where
  "response_ready wc = get_func_2_0 (wc_module wc) (guest_export_name HostResponseReady)"

definition ac_cx :: "('g, 'w) async_call \<Rightarrow> ('g, 'w) cx" where
  "ac_cx s = \<lparr>inst = wc_inst (ac_context s), mstate = ac_state s, env = ac_env s\<rparr>"

text \<open>\<open>WapcHost::call_async\<close> returns a future that holds a context whose task waits for messages.\<close>

definition ac_start :: "'g wasmtime_context \<Rightarrow> 'w module_state \<Rightarrow> 'w env \<Rightarrow> ('g, 'w) async_call" where
  "ac_start wc ms ev =
     \<lparr>ac_stage = Unpolled, ac_context = wc, ac_state = ms, ac_env = ev, ac_queue = [], ac_task = True\<rparr>"

subsection \<open>Steps\<close>

datatype ac_event = Silent | Completed i32 i32 | Delivered i32 i32

definition without :: "nat \<Rightarrow> 'a list \<Rightarrow> 'a list" where
  "without k xs = take k xs @ drop (Suc k) xs"

inductive ac_step ::
    "'g wasmtime_api \<Rightarrow> string \<Rightarrow> bytes \<Rightarrow> ('g, 'w) async_call \<Rightarrow> ac_event \<Rightarrow> ('g, 'w) async_call \<Rightarrow> bool"
  for api op payload where
  opened:
    "ac_stage s = Unpolled \<Longrightarrow>
     wasmtime_context_init (ac_context s) (ac_state s)
       ((ac_env s)\<lparr>context_count := context_count (ac_env s) + 1\<rparr>) = Ret (r, wc', ms', ev') \<Longrightarrow>
     s' = s\<lparr>ac_context := wc', ac_state := ms', ac_env := ev'\<rparr> \<Longrightarrow>
     ac_step api op payload s Silent
       (case r of Inl e \<Rightarrow> drop_context (Answered (Inl (InitFailed e))) s'
        | Inr _ \<Rightarrow> s'\<lparr>ac_stage := Yielded (context_count (ac_env s))\<rparr>)"
| ran:
    "ac_stage s = Yielded k \<Longrightarrow>
     call_async_run (wasmtime_engine api) \<lparr>wcc_context = ac_context s, wcc_id = k\<rparr> op payload
       (ac_state s) (ac_env s) = Ret (r, cc', ms', ev') \<Longrightarrow>
     s' = s\<lparr>ac_context := wcc_context cc', ac_state := ms', ac_env := ev'\<rparr> \<Longrightarrow>
     ac_step api op payload s Silent
       (case r of Inl e \<Rightarrow> drop_context (Answered (Inl e)) s' | Inr rx \<Rightarrow> s'\<lparr>ac_stage := Awaiting rx\<rparr>)"
| answered:
    "ac_stage s = Awaiting rx \<Longrightarrow> call_async_reply (oneshots (ac_state s) ! rx) = Some reply \<Longrightarrow>
     ac_step api op payload s Silent (drop_context (Answered reply) s)"
| abandoned:
    "\<not> context_dropped s \<Longrightarrow> ac_step api op payload s Silent (drop_context Abandoned s)"
| completed:
    "k < length (spawned (ac_env s)) \<Longrightarrow>
     finish_async_host_call (spawned (ac_env s) ! k) (ac_state s) (world (ac_env s)) = Ret ((i, code), ms', w') \<Longrightarrow>
     ac_step api op payload s (Completed i code)
       (ac_send (async_message i code)
          (s\<lparr>ac_state := ms', ac_env := (ac_env s)\<lparr>world := w', spawned := without k (spawned (ac_env s))\<rparr>\<rparr>))"
| callback_panicked:
    "k < length (spawned (ac_env s)) \<Longrightarrow>
     finish_async_host_call (spawned (ac_env s) ! k) (ac_state s) (world (ac_env s)) = Panic p \<Longrightarrow>
     ac_step api op payload s Silent
       (s\<lparr>ac_env := (ac_env s)\<lparr>world := w', spawned := without k (spawned (ac_env s))\<rparr>\<rparr>)"
| delivered:
    "ac_task s \<Longrightarrow> ac_queue s = m # q \<Longrightarrow> message_args m = Some (i, code) \<Longrightarrow>
     response_ready (ac_context s) = Some f \<Longrightarrow> run_guest (f i code) (ac_cx s) = Ret (r, c') \<Longrightarrow>
     ac_step api op payload s (Delivered i code)
       (s\<lparr>ac_queue := q, ac_context := (ac_context s)\<lparr>wc_inst := inst c'\<rparr>, ac_state := mstate c',
          ac_env := env c'\<rparr>)"
| closed: "ac_task s \<Longrightarrow> ac_queue s = Close # q \<Longrightarrow> ac_step api op payload s Silent (end_task s)"
| aborted: "ac_task s \<Longrightarrow> context_dropped s \<Longrightarrow> ac_step api op payload s Silent (end_task s)"
| elsewhere:
    "spawned ev' = spawned (ac_env s) \<Longrightarrow> in_runtime ev' = in_runtime (ac_env s) \<Longrightarrow>
     ac_step api op payload s Silent (s\<lparr>ac_env := ev'\<rparr>)"

inductive ac_steps ::
    "'g wasmtime_api \<Rightarrow> string \<Rightarrow> bytes \<Rightarrow> ('g, 'w) async_call \<Rightarrow> ac_event list \<Rightarrow> ('g, 'w) async_call \<Rightarrow> bool"
  for api op payload s where
  refl: "ac_steps api op payload s [] s"
| step: "ac_steps api op payload s tr s' \<Longrightarrow> ac_step api op payload s' e s'' \<Longrightarrow>
     ac_steps api op payload s (tr @ [e]) s''"

lemma opened_open:
  "call_async_open (wasmtime_engine api) (Inr wc) ms ev =
     obind (wasmtime_context_init wc ms (ev\<lparr>context_count := context_count ev + 1\<rparr>)) (\<lambda>(r, wc', ms', ev').
       Ret (case r of Inl e \<Rightarrow> Inl (InitFailed e) | Inr _ \<Rightarrow> Inr \<lparr>wcc_context = wc', wcc_id = context_count ev\<rparr>,
            ms', ev'))"
  by (simp add: call_async_open_def WapcCallContext_new_def Let_def)

subsection \<open>Results reach the guest once and in order\<close>

fun completions :: "ac_event list \<Rightarrow> (i32 \<times> i32) list" where
  "completions [] = []"
| "completions (Completed i code # tr) = (i, code) # completions tr"
| "completions (_ # tr) = completions tr"

fun deliveries :: "ac_event list \<Rightarrow> (i32 \<times> i32) list" where
  "deliveries [] = []"
| "deliveries (Delivered i code # tr) = (i, code) # deliveries tr"
| "deliveries (_ # tr) = deliveries tr"

lemma completions_append [simp]: "completions (tr @ tr') = completions tr @ completions tr'"
  by (induction tr rule: completions.induct) simp_all

lemma deliveries_append [simp]: "deliveries (tr @ tr') = deliveries tr @ deliveries tr'"
  by (induction tr rule: deliveries.induct) simp_all

definition waiting :: "('g, 'w) async_call \<Rightarrow> (i32 \<times> i32) list" where
  "waiting s = List.map_filter message_args (ac_queue s)"

lemma map_filter_append: "List.map_filter f (xs @ ys) = List.map_filter f xs @ List.map_filter f ys"
  by (simp add: List.map_filter_def)

lemma waiting_simps [simp]:
  "ac_queue s = [] \<Longrightarrow> waiting s = []"
  "waiting (s\<lparr>ac_stage := st\<rparr>) = waiting s"
  "waiting (s\<lparr>ac_context := wc\<rparr>) = waiting s"
  "waiting (s\<lparr>ac_state := ms\<rparr>) = waiting s"
  "waiting (s\<lparr>ac_env := ev\<rparr>) = waiting s"
  "waiting (ac_send m s) = waiting s @ (if ac_task s then List.map_filter message_args [m] else [])"
  by (simp_all add: waiting_def ac_send_def map_filter_append List.map_filter_def)

lemma ac_send_frame [simp]:
  "ac_task (ac_send m s) = ac_task s"
  "ac_stage (ac_send m s) = ac_stage s"
  "ac_state (ac_send m s) = ac_state s"
  "ac_env (ac_send m s) = ac_env s"
  "ac_context (ac_send m s) = ac_context s"
  by (simp_all add: ac_send_def)

lemma drop_context_frame [simp]:
  "ac_task (drop_context st s) = ac_task s"
  "ac_stage (drop_context st s) = st"
  "ac_state (drop_context st s) = ac_state s"
  "ac_env (drop_context st s) = ac_env s"
  "ac_context (drop_context st s) = ac_context s"
  "waiting (drop_context st s) = waiting s"
  by (simp_all add: drop_context_def List.map_filter_def)

text \<open>What a step does to the results under way: a completion adds one at the end while the task
  runs, a delivery takes the first, and nothing else touches them until the task ends.\<close>

lemma ac_step_results:
  assumes "ac_step api op payload s e s'"
  shows "if ac_task s' then ac_task s \<and> waiting s @ completions [e] = deliveries [e] @ waiting s'
         else deliveries [e] = []"
  using assms
proof (induction rule: ac_step.induct)
  case (delivered s m q i code f r c')
  then show ?case
    by (simp add: waiting_def List.map_filter_def)
qed (auto simp: end_task_def List.map_filter_def split: sum.splits)

lemma ac_steps_results:
  assumes "ac_steps api op payload s tr s'" and "ac_queue s = []"
  shows "(\<exists>rest. completions tr = deliveries tr @ rest)
    \<and> (ac_task s' \<longrightarrow> completions tr = deliveries tr @ waiting s')"
  using assms
proof (induction rule: ac_steps.induct)
  case refl
  then show ?case by simp
next
  case (step tr s' e s'')
  show ?case
  proof (cases "ac_task s''")
    case True
    then have "completions tr = deliveries tr @ waiting s'"
        and "waiting s' @ completions [e] = deliveries [e] @ waiting s''"
      using step ac_step_results [OF step.hyps(2)] by auto
    then have "completions (tr @ [e]) = deliveries (tr @ [e]) @ waiting s''"
      by (simp only: completions_append deliveries_append append_assoc)
    then show ?thesis by blast
  next
    case False
    then show ?thesis
      using step ac_step_results [OF step.hyps(2)] by auto
  qed
qed

lemma finish_async_Ret:
  assumes "finish_async_host_call t ms w = Ret ((i, code), ms', w')"
  obtains r where "run_callback (async_hostcall ms) (task_id t) (task_binding t) (task_namespace t)
      (task_operation t) (task_payload t) w = Ret (r, w')"
    and "i = task_id t" and "record_host_result i r ms = (code, ms')"
  using assms by (auto simp: finish_async_host_call_def obind_eq_Ret_iff case_prod_unfold Let_def)

lemma record_host_result_code: "record_host_result i r ms = (code, ms') \<Longrightarrow> code = i \<or> code = 0"
  by (cases r) (auto simp: record_host_result_def)

lemma finish_async_code:
  "finish_async_host_call t ms w = Ret ((i, code), ms', w') \<Longrightarrow> code = i \<or> code = 0"
  by (elim finish_async_Ret record_host_result_code)

lemma completion_codes:
  assumes "ac_steps api op payload s tr s'" and "(i, code) \<in> set (completions tr)"
  shows "code = i \<or> code = 0"
  using assms
proof (induction rule: ac_steps.induct)
  case (step tr s' e s'')
  have "code = i \<or> code = 0" if "(i, code) \<in> set (completions [e])"
    using step.hyps(2) that by (cases rule: ac_step.cases) (auto dest: finish_async_code)
  with step show ?case by auto
qed simp

text \<open>C17: whatever the schedule, the results of a call's asynchronous host calls reach the guest at
  most once each and in the order in which the host calls ended, and as long as the context's task
  runs the ones not yet delivered are exactly those waiting in its channel; a result is the id of the
  host call and, as its code, that id again or 0.\<close>

theorem async_results_in_order:
  assumes "ac_steps api op payload (ac_start wc ms ev) tr s"
  shows "(\<exists>rest. completions tr = deliveries tr @ rest)
    \<and> (ac_task s \<longrightarrow> completions tr = deliveries tr @ waiting s)
    \<and> (\<forall>(i, code) \<in> set (completions tr). code = i \<or> code = 0)"
  using ac_steps_results [OF assms] completion_codes [OF assms] by (auto simp: ac_start_def)

text \<open>A guest that makes a host call in its asynchronous call and answers when the result is there.\<close>

definition waiting_module :: "unit wasm_module" where
  "waiting_module = rude_module
     \<lparr>m_exports :=
        [''__async_guest_call'' \<mapsto> Export_3_0 (\<lambda>_ _ _. GCall AsyncHostCall (replicate 8 0) (\<lambda>_. GRet ())),
         ''__host_call_response_ready'' \<mapsto> Export_2_0 (\<lambda>i code.
            GCall GuestResponse [1, 4, 2] (\<lambda>_. gcall_unit GuestResponseReady [1, 1]))]\<rparr>"

definition waiting_context :: "unit wasmtime_context" where
  "waiting_context = \<lparr>wc_module = waiting_module, wc_inst = m_instance waiting_module\<rparr>"

definition waiting_start :: "nat host_callback \<Rightarrow> (unit, nat) async_call" where
  "waiting_start cb = ac_start waiting_context (ModuleState_new None (Some cb) 1) sample_env"

text \<open>The call after the guest has made its host call.\<close>

definition waiting_task :: host_task where
  "waiting_task = \<lparr>task_id = 2, task_binding = [], task_namespace = [], task_operation = [], task_payload = []\<rparr>"

definition waiting_state :: "nat host_callback \<Rightarrow> nat module_state" where
  "waiting_state cb =
     \<lparr>calls = [1 \<mapsto> default_call_state\<lparr>guest_request := Some sample_invocation, channel := Some 0\<rparr>,
               2 \<mapsto> default_call_state],
      async_hostcall = Some cb, sync_hostcall = None, call_index = 3, module_id = 1, oneshots = [Pending]\<rparr>"

definition waiting_pending :: "nat host_callback \<Rightarrow> (unit, nat) async_call" where
  "waiting_pending cb =
     (waiting_start cb)\<lparr>ac_stage := Awaiting 0, ac_state := waiting_state cb,
        ac_env := sample_env\<lparr>context_count := 2, spawned := [waiting_task]\<rparr>\<rparr>"

lemma waiting_exports:
  "get_func_0_0 waiting_module s = None"
  "get_func_3_0 waiting_module (guest_export_name AsyncGuestCall) =
     Some (\<lambda>_ _ _. GCall AsyncHostCall (replicate 8 0) (\<lambda>_. GRet ()))"
  "get_func_2_0 waiting_module (guest_export_name HostResponseReady) =
     Some (\<lambda>i code. GCall GuestResponse [1, 4, 2] (\<lambda>_. gcall_unit GuestResponseReady [1, 1]))"
  by (simp_all add: waiting_module_def get_func_0_0_def get_func_3_0_def get_func_2_0_def guest_name_defs
      rude_module_def)

lemma read_empty: "get_vec_from_memory sample_mem 0 0 = Ret []"
  by (simp add: get_vec_eq mem_ok_def sample_mem_def)

lemma waiting_new_invocation:
  "new_invocation (Invocation_new ''echo'' [1, 2, 3]) (ModuleState_new None (Some cb) 1)
   = (1, 0, (waiting_state cb)\<lparr>calls := (calls (waiting_state cb))(2 := None), call_index := 2\<rparr>)"
  by (simp add: sample_defs waiting_state_def fun_upd_twist)

lemma waiting_call:
  "run_guest (GCall AsyncHostCall (replicate 8 0) (\<lambda>_. GRet ()))
     \<lparr>inst = m_instance waiting_module,
      mstate = (waiting_state cb)\<lparr>calls := (calls (waiting_state cb))(2 := None), call_index := 2\<rparr>,
      env = sample_env\<lparr>context_count := n\<rparr>\<rparr>
   = Ret (Inr (), \<lparr>inst = m_instance waiting_module, mstate = waiting_state cb,
                   env = sample_env\<lparr>context_count := n, spawned := [waiting_task]\<rparr>\<rparr>)"
proof -
  have "get_string_from_memory sample_mem 0 0 = Ret []"
    by (simp add: get_string_from_memory_def read_empty from_utf8_def string_of_bytes_def)
  then show ?thesis
    by (simp add: linker_async_host_call_def with_params_def host_call_args_def read_empty
        get_caller_memory_def do_async_host_call_def next_call_index_def waiting_module_def rude_module_def
        waiting_state_def sample_env_def waiting_task_def init_host_call_def calls_insert_def fun_upd_twist)
qed

lemma waiting_runs:
  "ac_steps api ''echo'' [1, 2, 3] (waiting_start cb) [Silent, Silent] (waiting_pending cb)"
proof -
  let ?s0 = "waiting_start cb"
  let ?ev1 = "sample_env\<lparr>context_count := 2\<rparr>"
  let ?s1 = "?s0\<lparr>ac_stage := Yielded 1, ac_env := ?ev1\<rparr>"
  have init: "wasmtime_context_init (ac_context ?s0) (ac_state ?s0)
      ((ac_env ?s0)\<lparr>context_count := context_count (ac_env ?s0) + 1\<rparr>)
      = Ret (Inr (), ac_context ?s0, ac_state ?s0, ?ev1)"
    by (simp add: wasmtime_context_init_def REQUIRED_STARTS_def waiting_start_def ac_start_def
        waiting_context_def waiting_exports sample_env_def)
  have "ac_step api ''echo'' [1, 2, 3] ?s0 Silent ?s1"
    using ac_step.opened [OF _ init HOL.refl]
    by (simp add: waiting_start_def ac_start_def) (simp add: sample_env_def)
  with ac_steps.refl have first: "ac_steps api ''echo'' [1, 2, 3] ?s0 [Silent] ?s1"
    using ac_steps.step by (metis append_Nil)
  have run: "call_async_run (wasmtime_engine api) \<lparr>wcc_context = ac_context ?s1, wcc_id = 1\<rparr> ''echo'' [1, 2, 3]
      (ac_state ?s1) (ac_env ?s1)
      = Ret (Inr 0, \<lparr>wcc_context = ac_context ?s1, wcc_id = 1\<rparr>, waiting_state cb,
             ?ev1\<lparr>spawned := [waiting_task]\<rparr>)"
    by (simp add: call_async_run_def WapcCallContext_call_async_def waiting_start_def ac_start_def
        waiting_new_invocation Let_def wasmtime_call_async_def waiting_context_def
        waiting_exports(2) waiting_call del: guest_export_name.simps run_guest.simps)
  have "ac_step api ''echo'' [1, 2, 3] ?s1 Silent (waiting_pending cb)"
    using ac_step.ran [OF _ run HOL.refl] by (simp add: waiting_pending_def waiting_start_def ac_start_def)
  with first show ?thesis
    using ac_steps.step by fastforce
qed

text \<open>The rest of that call when the callback returns: the result of the host call is delivered and
  the guest answers.\<close>

definition waiting_filled :: "(unit, nat) async_call" where
  "waiting_filled =
     (waiting_pending sample_callback)
       \<lparr>ac_state := update_call 2 (\<lambda>c. c\<lparr>host_response := Some []\<rparr>) (waiting_state sample_callback),
        ac_env := sample_env\<lparr>context_count := 2, world := 1\<rparr>, ac_queue := [async_message 2 2]\<rparr>"

lemma waiting_completes:
  "ac_step api op payload (waiting_pending sample_callback) (Completed 2 2) waiting_filled"
proof -
  let ?s = "waiting_pending sample_callback"
  let ?ms = "update_call 2 (\<lambda>c. c\<lparr>host_response := Some []\<rparr>) (waiting_state sample_callback)"
  have len: "0 < length (spawned (ac_env ?s))"
    by (simp add: waiting_pending_def)
  have "finish_async_host_call (spawned (ac_env ?s) ! 0) (ac_state ?s) (world (ac_env ?s))
      = Ret ((2, 2), ?ms, 1)"
    by (simp add: waiting_pending_def finish_async_host_call_def waiting_task_def waiting_state_def
        run_callback_def sample_callback_def record_host_result_def sample_env_def)
  from ac_step.completed [OF len this] show ?thesis
    by (simp add: waiting_filled_def waiting_pending_def ac_send_def waiting_start_def ac_start_def
        without_def sample_env_def)
qed

lemma waiting_answers:
  "run_guest (GCall GuestResponse [1, 4, 2] (\<lambda>_. gcall_unit GuestResponseReady [1, 1])) (ac_cx waiting_filled)
   = Ret (Inr (), (ac_cx waiting_filled)\<lparr>mstate := oneshot_resolve 0
       (Sent (Error (default_call_state\<lparr>guest_request := Some sample_invocation, guest_response := Some [0, 0]\<rparr>)))
       (remove_call 1 (set_guest_response 1 [0, 0] (ac_state waiting_filled)))\<rparr>)"
proof -
  let ?ms = "set_guest_response 1 [0, 0] (ac_state waiting_filled)"
  have mem: "wmem (inst (ac_cx waiting_filled)) = Some sample_mem"
    by (simp add: ac_cx_def waiting_filled_def waiting_pending_def waiting_start_def ac_start_def
        waiting_context_def waiting_module_def rude_module_def)
  have c: "calls ?ms 1 = Some (default_call_state\<lparr>guest_request := Some sample_invocation,
      guest_response := Some [0, 0], channel := Some 0\<rparr>)"
    by (simp add: waiting_filled_def waiting_state_def set_guest_response_def calls_update_call
        default_call_state_def)
  have "mstate (ac_cx waiting_filled) = ac_state waiting_filled"
    by (simp add: ac_cx_def)
  then show ?thesis
    by (simp add: linker_guest_response_def with_params_def get_caller_memory_def mem read_sample_mem
        gcall_unit_def linker_guest_response_ready_def finish_guest_invocation_live [OF c]
        default_call_state_def)
qed

theorem async_results_in_order_witness:
  "\<exists>s. ac_steps sample_api ''echo'' [1, 2, 3] (waiting_start sample_callback)
         ([Silent, Silent] @ [Completed 2 2] @ [Delivered 2 2] @ [Silent]) s
     \<and> ac_stage s = Answered (Inr [0, 0]) \<and> waiting s = []"
proof -
  let ?f = "\<lambda>i code. GCall GuestResponse [1, 4, 2] (\<lambda>_. gcall_unit GuestResponseReady [1, 1])"
  let ?tr = "[Silent, Silent] @ [Completed 2 2] @ [Delivered 2 2] @ [Silent]"
  have queue: "ac_task waiting_filled" "ac_queue waiting_filled = async_message 2 2 # []"
    "message_args (async_message 2 2) = Some (2, 2)"
    by (simp_all add: waiting_filled_def waiting_pending_def waiting_start_def ac_start_def)
  have ready: "response_ready (ac_context waiting_filled) = Some ?f"
    unfolding response_ready_def
    by (simp add: waiting_filled_def waiting_pending_def waiting_start_def ac_start_def waiting_context_def
        waiting_exports del: guest_export_name.simps)
  obtain s4 where deliver: "ac_step sample_api ''echo'' [1, 2, 3] waiting_filled (Delivered 2 2) s4"
    and stage: "ac_stage s4 = Awaiting 0"
    and slot: "call_async_reply (oneshots (ac_state s4) ! 0) = Some (Inr [0, 0])"
    using ac_step.delivered [OF queue ready waiting_answers]
    by (force simp: waiting_filled_def waiting_pending_def waiting_start_def ac_start_def waiting_state_def
        set_guest_response_def oneshot_resolve_def call_async_reply_def async_result_def success_of_def
        wrap_call_error_def)
  have run: "ac_steps sample_api ''echo'' [1, 2, 3] (waiting_start sample_callback) ?tr
      (drop_context (Answered (Inr [0, 0])) s4)"
    using ac_steps.step [OF ac_steps.step [OF ac_steps.step [OF waiting_runs waiting_completes] deliver]
        ac_step.answered [OF stage slot]] by simp
  from async_results_in_order [OF this [unfolded waiting_start_def]]
  have "waiting (drop_context (Answered (Inr [0, 0])) s4) = []"
    if "ac_task (drop_context (Answered (Inr [0, 0])) s4)"
    using that by simp
  moreover have "ac_task s4"
    using deliver queue by (cases rule: ac_step.cases) simp_all
  ultimately show ?thesis
    using run by (intro exI [of _ "drop_context (Answered (Inr [0, 0])) s4"]) simp
qed

subsection \<open>Asynchronous and synchronous host calls\<close>

text \<open>An asynchronous host call whose callback answers as the synchronous callback does ends, when
  its task is done, with the code, the shared state and the world that the synchronous host call
  produces, whatever the callback does.\<close>

theorem async_host_call_is_host_call:
  assumes "sync_hostcall ms = async_hostcall ms"
    and "do_async_host_call binding namespace op payload rt ms = Ret (Inr i, t, ms1)"
  shows "obind (finish_async_host_call t ms1 w) (\<lambda>((j, code), ms2, w'). Ret (Inr code, ms2, w'))
       = do_host_call binding namespace op payload ms w"
proof -
  have "t = \<lparr>task_id = call_index ms, task_binding = binding, task_namespace = namespace,
             task_operation = op, task_payload = payload\<rparr>"
    and "ms1 = init_host_call (call_index ms) (ms\<lparr>call_index := call_index ms + 1\<rparr>)"
    using assms(2) by (auto simp: do_async_host_call_def next_call_index_def Let_def split: if_splits)
  then show ?thesis
    using assms(1)
    by (simp add: finish_async_host_call_def do_host_call_def next_call_index_def Let_def outcome_simps
        case_prod_unfold)
qed

theorem async_host_call_is_host_call_witness:
  "\<exists>t ms1. do_async_host_call ''b'' ''n'' ''op'' [7] True (ModuleState_new (Some sample_callback) (Some sample_callback) 1)
       = Ret (Inr 1, t, ms1)
   \<and> obind (finish_async_host_call t ms1 0) (\<lambda>((j, code), ms2, w'). Ret (Inr code, ms2, w'))
       = do_host_call ''b'' ''n'' ''op'' [7] (ModuleState_new (Some sample_callback) (Some sample_callback) 1) 0
   \<and> returns (do_host_call ''b'' ''n'' ''op'' [7] (ModuleState_new (Some sample_callback) (Some sample_callback) 1) 0)"
proof -
  let ?ms = "ModuleState_new (Some sample_callback) (Some sample_callback) 1"
  have same: "sync_hostcall ?ms = async_hostcall ?ms"
    by (simp add: ModuleState_new_def)
  obtain t ms1 where call: "do_async_host_call ''b'' ''n'' ''op'' [7] True ?ms = Ret (Inr 1, t, ms1)"
    by (simp add: do_async_host_call_def next_call_index_def Let_def) (simp add: ModuleState_new_def)
  have "returns (do_host_call ''b'' ''n'' ''op'' [7] ?ms 0)"
    by (simp add: do_host_call_eq callback_outcome_def run_callback_def same) 
       (simp add: ModuleState_new_def sample_callback_def)
  then show ?thesis
    using call async_host_call_is_host_call [OF same call, of 0] by blast
qed

subsection \<open>A callback that panics\<close>

definition always_panics :: "'w host_callback \<Rightarrow> bool" where
  "always_panics cb \<longleftrightarrow> (\<forall>i binding namespace op payload w. \<exists>p. cb i binding namespace op payload w = Panic p)"

text \<open>The call waits for an answer, nothing waits in its channel, and what could still put something
  there is a host call whose callback panics.\<close>

definition call_stranded :: "('g, 'w) async_call \<Rightarrow> bool" where
  "call_stranded s \<longleftrightarrow> waiting s = []
     \<and> (\<exists>cb. async_hostcall (ac_state s) = Some cb \<and> always_panics cb)
     \<and> (ac_stage s = Abandoned
        \<or> (\<exists>rx. ac_stage s = Awaiting rx \<and> oneshots (ac_state s) ! rx = Pending))"

lemma stranded_callback:
  assumes "call_stranded s" and "finish_async_host_call t (ac_state s) w = Ret r"
  shows False
proof -
  obtain cb where "async_hostcall (ac_state s) = Some cb" and "always_panics cb"
    using assms(1) by (auto simp: call_stranded_def)
  then obtain p where "run_callback (async_hostcall (ac_state s)) (task_id t) (task_binding t)
      (task_namespace t) (task_operation t) (task_payload t) w = Panic p"
    unfolding run_callback_def always_panics_def by fastforce
  with assms(2) show False
    by (simp add: finish_async_host_call_def)
qed

lemma call_stranded_step:
  assumes "ac_step api op payload s e s'" and "call_stranded s"
  shows "call_stranded s' \<and> deliveries [e] = []"
  using assms
proof (induction rule: ac_step.induct)
  case (answered s rx reply)
  then show ?case
    by (auto simp: call_stranded_def call_async_reply_def async_result_def)
next
  case completed
  then show ?case
    by (blast dest: stranded_callback)
next
  case (delivered s m q i code f r c')
  then show ?case
    by (auto simp: call_stranded_def waiting_def List.map_filter_def)
next
  case (callback_panicked s k p w')
  then show ?case
    by (simp add: call_stranded_def)
qed (auto simp: call_stranded_def end_task_def)

lemma call_stranded_steps:
  "ac_steps api op payload s tr s' \<Longrightarrow> call_stranded s \<Longrightarrow> call_stranded s' \<and> deliveries tr = []"
  by (induction rule: ac_steps.induct) (auto dest!: call_stranded_step)

text \<open>C32: a call that waits for the result of asynchronous host calls whose callback panics is never
  answered, whatever the schedule: Tokio contains the panic in the task of the host call, no result is
  ever delivered, and the sender of the call stays in the table.\<close>

theorem panicking_callback_strands_call:
  assumes "ac_steps api op payload s tr s'"
    and "ac_stage s = Awaiting rx" and "oneshots (ac_state s) ! rx = Pending" and "ac_queue s = []"
    and "async_hostcall (ac_state s) = Some cb" and "always_panics cb"
  shows "ac_stage s' \<noteq> Answered r \<and> deliveries tr = []"
proof -
  have "call_stranded s"
    using assms by (simp add: call_stranded_def)
  then show ?thesis
    using call_stranded_steps [OF assms(1)] by (auto simp: call_stranded_def)
qed

definition panicking_callback :: "nat host_callback" where
  "panicking_callback i binding namespace op payload w = Panic Callback_Panic"

theorem panicking_callback_strands_call_witness:
  "\<exists>s. ac_steps sample_api ''echo'' [1, 2, 3] (waiting_pending panicking_callback) [Silent] s
     \<and> spawned (ac_env s) = [] \<and> (\<forall>r. ac_stage s \<noteq> Answered r)"
proof -
  let ?s = "waiting_pending panicking_callback"
  let ?s' = "?s\<lparr>ac_env := (ac_env ?s)\<lparr>world := 0, spawned := without 0 (spawned (ac_env ?s))\<rparr>\<rparr>"
  have len: "0 < length (spawned (ac_env ?s))"
    and panics: "finish_async_host_call (spawned (ac_env ?s) ! 0) (ac_state ?s) (world (ac_env ?s)) = Panic Callback_Panic"
    by (simp_all add: waiting_pending_def finish_async_host_call_def waiting_state_def run_callback_def
        panicking_callback_def)
  have run: "ac_steps sample_api ''echo'' [1, 2, 3] ?s [Silent] ?s'"
    using ac_steps.step [OF ac_steps.refl ac_step.callback_panicked [OF len panics]] by simp
  have start: "ac_stage ?s = Awaiting 0" "oneshots (ac_state ?s) ! 0 = Pending" "ac_queue ?s = []"
      "async_hostcall (ac_state ?s) = Some panicking_callback"
    by (simp_all add: waiting_pending_def waiting_state_def waiting_start_def ac_start_def)
  have "always_panics panicking_callback"
    by (simp add: always_panics_def panicking_callback_def)
  from panicking_callback_strands_call [OF run start this] have "\<forall>r. ac_stage ?s' \<noteq> Answered r"
    by blast
  moreover have "spawned (ac_env ?s') = []"
    by (simp add: waiting_pending_def without_def)
  ultimately show ?thesis
    using run by blast
qed

end
