(* ===== verification/Guest_Async.thy ===== *)
theory Guest_Async
  imports Guest_Executor Guest_Refinement Async_Calls
begin

text \<open>
  What the asynchronous half of the SDK (\<open>Guest_Executor\<close>) does: when \<open>exhaust_tasks\<close> ends and when it
  cannot, what an asynchronous guest call answers, and where the SDK loses the result of an
  asynchronous host call.
\<close>

subsection \<open>Running its steps\<close>

lemma set_statics_simps [simp]:
  "statics (set_statics f i) = f (statics i)"
  "wmem (set_statics f i) = wmem i"
  "registry (wstate (set_statics f i)) = registry (wstate i)"
  "registry_locked (wstate (set_statics f i)) = registry_locked (wstate i)"
  "CALL_NUM (wstate (set_statics f i)) = CALL_NUM (wstate i)"
  "set_statics f (set_statics g i) = set_statics (\<lambda>st. f (g st)) i"
  by (simp_all add: set_statics_def)

lemma set_statics_id: "f (statics i) = statics i \<Longrightarrow> set_statics f i = i"
  by (simp add: set_statics_def)

lemma run_change_statics [simp]:
  "run_guest (change_statics f) c = Ret (Inr (), c\<lparr>inst := set_statics f (inst c)\<rparr>)"
  by (simp add: change_statics_def gmodify_def)

lemma run_lock_host_calls:
  "run_guest (lock_host_calls rt) c =
     (if host_calls_locked (statics (inst c)) then Ret (Inl (trap_lock (sync_rt rt)), c)
      else Ret (Inr (), c\<lparr>inst := set_statics (\<lambda>st. st\<lparr>host_calls_locked := True\<rparr>) (inst c)\<rparr>))"
  by (simp add: lock_host_calls_def)

lemma run_exhaust_condition:
  "run_guest (exhaust_condition rt) c =
     (if host_calls_locked (statics (inst c)) then Ret (Inl (trap_lock (sync_rt rt)), c)
      else Ret (Inr (more_tasks (length (tasks (statics (inst c))))
                      (length (async_host_calls (statics (inst c))))), c))"
proof -
  have "set_statics (\<lambda>st. st\<lparr>host_calls_locked := False\<rparr>) (inst c) = inst c"
    if "\<not> host_calls_locked (statics (inst c))"
    using that by (intro set_statics_id) simp
  then show ?thesis
    by (simp add: exhaust_condition_def run_guest_gbind run_lock_host_calls unlock_host_calls_def)
qed

lemma more_tasks_iff:
  assumes "a < 2 ^ 32" and "b < 2 ^ 32"
  shows "more_tasks a b \<longleftrightarrow> a \<noteq> b"
proof -
  have "more_tasks a b \<longleftrightarrow> (of_nat a :: 32 word) \<noteq> of_nat b"
    by (simp add: more_tasks_def word_neq_0_conv [symmetric])
  then show ?thesis
    using of_nat_i32_eq_iff [OF assms] by simp
qed

lemma run_executor_turn:
  assumes "rt_pick rt (inst c) = Some k"
    and "run_guest (poll_call_task rt (tasks (statics (inst c)) ! k)) c = Ret (Inr r, c')"
  shows "run_guest (executor_turn rt) c =
    Ret (Inr (), c'\<lparr>inst := set_statics (\<lambda>st. st\<lparr>tasks := replace_task k r (tasks st)\<rparr>) (inst c')\<rparr>)"
  using assms by (simp add: executor_turn_def run_guest_gbind)

subsection \<open>The loop\<close>

text \<open>Total correctness of \<open>run_while\<close>: an invariant with a number that gets smaller in every turn.\<close>

lemma run_while_rule:
  assumes cond: "\<And>n c. I n c \<Longrightarrow> \<exists>b. run_guest cond c = Ret (Inr b, c) \<and>
      (b \<longrightarrow> (\<exists>c' m. run_guest (executor_turn rt) c = Ret (Inr (), c') \<and> m < n \<and> I m c'))"
    and start: "I n c" and turns: "n < turns"
  shows "\<exists>c' m. run_guest (run_while rt cond turns) c = Ret (Inr (), c') \<and> I m c'
    \<and> run_guest cond c' = Ret (Inr False, c')"
  using start turns
proof (induction turns arbitrary: n c)
  case (Suc turns)
  obtain b where b: "run_guest cond c = Ret (Inr b, c)"
    and next_turn: "b \<Longrightarrow> \<exists>c' m. run_guest (executor_turn rt) c = Ret (Inr (), c') \<and> m < n \<and> I m c'"
    using cond [OF Suc.prems(1)] by blast
  show ?case
  proof (cases b)
    case True
    then obtain c' m where turn: "run_guest (executor_turn rt) c = Ret (Inr (), c')" and "m < n" and "I m c'"
      using next_turn by blast
    moreover have "m < turns"
      using \<open>m < n\<close> Suc.prems(2) by simp
    ultimately show ?thesis
      using Suc.IH b True by (simp add: run_guest_gbind)
  next
    case False
    then show ?thesis
      using b Suc.prems(1) by (auto simp: run_guest_gbind)
  qed
qed simp

text \<open>The executor's part: with no host call in flight, every spawned task can be polled.\<close>

definition executor_progress :: "('t, 'u) async_rt \<Rightarrow> bool" where
  "executor_progress rt \<longleftrightarrow>
     (\<forall>i. async_host_calls (statics i) = [] \<and> tasks (statics i) \<noteq> [] \<longrightarrow>
        (\<exists>k < length (tasks (statics i)). rt_pick rt i = Some k))"

text \<open>The statics that a poll leaves alone.\<close>

definition async_eq :: "('t, 'u) async_inst \<Rightarrow> ('t, 'u) async_inst \<Rightarrow> bool" where
  "async_eq i j \<longleftrightarrow> dispatcher (statics i) = dispatcher (statics j)
     \<and> async_host_calls (statics i) = async_host_calls (statics j)
     \<and> host_calls_locked (statics i) = host_calls_locked (statics j)
     \<and> tasks (statics i) = tasks (statics j)"

lemma async_eq_refl [simp]: "async_eq i i"
  by (simp add: async_eq_def)

lemma async_eq_trans: "async_eq i j \<Longrightarrow> async_eq j k \<Longrightarrow> async_eq i k"
  by (simp add: async_eq_def)

lemma async_eq_wmem [simp]: "async_eq (i\<lparr>wmem := m\<rparr>) j = async_eq i j"
  by (simp add: async_eq_def)

text \<open>The tasks' part: from a state of the invariant \<open>I\<close> every poll of a task returns, keeps \<open>I\<close> and
  either finishes the task or makes its rank smaller.\<close>

definition polls_end ::
    "('t, 'u) async_rt \<Rightarrow> ((('t, 'u) async_statics sdk, 'w) cx \<Rightarrow> bool) \<Rightarrow> ('t call_task \<Rightarrow> nat) \<Rightarrow> bool" where
  "polls_end rt I rank \<longleftrightarrow>
     (\<forall>c k. I c \<and> k < length (tasks (statics (inst c))) \<longrightarrow>
        (\<exists>r c'. run_guest (poll_call_task rt (tasks (statics (inst c)) ! k)) c = Ret (Inr r, c')
           \<and> async_eq (inst c') (inst c)
           \<and> I (c'\<lparr>inst := set_statics (\<lambda>st. st\<lparr>tasks := replace_task k r (tasks st)\<rparr>) (inst c')\<rparr>)
           \<and> (\<forall>t. r = Some t \<longrightarrow> rank t < rank (tasks (statics (inst c)) ! k))))"

definition ranks :: "('t call_task \<Rightarrow> nat) \<Rightarrow> 't call_task list \<Rightarrow> nat" where
  "ranks rank ts = sum_list (map (\<lambda>t. Suc (rank t)) ts)"

lemma ranks_replace:
  assumes "k < length ts" and "\<And>t. r = Some t \<Longrightarrow> rank t < rank (ts ! k)"
  shows "ranks rank (replace_task k r ts) < ranks rank ts"
proof -
  have split: "ts = take k ts @ ts ! k # drop (Suc k) ts"
    using assms(1) by (simp add: id_take_nth_drop)
  have ts: "ranks rank ts = ranks rank (take k ts) + Suc (rank (ts ! k)) + ranks rank (drop (Suc k) ts)"
    by (subst split) (simp add: ranks_def)
  show ?thesis
  proof (cases r)
    case None
    then show ?thesis
      by (simp add: replace_task_def ts) (simp add: ranks_def)
  next
    case (Some t)
    have "ts[k := t] = take k ts @ t # drop (Suc k) ts"
      using assms(1) by (simp add: upd_conv_take_nth_drop)
    then show ?thesis
      using assms(2) Some by (simp add: replace_task_def ts) (simp add: ranks_def)
  qed
qed

lemma length_le_ranks: "length ts \<le> ranks rank ts"
  by (induction ts) (simp_all add: ranks_def)

text \<open>C18: \<open>exhaust_tasks\<close> ends with no task left, in whatever order the executor polls, when no host
  call is in flight and every task needs only finitely many polls: more turns than the sum of the polls
  the tasks need are enough.\<close>

theorem exhaust_tasks_terminates:
  assumes "executor_progress rt" and "polls_end rt I rank" and "I c"
    and "async_host_calls (statics (inst c)) = []" and "\<not> host_calls_locked (statics (inst c))"
    and "ranks rank (tasks (statics (inst c))) < turns" and "turns \<le> 2 ^ 32"
  shows "\<exists>c'. run_guest (exhaust_tasks rt turns) c = Ret (Inr (), c') \<and> I c' \<and> tasks (statics (inst c')) = []"
proof -
  define J where "J n c \<longleftrightarrow> I c \<and> async_host_calls (statics (inst c)) = []
    \<and> \<not> host_calls_locked (statics (inst c)) \<and> ranks rank (tasks (statics (inst c))) = n \<and> n < 2 ^ 32" for n c
  have more: "more_tasks (length (tasks (statics (inst c)))) 0 \<longleftrightarrow> tasks (statics (inst c)) \<noteq> []" if "J n c" for n c
    using that length_le_ranks [of "tasks (statics (inst c))" rank] more_tasks_iff [of "length (tasks (statics (inst c)))" 0]
    by (auto simp: J_def)
  have turn: "\<exists>c' m. run_guest (executor_turn rt) c = Ret (Inr (), c') \<and> m < n \<and> J m c'"
    if J: "J n c" and some: "tasks (statics (inst c)) \<noteq> []" for n c
  proof -
    obtain k where k: "k < length (tasks (statics (inst c)))" and pick: "rt_pick rt (inst c) = Some k"
      using assms(1) J some by (auto simp: executor_progress_def J_def)
    obtain r c' where run: "run_guest (poll_call_task rt (tasks (statics (inst c)) ! k)) c = Ret (Inr r, c')"
      and same: "async_eq (inst c') (inst c)"
      and keeps: "I (c'\<lparr>inst := set_statics (\<lambda>st. st\<lparr>tasks := replace_task k r (tasks st)\<rparr>) (inst c')\<rparr>)"
      and less: "\<And>t. r = Some t \<Longrightarrow> rank t < rank (tasks (statics (inst c)) ! k)"
      using assms(2) J k unfolding polls_end_def J_def by blast
    have "ranks rank (replace_task k r (tasks (statics (inst c)))) < ranks rank (tasks (statics (inst c)))"
      by (rule ranks_replace [OF k]) (rule less)
    then show ?thesis
      using run_executor_turn [OF pick run] same keeps J by (auto simp: J_def async_eq_def)
  qed
  have "\<exists>b. run_guest (exhaust_condition rt) c = Ret (Inr b, c)
      \<and> (b \<longrightarrow> (\<exists>c' m. run_guest (executor_turn rt) c = Ret (Inr (), c') \<and> m < n \<and> J m c'))" if "J n c" for n c
    using that more [OF that] turn [OF that] by (auto simp: run_exhaust_condition J_def)
  from run_while_rule [of J "exhaust_condition rt" rt, OF this, of "ranks rank (tasks (statics (inst c)))" c turns]
  obtain c' m where "run_guest (exhaust_tasks rt turns) c = Ret (Inr (), c')" and "J m c'"
    and "run_guest (exhaust_condition rt) c' = Ret (Inr False, c')"
    using assms by (auto simp: J_def exhaust_tasks_def)
  then show ?thesis
    using more [of m c'] by (auto simp: run_exhaust_condition J_def)
qed

text \<open>C31: \<open>exhaust_tasks\<close> does not end, however many turns it is given, when there are more host calls
  in flight than tasks and the executor has no task it can poll and nothing to do when idle: the
  difference it tests wraps around below zero. A task that starts two asynchronous host calls before it awaits them is enough.\<close>

theorem exhaust_tasks_spins:
  assumes "length (tasks (statics (inst c))) < length (async_host_calls (statics (inst c)))"
    and "length (async_host_calls (statics (inst c))) < 2 ^ 32" and "\<not> host_calls_locked (statics (inst c))"
    and "rt_pick rt (inst c) = None" and "run_guest (rt_idle rt) c = Ret (Inr (), c)"
  shows "run_guest (exhaust_tasks rt turns) c = Ret (Inl (trap_turns rt), c)"
proof (induction turns)
  case 0
  then show ?case by (simp add: exhaust_tasks_def)
next
  case (Suc turns)
  have "more_tasks (length (tasks (statics (inst c)))) (length (async_host_calls (statics (inst c))))"
    using assms(1,2) more_tasks_iff by simp
  then show ?case
    using Suc assms(3-5)
    by (simp add: exhaust_tasks_def run_guest_gbind run_exhaust_condition executor_turn_def)
qed

subsection \<open>Results of asynchronous host calls\<close>

lemma run_response_ready_locked:
  "host_calls_locked (statics (inst c)) \<Longrightarrow>
     run_guest (host_call_response_ready rt turns i code) c = Ret (Inl (trap_lock (sync_rt rt)), c)"
  by (simp add: host_call_response_ready_def run_guest_gbind run_lock_host_calls)

lemma run_host_call_response_ready:
  assumes "\<not> host_calls_locked (statics (inst c))"
  shows "run_guest (host_call_response_ready rt turns i code) c =
    (case map_of (async_host_calls (statics (inst c))) i of
       None \<Rightarrow> Ret (Inl (trap_unwrap rt),
                   c\<lparr>inst := set_statics (\<lambda>st. st\<lparr>host_calls_locked := True\<rparr>) (inst c)\<rparr>)
     | Some tx \<Rightarrow> run_guest (exhaust_tasks rt turns)
         (c\<lparr>inst := set_statics (\<lambda>st. st\<lparr>async_host_calls := remove_entry i (async_host_calls st),
              host_oneshots := slot_resolve tx (Sent code) (host_oneshots st)\<rparr>) (inst c)\<rparr>))"
proof -
  have same: "set_statics (\<lambda>st. st\<lparr>async_host_calls := h st, host_calls_locked := False, host_oneshots := g st\<rparr>) (inst c)
      = set_statics (\<lambda>st. st\<lparr>async_host_calls := h st, host_oneshots := g st\<rparr>) (inst c)" for h g
    using assms by (simp add: set_statics_def)
  show ?thesis
    using assms
    by (auto simp: host_call_response_ready_def run_guest_gbind run_lock_host_calls unlock_host_calls_def
        same split: option.splits)
qed

text \<open>C30: an asynchronous host call that failed reaches the guest's code as a success with no bytes:
  the future looks only at whether a report came, not at its code. A call that the host refused at
  once becomes a success whose bytes are the text of the error.\<close>

theorem failed_host_call_is_success:
  assumes st: "calls (mstate c) (hcf_index f) = Some st" "host_error st = Some e" "host_response st = None"
    and report: "hcf_callresult f \<noteq> 0 \<longrightarrow> host_oneshots (statics (inst c)) ! hcf_recv f = Sent 0"
    and mem: "wmem (inst c) = Some m" "0 < length m"
    and run: "run_guest (poll_host_call rt f) c = Ret (Inr r, c')"
  shows "\<exists>buf. r = Some (Inr buf) \<and> (hcf_callresult f \<noteq> 0 \<longrightarrow> buf = [] \<and> c' = c)"
proof (cases "hcf_callresult f = 0")
  case True
  then show ?thesis
    using run by (auto simp: poll_host_call_def run_guest_gbind outcome_inversion)
next
  case False
  have "run_guest (fetch_from_host (sync_rt rt) HostResponseLen HostResponse (hcf_index f)) c = Ret (Inr [], c)"
    using st(1,3) mem
    by (simp add: fetch_from_host_def run_guest_gbind linker_host_response_len_def linker_host_response_def
        with_params_def get_host_response_def with_capacity_def gcall_unit_def load_bytes_def Suc_le_eq)
  then show ?thesis
    using False run report by (auto simp: poll_host_call_def run_guest_gbind)
qed

subsection \<open>Asynchronous guest calls\<close>

text \<open>What the SDK needs of the allocator beside \<open>heap_contract\<close>: it does not touch the SDK's statics,
  and a change of these statics does not touch the heap.\<close>

definition async_heap :: "('t, 'u) async_rt \<Rightarrow> ('t, 'u) async_statics heap_view \<Rightarrow> bool" where
  "async_heap rt hv \<longleftrightarrow> heap_contract (sync_rt rt) hv
     \<and> (\<forall>n i p i'. rt_alloc (sync_rt rt) n i = Some (p, i') \<longrightarrow> async_eq i' i)
     \<and> (\<forall>i f. hv_ok hv i \<and> own (f (statics i)) = own (statics i) \<longrightarrow> heap_update_ok hv i (set_statics f i))"

lemma async_heap_update:
  "async_heap rt hv \<Longrightarrow> hv_ok hv i \<Longrightarrow> own (f (statics i)) = own (statics i) \<Longrightarrow>
     hv_ok hv (set_statics f i) \<and> hv_room hv (set_statics f i) = hv_room hv i"
  by (auto simp: async_heap_def heap_update_ok_def)

lemma alloc_async_eq: "async_heap rt hv \<Longrightarrow> rt_alloc (sync_rt rt) n i = Some (p, i') \<Longrightarrow> async_eq i' i"
  by (simp add: async_heap_def)

text \<open>A program that leaves them alone, over worlds of type \<open>'w\<close>.\<close>

definition stays_async :: "'w itself \<Rightarrow> ('t, 'u, 'r) async_prog \<Rightarrow> bool" where
  "stays_async w p \<longleftrightarrow> (\<forall>(c :: (('t, 'u) async_statics sdk, 'w) cx) r c'.
     run_guest p c = Ret (r, c') \<longrightarrow> async_eq (inst c') (inst c))"

lemma stays_asyncD:
  fixes c :: "(('t, 'u) async_statics sdk, 'w) cx"
  shows "stays_async TYPE('w) p \<Longrightarrow> run_guest p c = Ret (r, c') \<Longrightarrow> async_eq (inst c') (inst c)"
  by (simp add: stays_async_def)

lemma stays_gbind:
  fixes p :: "('t, 'u, 'a) async_prog"
  assumes "stays_async TYPE('w) p" and "\<And>x. stays_async TYPE('w) (f x)"
  shows "stays_async TYPE('w) (gbind p f)"
  unfolding stays_async_def
proof (intro allI impI)
  fix c :: "(('t, 'u) async_statics sdk, 'w) cx" and r c'
  assume "run_guest (gbind p f) c = Ret (r, c')"
  then obtain r1 c1 where p: "run_guest p c = Ret (r1, c1)"
    and rest: "(case r1 of Inl m \<Rightarrow> Ret (Inl m, c1) | Inr x \<Rightarrow> run_guest (f x) c1) = Ret (r, c')"
    by (auto simp: run_guest_gbind obind_eq_Ret_iff)
  have "async_eq (inst c') (inst c1)"
    using rest stays_asyncD [OF assms(2)] by (cases r1) auto
  then show "async_eq (inst c') (inst c)"
    using stays_asyncD [OF assms(1) p] by (rule async_eq_trans)
qed

lemma stays_GRet: "stays_async w (GRet x)"
  by (simp add: stays_async_def)

lemma stays_load_bytes: "stays_async w (load_bytes rt p n)"
  by (auto simp: stays_async_def load_bytes_def split: option.splits if_splits)

lemma stays_store_bytes: "stays_async w (store_bytes rt p bs)"
  by (auto simp: stays_async_def store_bytes_def split: option.splits if_splits)

lemma stays_gcall_unit:
  "e \<in> {GuestRequest, GuestResponse, GuestError, GuestResponseReady} \<Longrightarrow> stays_async w (gcall_unit e ps)"
  by (auto simp: stays_async_def gcall_unit_def linker_guest_request_def linker_guest_response_def
      linker_guest_error_def linker_guest_response_ready_def with_params_def set_caller_memory_def Let_def
      outcome_inversion split: if_splits)

lemma stays_with_capacity:
  fixes rt :: "('t, 'u) async_rt"
  assumes "async_heap rt hv"
  shows "stays_async TYPE('w) (with_capacity (sync_rt rt) n)"
  unfolding stays_async_def
proof (intro allI impI)
  fix c :: "(('t, 'u) async_statics sdk, 'w) cx" and r c'
  assume run: "run_guest (with_capacity (sync_rt rt) n) c = Ret (r, c')"
  show "async_eq (inst c') (inst c)"
  proof (cases "rt_alloc (sync_rt rt) n (inst c)")
    case None
    then show ?thesis
      using run by (auto simp: with_capacity_def split: if_splits)
  next
    case (Some pi)
    then show ?thesis
      using alloc_async_eq [OF assms, of n "inst c" "fst pi" "snd pi"] run
      by (auto simp: with_capacity_def case_prod_unfold split: if_splits)
  qed
qed

lemmas stays_intros =
  stays_gbind stays_GRet stays_load_bytes stays_store_bytes stays_gcall_unit stays_with_capacity

lemma stays_fetch_request:
  "async_heap rt hv \<Longrightarrow> stays_async TYPE('w) (fetch_request (sync_rt rt) i ol ml)"
  unfolding fetch_request_def by (intro stays_intros) simp_all

lemma stays_place: "async_heap rt hv \<Longrightarrow> stays_async TYPE('w) (place (sync_rt rt) bs)"
  unfolding place_def by (intro stays_intros) simp_all

subsection \<open>A report the SDK does not expect\<close>

text \<open>With the table of host calls locked for good, everything that uses it traps and leaves it locked.\<close>

abbreviation wedged :: "(('t, 'u) async_statics sdk, 'w) cx \<Rightarrow> bool" where
  "wedged c \<equiv> host_calls_locked (statics (inst c))"

lemma wedged_exhaust_tasks:
  "wedged c \<Longrightarrow> \<exists>t. run_guest (exhaust_tasks rt turns) c = Ret (Inl t, c)"
  by (cases turns) (simp_all add: exhaust_tasks_def run_guest_gbind run_exhaust_condition)

lemma wedged_async_host_call:
  assumes "wedged c"
  shows "\<exists>c'. run_guest (async_host_call rt binding ns op m) c = Ret (Inl (trap_lock (sync_rt rt)), c') \<and> wedged c'"
  using assms
  by (simp add: async_host_call_def run_guest_gbind fetch_call_num_def new_slot_def lock_host_calls_def)

lemma wedged_async_guest_call:
  fixes c :: "(('t, 'u) async_statics sdk, 'w) cx"
  assumes heap: "async_heap rt hv" and wedged: "wedged c"
    and run: "run_guest (async_guest_call rt turns i ol ml) c = Ret (r, c')"
  shows "isl r \<and> wedged c'"
proof -
  obtain x c1 where req: "run_guest (fetch_request (sync_rt rt) i ol ml) c = Ret (x, c1)"
    and rest: "case x of Inl t \<Rightarrow> (r, c') = (Inl t, c1) | Inr (buf, opbuf) \<Rightarrow>
      run_guest (case dispatcher (statics (inst c1)) of
          None \<Rightarrow> GTrap (trap_unwrap rt)
        | Some d \<Rightarrow> gbind (spawn_task (Call_Start d i opbuf buf)) (\<lambda>_. exhaust_tasks rt turns)) c1 = Ret (r, c')"
    using run
    by (cases "run_guest (fetch_request (sync_rt rt) i ol ml) c")
       (auto simp: async_guest_call_def run_guest_gbind split: sum.splits)
  have "async_eq (inst c1) (inst c)"
    using stays_asyncD [OF stays_fetch_request [OF heap] req] .
  then have locked: "wedged c1"
    using wedged by (simp add: async_eq_def)
  show ?thesis
  proof (cases "\<exists>v d. x = Inr v \<and> dispatcher (statics (inst c1)) = Some d")
    case True
    then obtain buf opbuf d where x: "x = Inr (buf, opbuf)" "dispatcher (statics (inst c1)) = Some d"
      by (auto simp: prod_eq_iff)
    let ?c2 = "c1\<lparr>inst := set_statics (\<lambda>st. st\<lparr>tasks := tasks st @ [Call_Start d i opbuf buf]\<rparr>) (inst c1)\<rparr>"
    have "wedged ?c2"
      using locked by simp
    then show ?thesis
      using wedged_exhaust_tasks [of ?c2 rt turns] rest x by (auto simp: run_guest_gbind spawn_task_def)
  next
    case False
    then show ?thesis
      using rest locked by (auto split: sum.splits option.splits)
  qed
qed

text \<open>C29: the host reports a finished host call under its own id, the SDK files it under its own counter.
  A report under an id the SDK does not know traps and leaves the table of host calls locked, and nothing
  unlocks it: in such a state every report traps, the expected ones included, so does every asynchronous
  host call, every run of the tasks, and every asynchronous guest call that gets to its end, and each
  leaves the table locked, so that the next one traps as well.\<close>

theorem unknown_response_wedges_sdk:
  fixes c :: "(('t, 'u) async_statics sdk, 'w) cx"
  assumes "\<not> host_calls_locked (statics (inst c))" and "map_of (async_host_calls (statics (inst c))) i = None"
    and "async_heap rt hv"
  shows "\<exists>c'. run_guest (host_call_response_ready rt turns i code) c = Ret (Inl (trap_unwrap rt), c')
    \<and> async_host_calls (statics (inst c')) = async_host_calls (statics (inst c)) \<and> wedged c'
    \<and> (\<forall>d :: (('t, 'u) async_statics sdk, 'w) cx. wedged d \<longrightarrow>
         (\<forall>turns' j code'. run_guest (host_call_response_ready rt turns' j code') d = Ret (Inl (trap_lock (sync_rt rt)), d))
         \<and> (\<forall>binding ns op m. \<exists>d'. run_guest (async_host_call rt binding ns op m) d
              = Ret (Inl (trap_lock (sync_rt rt)), d') \<and> wedged d')
         \<and> (\<forall>turns'. \<exists>t. run_guest (exhaust_tasks rt turns') d = Ret (Inl t, d))
         \<and> (\<forall>turns' j ol ml r d'. run_guest (async_guest_call rt turns' j ol ml) d = Ret (r, d') \<longrightarrow> isl r \<and> wedged d'))"
proof -
  let ?c = "c\<lparr>inst := set_statics (\<lambda>st. st\<lparr>host_calls_locked := True\<rparr>) (inst c)\<rparr>"
  have first: "run_guest (host_call_response_ready rt turns i code) c = Ret (Inl (trap_unwrap rt), ?c)"
    "async_host_calls (statics (inst ?c)) = async_host_calls (statics (inst c))" "wedged ?c"
    using run_host_call_response_ready [OF assms(1), of rt turns i code] assms(2) by simp_all
  show ?thesis
    by (rule exI [of _ ?c], intro conjI allI impI)
       (fact first | erule run_response_ready_locked | erule wedged_async_host_call | erule wedged_exhaust_tasks
          | (drule wedged_async_guest_call [OF assms(3)], assumption, simp))+
qed

text \<open>A dispatcher answers \<open>r\<close> to an operation and a payload when the future it makes for them ends with
  \<open>r\<close> after at most \<open>n\<close> polls, whatever else it does in between, and leaves the allocator, the SDK's
  statics and the calls in progress intact.\<close>

definition poll_keeps ::
    "('t, 'u) async_statics heap_view \<Rightarrow> nat \<Rightarrow> (('t, 'u) async_statics sdk, 'w) cx
     \<Rightarrow> (('t, 'u) async_statics sdk, 'w) cx \<Rightarrow> bool" where
  "poll_keeps hv cost c c' \<longleftrightarrow>
     hv_ok hv (inst c') \<and> async_eq (inst c') (inst c) \<and> hv_room hv (inst c) \<le> hv_room hv (inst c') + cost
     \<and> (\<forall>i. call_live (mstate c) i \<longrightarrow> calls (mstate c') i = calls (mstate c) i)"

primrec answers_within ::
    "'w itself \<Rightarrow> ('t, 'u) async_rt \<Rightarrow> ('t, 'u) async_statics heap_view \<Rightarrow> nat \<Rightarrow> nat \<Rightarrow> 't \<Rightarrow> host_result \<Rightarrow> bool" where
  "answers_within w rt hv cost 0 t r = False"
| "answers_within w rt hv cost (Suc n) t r =
     (\<forall>(c :: (('t, 'u) async_statics sdk, 'w) cx). hv_ok hv (inst c) \<and> cost \<le> hv_room hv (inst c) \<longrightarrow>
        (\<exists>x c'. run_guest (rt_poll rt t) c = Ret (Inr x, c') \<and> poll_keeps hv cost c c'
           \<and> (case x of Inr r' \<Rightarrow> r' = r | Inl t' \<Rightarrow> answers_within w rt hv cost n t' r)))"

definition dispatcher_answers ::
    "'w itself \<Rightarrow> ('t, 'u) async_rt \<Rightarrow> ('t, 'u) async_statics heap_view \<Rightarrow> nat \<Rightarrow> nat \<Rightarrow> nat
     \<Rightarrow> string \<Rightarrow> bytes \<Rightarrow> host_result \<Rightarrow> bool" where
  "dispatcher_answers w rt hv cost n d op payload r \<longleftrightarrow>
     (\<forall>(c :: (('t, 'u) async_statics sdk, 'w) cx) i. hv_ok hv (inst c) \<and> cost \<le> hv_room hv (inst c) \<longrightarrow>
        (\<exists>t c'. run_guest (rt_dispatch rt d \<lparr>inv_id = i, inv_operation = op, inv_payload = payload\<rparr>) c
                = Ret (Inr t, c')
           \<and> poll_keeps hv cost c c' \<and> answers_within w rt hv cost n t r))"

text \<open>The call while it is in progress, with room for what it still allocates, and when it is done.\<close>

definition call_active ::
    "('t, 'u) async_statics heap_view \<Rightarrow> nat \<Rightarrow> i32 \<Rightarrow> call_state \<Rightarrow> (('t, 'u) async_statics sdk, 'w) cx \<Rightarrow> bool" where
  "call_active hv need i st c \<longleftrightarrow>
     hv_ok hv (inst c) \<and> need \<le> hv_room hv (inst c) \<and> ms_wf (mstate c) \<and> calls (mstate c) i = Some st"

definition call_done :: "nat \<Rightarrow> host_result \<Rightarrow> 'w module_state \<Rightarrow> bool" where
  "call_done rx r ms \<longleftrightarrow> async_result (oneshots ms ! rx) = Some (map_err GuestCallFailure r)"

lemma finish_done:
  assumes "ms_wf ms" and st: "calls ms i = Some (answered i r st)" and "channel st = Some rx"
    and "guest_error st = None" and "guest_response st = None"
  shows "\<exists>ms'. finish_guest_invocation i (case r of Inr _ \<Rightarrow> 1 | Inl _ \<Rightarrow> 0) ms = Ret ms' \<and> call_done rx r ms'"
proof -
  have ch: "channel (answered i r st) = Some rx"
    using assms(3) by (cases r) (simp_all add: answered_def)
  then have held: "holds_sender ms i rx"
    using st by (simp add: holds_sender_def)
  obtain ms' where fin: "finish_guest_invocation i (case r of Inr _ \<Rightarrow> 1 | Inl _ \<Rightarrow> 0) ms = Ret ms'"
    using finish_guest_invocation_live [OF st ch] by blast
  have "sync_result (case r of Inr _ \<Rightarrow> 1 | Inl _ \<Rightarrow> 0) (answered i r st) = map_err GuestCallFailure r"
    using assms(4,5) by (cases r) (simp_all add: answered_def sync_result_def failure_of_def success_of_def)
  then show ?thesis
    using fin async_result_finish [OF assms(1) st held fin] by (simp add: call_done_def)
qed

lemma run_reply_async:
  fixes c :: "(('t, 'u) async_statics sdk, 'w) cx"
  assumes heap: "async_heap rt hv" and active: "call_active hv (hv_cost hv (length (answer_bytes r))) i st c"
    and st: "channel st = Some rx" "guest_error st = None" "guest_response st = None"
    and small: "length (answer_bytes r) < 2 ^ 31" and valid: "\<And>e. r = Inl e \<Longrightarrow> rust_str e"
  shows "\<exists>c'. run_guest (reply_async rt i r) c = Ret (Inr (), c') \<and> async_eq (inst c') (inst c)
    \<and> call_done rx r (mstate c')"
proof -
  have hc: "heap_contract (sync_rt rt) hv" and ok: "hv_ok hv (inst c)"
    and room: "hv_cost hv (length (answer_bytes r)) \<le> hv_room hv (inst c)"
    and wf: "ms_wf (mstate c)" and live: "calls (mstate c) i = Some st"
    using heap active by (simp_all add: async_heap_def call_active_def)
  obtain p i' m where placed: "run_guest (place (sync_rt rt) (answer_bytes r)) c = Ret (Inr p, c\<lparr>inst := i'\<rparr>)"
    and mem: "wmem i' = Some m" and read: "get_vec_from_memory m p (of_nat (length (answer_bytes r))) = Ret (answer_bytes r)"
    using run_place [OF hc ok small room] by auto
  have same: "async_eq i' (inst c)"
    using stays_asyncD [OF stays_place [OF heap] placed] by simp
  let ?ms = "case r of Inr v \<Rightarrow> set_guest_response i v (mstate c) | Inl e \<Rightarrow> set_guest_error i e (mstate c)"
  have "ms_wf ?ms" and "calls ?ms i = Some (answered i r st)"
    using wf live
    by (auto simp: set_guest_response_def set_guest_error_def calls_update_call answered_def
        intro: ms_wf_set_guest_response [unfolded set_guest_response_def]
          ms_wf_set_guest_error [unfolded set_guest_error_def] split: sum.splits)
  then obtain ms' where fin: "finish_guest_invocation i (case r of Inr _ \<Rightarrow> 1 | Inl _ \<Rightarrow> 0) ?ms = Ret ms'"
    and done_ms: "call_done rx r ms'"
    using finish_done st by blast
  have "run_guest (reply_async rt i r) c = Ret (Inr (), c\<lparr>inst := i', mstate := ms'\<rparr>)"
    using placed read fin valid
    by (cases r)
       (auto simp: reply_async_def run_guest_gbind answer_bytes_def gcall_unit_def linker_guest_response_def
          linker_guest_error_def linker_guest_response_ready_def with_params_def get_caller_memory_def mem
          get_string_from_memory_def)
  then show ?thesis
    using same done_ms by auto
qed

text \<open>One poll of the dispatcher's future: the task goes on with fewer polls to come, or the call is
  done.\<close>

definition poll_result ::
    "('t, 'u) async_rt \<Rightarrow> ('t, 'u) async_statics heap_view \<Rightarrow> nat \<Rightarrow> nat \<Rightarrow> i32 \<Rightarrow> call_state \<Rightarrow> nat \<Rightarrow> host_result
     \<Rightarrow> 't call_task option \<Rightarrow> (('t, 'u) async_statics sdk, 'w) cx \<Rightarrow> bool" where
  "poll_result rt hv cost n i st rx r x c' \<longleftrightarrow>
     (case x of
        None \<Rightarrow> call_done rx r (mstate c')
      | Some task \<Rightarrow>
          (\<exists>t. task = Call_Dispatched i t \<and> answers_within TYPE('w) rt hv cost n t r)
          \<and> call_active hv (n * cost + hv_cost hv (length (answer_bytes r))) i st c')"

lemma call_active_keeps:
  fixes c c' :: "(('t, 'u) async_statics sdk, 'w) cx"
  assumes "call_active hv (cost + need) i st c" and "poll_keeps hv cost c c'"
    and "run_guest p c = Ret (r, c')"
  shows "call_active hv need i st c'"
proof -
  have "ms_wf (mstate c')"
    using keeps_wf.run_keeps [OF avoids_nothing _ assms(3)] assms(1) by (simp add: call_active_def)
  then show ?thesis
    using assms(1,2) by (auto simp: call_active_def poll_keeps_def call_live_def)
qed

lemma run_poll_dispatched:
  fixes c :: "(('t, 'u) async_statics sdk, 'w) cx"
  assumes heap: "async_heap rt hv" and answers: "answers_within TYPE('w) rt hv cost (Suc n) t r"
    and active: "call_active hv (Suc n * cost + hv_cost hv (length (answer_bytes r))) i st c"
    and st: "channel st = Some rx" "guest_error st = None" "guest_response st = None"
    and small: "length (answer_bytes r) < 2 ^ 31" and valid: "\<And>e. r = Inl e \<Longrightarrow> rust_str e"
  shows "\<exists>x c'. run_guest (poll_dispatched rt i t) c = Ret (Inr x, c') \<and> async_eq (inst c') (inst c)
    \<and> poll_result rt hv cost n i st rx r x c'"
proof -
  have "hv_ok hv (inst c)" "cost \<le> hv_room hv (inst c)"
    using active by (simp_all add: call_active_def)
  then obtain y c1 where run: "run_guest (rt_poll rt t) c = Ret (Inr y, c1)" and keeps: "poll_keeps hv cost c c1"
    and y: "case y of Inr r' \<Rightarrow> r' = r | Inl t' \<Rightarrow> answers_within TYPE('w) rt hv cost n t' r"
    using answers by auto
  have active1: "call_active hv (n * cost + hv_cost hv (length (answer_bytes r))) i st c1"
    using call_active_keeps [OF _ keeps run] active by (simp add: add.assoc)
  have same: "async_eq (inst c1) (inst c)"
    using keeps by (simp add: poll_keeps_def)
  show ?thesis
  proof (cases y)
    case (Inl t')
    then show ?thesis
      using run y active1 same by (simp add: poll_dispatched_def run_guest_gbind poll_result_def)
  next
    case (Inr r')
    have "call_active hv (hv_cost hv (length (answer_bytes r))) i st c1"
      using active1 by (simp add: call_active_def)
    from run_reply_async [OF heap this st small valid] obtain c2 where
      "run_guest (reply_async rt i r) c1 = Ret (Inr (), c2)" "async_eq (inst c2) (inst c1)"
      "call_done rx r (mstate c2)"
      by blast
    then show ?thesis
      using Inr run y async_eq_trans [OF _ same]
      by (auto simp: poll_dispatched_def run_guest_gbind poll_result_def)
  qed
qed

lemma run_poll_start:
  fixes c :: "(('t, 'u) async_statics sdk, 'w) cx"
  assumes heap: "async_heap rt hv" and answers: "dispatcher_answers TYPE('w) rt hv cost n d op payload r"
    and active: "call_active hv (cost + (n * cost + hv_cost hv (length (answer_bytes r)))) i st c"
    and st: "channel st = Some rx" "guest_error st = None" "guest_response st = None"
    and small: "length (answer_bytes r) < 2 ^ 31"
    and valid: "\<And>e. r = Inl e \<Longrightarrow> rust_str e" and op: "rust_str op"
  shows "\<exists>x c'. run_guest (poll_call_task rt (Call_Start d i (as_bytes op) payload)) c = Ret (Inr x, c')
    \<and> async_eq (inst c') (inst c) \<and> 0 < n \<and> poll_result rt hv cost (n - 1) i st rx r x c'"
proof -
  let ?iv = "\<lparr>inv_id = i, inv_operation = op, inv_payload = payload\<rparr>"
  have name: "from_utf8_lossy (as_bytes op) = op"
    using op by (simp add: from_utf8_lossy_def utf8_lossy_id rust_str_def)
  have "hv_ok hv (inst c)" "cost \<le> hv_room hv (inst c)"
    using active by (simp_all add: call_active_def)
  then obtain t c1 where run: "run_guest (rt_dispatch rt d ?iv) c = Ret (Inr t, c1)" and keeps: "poll_keeps hv cost c c1"
    and t: "answers_within TYPE('w) rt hv cost n t r"
    using answers unfolding dispatcher_answers_def by fastforce
  obtain m where m: "n = Suc m"
    using t by (cases n) auto
  have active1: "call_active hv (Suc m * cost + hv_cost hv (length (answer_bytes r))) i st c1"
    using call_active_keeps [OF active keeps run] by (simp add: m)
  have same: "async_eq (inst c1) (inst c)"
    using keeps by (simp add: poll_keeps_def)
  from run_poll_dispatched [OF heap t [unfolded m] active1 st small valid] obtain x c2 where
    "run_guest (poll_dispatched rt i t) c1 = Ret (Inr x, c2)" "async_eq (inst c2) (inst c1)"
    "poll_result rt hv cost m i st rx r x c2"
    by blast
  then show ?thesis
    using run async_eq_trans [OF _ same] by (auto simp: run_guest_gbind name m)
qed

text \<open>The states between the turns of the executor: the one task of the call is still to be polled at
  most \<open>m\<close> times, or the call is done and no task is left.\<close>

definition serving ::
    "('t, 'u) async_rt \<Rightarrow> ('t, 'u) async_statics heap_view \<Rightarrow> nat \<Rightarrow> 't call_task \<Rightarrow> nat \<Rightarrow> i32 \<Rightarrow> call_state \<Rightarrow> nat
     \<Rightarrow> host_result \<Rightarrow> nat \<Rightarrow> (('t, 'u) async_statics sdk, 'w) cx \<Rightarrow> bool" where
  "serving rt hv cost start n i st rx r m c \<longleftrightarrow>
     \<not> host_calls_locked (statics (inst c)) \<and> async_host_calls (statics (inst c)) = []
     \<and> (tasks (statics (inst c)) = [] \<and> call_done rx r (mstate c)
        \<or> (\<exists>t. tasks (statics (inst c)) = [Call_Dispatched i t] \<and> answers_within TYPE('w) rt hv cost m t r
              \<and> call_active hv (m * cost + hv_cost hv (length (answer_bytes r))) i st c)
        \<or> tasks (statics (inst c)) = [start] \<and> m = n
              \<and> call_active hv (cost + (n * cost + hv_cost hv (length (answer_bytes r)))) i st c)"

lemma call_active_set_statics:
  assumes "async_heap rt hv" and "call_active hv need i st c" and "own (f (statics (inst c))) = own (statics (inst c))"
  shows "call_active hv need i st (c\<lparr>inst := set_statics f (inst c)\<rparr>)"
  using assms async_heap_update [of rt hv "inst c" f] by (simp add: call_active_def)

lemma serving_turn:
  fixes c :: "(('t, 'u) async_statics sdk, 'w) cx"
  assumes heap: "async_heap rt hv" and progress: "executor_progress rt"
    and answers: "dispatcher_answers TYPE('w) rt hv cost n d op payload r"
    and serving: "serving rt hv cost (Call_Start d i (as_bytes op) payload) n i st rx r m c"
    and some: "tasks (statics (inst c)) \<noteq> []"
    and st: "channel st = Some rx" "guest_error st = None" "guest_response st = None"
    and small: "length (answer_bytes r) < 2 ^ 31"
    and valid: "\<And>e. r = Inl e \<Longrightarrow> rust_str e" and op: "rust_str op"
  shows "\<exists>c' m'. run_guest (executor_turn rt) c = Ret (Inr (), c') \<and> m' < m
    \<and> serving rt hv cost (Call_Start d i (as_bytes op) payload) n i st rx r m' c'"
proof -
    obtain task where task: "tasks (statics (inst c)) = [task]"
    using serving some by (auto simp: serving_def)
  have pick: "rt_pick rt (inst c) = Some 0"
    using progress serving task unfolding executor_progress_def serving_def by force
  have "\<exists>x c' m'. run_guest (poll_call_task rt task) c = Ret (Inr x, c') \<and> async_eq (inst c') (inst c)
      \<and> m' < m \<and> poll_result rt hv cost m' i st rx r x c'"
  proof (cases "task = Call_Start d i (as_bytes op) payload \<and> m = n
      \<and> call_active hv (cost + (n * cost + hv_cost hv (length (answer_bytes r)))) i st c")
    case True
    with run_poll_start [OF heap answers _ st small valid op] show ?thesis
      by (metis diff_less zero_less_one)
  next
    case False
    then obtain t where t: "task = Call_Dispatched i t" "answers_within TYPE('w) rt hv cost m t r"
      "call_active hv (m * cost + hv_cost hv (length (answer_bytes r))) i st c"
      using serving task by (auto simp: serving_def)
    then obtain k where "m = Suc k"
      by (cases m) auto
    with t run_poll_dispatched [OF heap _ _ st small valid, of cost k t i c] show ?thesis
      by auto
  qed
  then obtain x c1 m' where poll: "run_guest (poll_call_task rt task) c = Ret (Inr x, c1)"
    and same: "async_eq (inst c1) (inst c)" and less: "m' < m"
    and result: "poll_result rt hv cost m' i st rx r x c1"
    by blast
  let ?c = "c1\<lparr>inst := set_statics (\<lambda>st. st\<lparr>tasks := replace_task 0 x (tasks st)\<rparr>) (inst c1)\<rparr>"
  have turn: "run_guest (executor_turn rt) c = Ret (Inr (), ?c)"
    using run_executor_turn [OF pick] poll by (simp add: task)
  have "serving rt hv cost (Call_Start d i (as_bytes op) payload) n i st rx r m' ?c"
  proof (cases x)
    case None
    then show ?thesis
      using same serving result task by (simp add: serving_def async_eq_def replace_task_def poll_result_def)
  next
    case (Some task')
    then show ?thesis
      using same serving result task
        call_active_set_statics [OF heap, of "m' * cost + hv_cost hv (length (answer_bytes r))" i st c1
          "\<lambda>st. st\<lparr>tasks := replace_task 0 x (tasks st)\<rparr>"]
      by (auto simp: serving_def async_eq_def replace_task_def poll_result_def)
  qed
  with turn less show ?thesis
    by blast
qed

lemma run_serving:
  fixes c :: "(('t, 'u) async_statics sdk, 'w) cx"
  assumes heap: "async_heap rt hv" and progress: "executor_progress rt"
    and answers: "dispatcher_answers TYPE('w) rt hv cost n d op payload r"
    and serving: "serving rt hv cost (Call_Start d i (as_bytes op) payload) n i st rx r n c"
    and st: "channel st = Some rx" "guest_error st = None" "guest_response st = None"
    and small: "length (answer_bytes r) < 2 ^ 31"
    and valid: "\<And>e. r = Inl e \<Longrightarrow> rust_str e" and op: "rust_str op" and turns: "n < turns"
  shows "\<exists>c'. run_guest (exhaust_tasks rt turns) c = Ret (Inr (), c') \<and> call_done rx r (mstate c')"
proof -
  let ?S = "\<lambda>m (c :: (('t, 'u) async_statics sdk, 'w) cx).
    serving rt hv cost (Call_Start d i (as_bytes op) payload) n i st rx r m c"
  have more: "run_guest (exhaust_condition rt) c = Ret (Inr (tasks (statics (inst c)) \<noteq> []), c)" if "?S m c" for m c
    using that more_tasks_iff [of 1 0] by (auto simp: run_exhaust_condition serving_def more_tasks_def)
  have "\<exists>b. run_guest (exhaust_condition rt) c = Ret (Inr b, c)
      \<and> (b \<longrightarrow> (\<exists>c' m'. run_guest (executor_turn rt) c = Ret (Inr (), c') \<and> m' < m \<and> ?S m' c'))" if "?S m c" for m c
    using more [OF that] serving_turn [OF heap progress answers that _ st small valid op] by blast
  from run_while_rule [of ?S "exhaust_condition rt" rt, OF this serving turns]
  obtain c' m' where run: "run_guest (exhaust_tasks rt turns) c = Ret (Inr (), c')" and "?S m' c'"
    and "run_guest (exhaust_condition rt) c' = Ret (Inr False, c')"
    unfolding exhaust_tasks_def by blast
  then have "tasks (statics (inst c')) = []"
    using more by fastforce
  with run \<open>?S m' c'\<close> show ?thesis
    by (auto simp: serving_def)
qed

text \<open>What the host makes of a run of \<open>__async_guest_call\<close> that ends.\<close>

lemma call_async_run_returns:
  assumes "exported_async_call (wcc_context cc) = Some f"
    and "new_invocation (Invocation_new op payload) ms = (i, rx, ms1)"
    and "guest_run f (wc_inst (wcc_context cc)) i op payload ms1 ev = Ret (Inr (), c)"
  shows "\<exists>cc'. call_async_run (wasmtime_engine api) cc op payload ms ev = Ret (Inr rx, cc', mstate c, env c)"
  using assms
  by (simp add: call_async_run_def WapcCallContext_call_async_def Let_def wasmtime_call_async_def
      exported_async_call_def guest_run_def)

text \<open>Room for everything an asynchronous call allocates.\<close>

definition async_call_fits ::
    "('t, 'u) async_statics heap_view \<Rightarrow> nat \<Rightarrow> nat \<Rightarrow> string \<Rightarrow> bytes \<Rightarrow> host_result \<Rightarrow> ('t, 'u) async_inst \<Rightarrow> bool" where
  "async_call_fits hv cost n op payload r i \<longleftrightarrow>
     length op < 2 ^ 31 \<and> length payload < 2 ^ 31 \<and> length (answer_bytes r) < 2 ^ 31
     \<and> hv_cost hv (length payload) + hv_cost hv (length op) + (n + 1) * cost
         + hv_cost hv (length (answer_bytes r)) \<le> hv_room hv i"

definition sdk_idle :: "nat \<Rightarrow> ('t, 'u) async_inst \<Rightarrow> bool" where
  "sdk_idle d i \<longleftrightarrow> dispatcher (statics i) = Some d \<and> tasks (statics i) = [] \<and> async_host_calls (statics i) = []
     \<and> \<not> host_calls_locked (statics i)"

lemma async_sdk_call_reply:
  fixes ms :: "'w module_state"
  assumes sdk: "exported_async_call (wcc_context cc) = Some (async_guest_call rt turns)" and turns: "n < turns"
    and heap: "async_heap rt hv" "hv_ok hv (wc_inst (wcc_context cc))"
    and progress: "executor_progress rt" and answers: "dispatcher_answers TYPE('w) rt hv cost n d op payload r"
    and idle: "sdk_idle d (wc_inst (wcc_context cc))" and wf: "ms_wf ms"
    and fits: "async_call_fits hv cost n op payload r (wc_inst (wcc_context cc))"
    and valid: "\<And>e. r = Inl e \<Longrightarrow> rust_str e" and op: "rust_str op"
  shows "\<exists>rx cc' ms' ev'. call_async_run (wasmtime_engine api) cc op payload ms ev = Ret (Inr rx, cc', ms', ev')
    \<and> call_async_reply (oneshots ms' ! rx) = Some (wrap_call_error (map_err GuestCallFailure r))"
proof -
  let ?inst = "wc_inst (wcc_context cc)"
  obtain i rx ms1 where ni: "new_invocation (Invocation_new op payload) ms = (i, rx, ms1)"
    by (cases "new_invocation (Invocation_new op payload) ms")
  let ?c = "\<lparr>inst = ?inst, mstate = ms1, env = ev\<rparr>"
  obtain st where st: "calls (mstate ?c) i = Some st" "guest_request st = Some (Invocation_new op payload)"
    and fresh: "channel st = Some rx" "guest_error st = None" "guest_response st = None"
    using ni by (auto simp: new_invocation_def next_call_index_def oneshot_channel_def)
  have req: "get_guest_request i (mstate ?c) = Some (Invocation_new op payload)"
    using st by (simp add: get_guest_request_def)
  have hc: "heap_contract (sync_rt rt) hv"
    using heap by (simp add: async_heap_def)
  have small: "length (answer_bytes r) < 2 ^ 31"
    using fits by (simp add: async_call_fits_def)
  obtain i1 where fetch: "run_guest (fetch_request (sync_rt rt) i (i32_of_len (length op)) (i32_of_len (length payload))) ?c
      = Ret (Inr (payload, as_bytes op), ?c\<lparr>inst := i1\<rparr>)"
    and ok1: "hv_ok hv i1"
    and room1: "hv_room hv ?inst \<le> hv_room hv i1 + (hv_cost hv (length payload) + hv_cost hv (length op))"
    using run_fetch_request [OF hc _ req] heap(2) fits by (auto simp: async_call_fits_def)
  have same: "async_eq i1 ?inst"
    using stays_asyncD [OF stays_fetch_request [OF heap(1)] fetch] by simp
  let ?start = "Call_Start d i (as_bytes op) payload"
  let ?c2 = "?c\<lparr>inst := set_statics (\<lambda>st. st\<lparr>tasks := tasks st @ [?start]\<rparr>) i1\<rparr>"
  have wf1: "ms_wf ms1"
    using ms_wf_new_invocation [OF wf ni] .
  have "call_active hv (cost + (n * cost + hv_cost hv (length (answer_bytes r)))) i st (?c\<lparr>inst := i1\<rparr>)"
    using fits room1 ok1 wf1 st by (simp add: call_active_def async_call_fits_def)
  from call_active_set_statics [OF heap(1) this, of "\<lambda>st. st\<lparr>tasks := tasks st @ [?start]\<rparr>"]
  have serving: "serving rt hv cost ?start n i st rx r n ?c2"
    using idle same by (simp add: serving_def sdk_idle_def async_eq_def)
  from run_serving [OF heap(1) progress answers serving fresh small valid op turns]
  obtain c' where run: "run_guest (exhaust_tasks rt turns) ?c2 = Ret (Inr (), c')"
    and reply: "call_done rx r (mstate c')"
    by blast
  have "guest_run (async_guest_call rt turns) ?inst i op payload ms1 ev = Ret (Inr (), c')"
    using fetch run idle same
    by (simp add: guest_run_def async_guest_call_def run_guest_gbind spawn_task_def sdk_idle_def async_eq_def)
  from call_async_run_returns [OF sdk ni this] obtain cc' where
    "call_async_run (wasmtime_engine api) cc op payload ms ev = Ret (Inr rx, cc', mstate c', env c')"
    by blast
  moreover have "call_async_reply (oneshots (mstate c') ! rx) = Some (wrap_call_error (map_err GuestCallFailure r))"
    using reply by (simp add: call_done_def call_async_reply_def)
  ultimately show ?thesis
    by blast
qed

text \<open>An asynchronous call of a guest built with the SDK is answered by the time the guest returns,
  with what the dispatcher answers to the operation and the payload: its result, or its error as a
  guest-call failure. It needs an allocator that keeps its contract, room for the call, an executor
  that polls a task when there is one, and a future of the dispatcher that ends after at most \<open>n\<close> polls.\<close>

theorem async_sdk_call_refines:
  fixes ms :: "'w module_state"
  assumes sdk: "exported_async_call (wcc_context cc) = Some (async_guest_call rt turns)" and turns: "n < turns"
    and heap: "async_heap rt hv" "hv_ok hv (wc_inst (wcc_context cc))"
    and progress: "executor_progress rt" and answers: "dispatcher_answers TYPE('w) rt hv cost n d op payload r"
    and idle: "sdk_idle d (wc_inst (wcc_context cc))" and wf: "ms_wf ms"
    and fits: "async_call_fits hv cost n op payload r (wc_inst (wcc_context cc))"
    and valid: "\<And>e. r = Inl e \<Longrightarrow> rust_str e" and op: "rust_str op"
  shows "\<exists>rx cc' ms' ev'. call_async_run (wasmtime_engine api) cc op payload ms ev = Ret (Inr rx, cc', ms', ev')
    \<and> call_async_reply (oneshots ms' ! rx) = Some (wrap_call_error (map_err GuestCallFailure r))"
  using assms by (rule async_sdk_call_reply)

subsection \<open>A guest for the witnesses\<close>

text \<open>A guest with the allocator of \<open>bump_heap_contract\<close> and a dispatcher whose futures yield once before
  they answer. The executor polls its first task unless all of them wait for the host.\<close>

type_synonym yielding = "nat \<times> host_result"

abbreviation yield_alloc :: "nat \<Rightarrow> (yielding, nat) async_inst \<Rightarrow> (i32 \<times> (yielding, nat) async_inst) option" where
  "yield_alloc \<equiv> bump_alloc own (\<lambda>a st. st\<lparr>own := a\<rparr>)"

definition yield_answer :: "string \<Rightarrow> bytes \<Rightarrow> host_result" where
  "yield_answer op payload = (if op = ''refuse'' then Inl ''refused'' else Inr payload)"

definition yield_rt :: "(yielding, nat) async_rt" where
  "yield_rt =
     \<lparr>sync_rt = \<lparr>rt_alloc = yield_alloc, rt_handlers = (\<lambda>_ _. GRet (Inl ''no handler'')),
        trap_capacity = ''capacity overflow'', trap_alloc = ''out of memory'', trap_bounds = ''out of bounds'',
        trap_lock = ''deadlock'', trap_result = ''bad result''\<rparr>,
      rt_dispatch = (\<lambda>d iv. GRet (1, yield_answer (inv_operation iv) (inv_payload iv))),
      rt_poll = (\<lambda>(k, r). GRet (if k = 0 then Inr r else Inl (k - 1, r))),
      rt_pick = (\<lambda>i. if tasks (statics i) \<noteq> [] \<and> async_host_calls (statics i) = [] then Some 0 else None),
      rt_idle = GRet (),
      trap_unwrap = ''unwrap on None'', trap_turns = ''still running'', recv_error_text = ''channel closed''\<rparr>"

abbreviation yield_view :: "(yielding, nat) async_statics heap_view" where
  "yield_view \<equiv> bump_heap own (\<lambda>_. True)"

definition yield_instance :: "(yielding, nat) async_inst" where
  "yield_instance =
     \<lparr>wmem = Some (replicate 128 0),
      wstate = \<lparr>registry = Map.empty, registry_locked = False, CALL_NUM = 0,
        user = \<lparr>dispatcher = Some 0, async_registry = Map.empty, async_host_calls = [], host_calls_locked = False,
          host_oneshots = [], tasks = [], own = 8\<rparr>\<rparr>\<rparr>"

text \<open>The allocator of \<open>bump_heap_contract\<close> with its pointer in \<open>own\<close>.\<close>

lemma bump_async_heap:
  fixes rt :: "('t, 'u) async_rt"
  assumes "rt_alloc (sync_rt rt) = bump_alloc (brk \<circ> own) (\<lambda>a st. st\<lparr>own := set_brk a (own st)\<rparr>)"
    and "\<And>a u. brk (set_brk a u) = a" and "\<And>a u. P (set_brk a u) = P u"
  shows "async_heap rt (bump_heap (brk \<circ> own) (P \<circ> own))"
proof -
  have "heap_contract (sync_rt rt) (bump_heap (brk \<circ> own) (P \<circ> own))"
    by (rule bump_heap_contract [OF assms(1)]) (simp_all add: assms)
  moreover have "async_eq i' i" if "rt_alloc (sync_rt rt) n i = Some (p, i')" for n i p i'
    using that by (auto simp: assms(1) bump_alloc_def async_eq_def Let_def split: if_splits)
  moreover have "heap_update_ok (bump_heap (brk \<circ> own) (P \<circ> own)) i (set_statics f i)"
    if "hv_ok (bump_heap (brk \<circ> own) (P \<circ> own)) i" "own (f (statics i)) = own (statics i)"
    for i :: "('t, 'u) async_inst" and f
    using that by (simp add: heap_update_ok_def bump_heap_def)
  ultimately show ?thesis
    by (simp add: async_heap_def)
qed

lemma yield_heap: "async_heap yield_rt yield_view"
  using bump_async_heap [where rt = yield_rt and brk = id and set_brk = "\<lambda>a _. a" and P = "\<lambda>_. True"]
  by (simp add: yield_rt_def comp_def)

lemma yield_progress: "executor_progress yield_rt"
  by (simp add: executor_progress_def yield_rt_def)

lemma yield_dispatcher: "dispatcher_answers w yield_rt yield_view 0 2 d op payload (yield_answer op payload)"
  by (simp add: dispatcher_answers_def yield_rt_def poll_keeps_def numeral_eq_Suc)

definition yield_module :: "(yielding, nat) async_statics sdk wasm_module" where
  "yield_module =
     \<lparr>m_imports = [],
      m_exports = [''__async_guest_call'' \<mapsto> Export_3_0 (async_guest_call yield_rt 3)],
      m_instance = yield_instance, m_start = None\<rparr>"

definition yield_context :: "(yielding, nat) async_statics sdk wasmtime_context wapc_call_context" where
  "yield_context = \<lparr>wcc_context = \<lparr>wc_module = yield_module, wc_inst = yield_instance\<rparr>, wcc_id = 1\<rparr>"

theorem async_sdk_call_refines_witness:
  "\<forall>api. \<exists>rx cc' ms' ev'. call_async_run (wasmtime_engine api) yield_context ''refuse'' [7] (ModuleState_new None None 1) sample_env
      = Ret (Inr rx, cc', ms', ev')
    \<and> call_async_reply (oneshots ms' ! rx) = Some (Inl (GuestCallFailure ''Guest call failure: refused''))"
proof
  fix api
  have sdk: "exported_async_call (wcc_context yield_context) = Some (async_guest_call yield_rt 3)"
    by (simp add: yield_context_def exported_async_call_def yield_module_def get_func_3_0_def guest_name_defs)
  have ok: "hv_ok yield_view (wc_inst (wcc_context yield_context))"
    and idle: "sdk_idle 0 (wc_inst (wcc_context yield_context))"
    and fits: "async_call_fits yield_view 0 2 ''refuse'' [7] (yield_answer ''refuse'' [7]) (wc_inst (wcc_context yield_context))"
    by (simp_all add: yield_context_def yield_instance_def bump_heap_def sdk_idle_def async_call_fits_def
        yield_answer_def answer_bytes_def)
  have op: "rust_str ''refuse''" and "rust_str ''refused''"
    by (simp_all add: rust_str_def as_bytes_def u8_of_char_def utf8_width_def in_range_def)
  then have valid: "rust_str e" if "yield_answer ''refuse'' [7] = Inl e" for e
    using that by (simp add: yield_answer_def)
  have answer: "wrap_call_error (map_err GuestCallFailure (yield_answer ''refuse'' [7]))
      = Inl (GuestCallFailure ''Guest call failure: refused'')"
    by (simp add: yield_answer_def wrap_call_error_def)
  show "\<exists>rx cc' ms' ev'. call_async_run (wasmtime_engine api) yield_context ''refuse'' [7] (ModuleState_new None None 1) sample_env
      = Ret (Inr rx, cc', ms', ev')
    \<and> call_async_reply (oneshots ms' ! rx) = Some (Inl (GuestCallFailure ''Guest call failure: refused''))"
    using async_sdk_call_refines [where api = api and ev = sample_env,
        OF sdk _ yield_heap ok yield_progress yield_dispatcher idle ms_wf_new fits valid op] answer
    by simp
qed

text \<open>Two tasks of calls that are gone already, so that their replies go nowhere.\<close>

definition yield_cx :: "(yielding, nat) async_inst \<Rightarrow> ((yielding, nat) async_statics sdk, nat) cx" where
  "yield_cx i = \<lparr>inst = i, mstate = ModuleState_new None None 1, env = sample_env\<rparr>"

definition yield_rank :: "yielding call_task \<Rightarrow> nat" where
  "yield_rank t = (case t of Call_Start _ _ _ _ \<Rightarrow> 1 | Call_Dispatched _ (k, _) \<Rightarrow> k)"

definition empty_answer :: "yielding call_task \<Rightarrow> bool" where
  "empty_answer t = (case t of
     Call_Start _ _ opbuf buf \<Rightarrow> opbuf = [] \<and> buf = [] | Call_Dispatched _ (_, r) \<Rightarrow> r = Inr [])"

definition yield_inv :: "((yielding, nat) async_statics sdk, nat) cx \<Rightarrow> bool" where
  "yield_inv c \<longleftrightarrow> wmem (inst c) = Some (replicate 128 0) \<and> mstate c = ModuleState_new None None 1
     \<and> list_all empty_answer (tasks (statics (inst c)))"

lemma run_empty_reply:
  assumes "yield_inv c"
  shows "run_guest (reply_async yield_rt i (Inr [])) c = Ret (Inr (), c)"
proof -
  have "get_vec_from_memory (replicate 128 0) 1 0 = Ret []"
    by (simp add: get_vec_eq mem_ok_def)
  then show ?thesis
    using assms
    by (simp add: yield_inv_def reply_async_def run_guest_gbind place_def with_capacity_def store_bytes_def
        gcall_unit_def linker_guest_response_def linker_guest_response_ready_def with_params_def
        get_caller_memory_def set_guest_response_def update_call_def finish_guest_invocation_def ModuleState_new_def)
qed

lemma list_all_replace_task:
  "list_all P ts \<Longrightarrow> (\<And>t. r = Some t \<Longrightarrow> P t) \<Longrightarrow> list_all P (replace_task k r ts)"
  by (auto simp: replace_task_def list_all_iff split: option.splits dest: in_set_takeD in_set_dropD
      set_update_subset_insert [THEN subsetD])

lemma yield_inv_replace:
  assumes "yield_inv c" and "\<And>t. r = Some t \<Longrightarrow> empty_answer t"
  shows "yield_inv (c\<lparr>inst := set_statics (\<lambda>st. st\<lparr>tasks := replace_task k r (tasks st)\<rparr>) (inst c)\<rparr>)"
  using assms by (simp add: yield_inv_def list_all_replace_task)

lemma yield_ops:
  shows "rt_dispatch yield_rt d iv = GRet (1, yield_answer (inv_operation iv) (inv_payload iv))"
    and "rt_poll yield_rt (k, r) = GRet (if k = 0 then Inr r else Inl (k - 1, r))"
  by (simp_all add: yield_rt_def)

lemma run_yield_poll:
  assumes "yield_inv c" and "empty_answer t"
  shows "\<exists>r. run_guest (poll_call_task yield_rt t) c = Ret (Inr r, c)
    \<and> (\<forall>t'. r = Some t' \<longrightarrow> empty_answer t' \<and> yield_rank t' < yield_rank t)"
proof (cases t)
  case (Call_Start d i opbuf buf)
  then show ?thesis
    using assms
    by (simp add: empty_answer_def yield_ops poll_dispatched_def from_utf8_lossy_def string_of_bytes_def
        yield_answer_def yield_rank_def)
next
  case (Call_Dispatched i kr)
  moreover obtain k r where "kr = (k, r)"
    by (cases kr)
  ultimately show ?thesis
    using assms run_empty_reply [OF assms(1)]
    by (cases k) (simp_all add: empty_answer_def poll_dispatched_def run_guest_gbind yield_rank_def yield_ops)
qed

lemma yield_polls_end: "polls_end yield_rt yield_inv yield_rank"
  unfolding polls_end_def
proof (intro allI impI, elim conjE)
  fix c k
  assume inv: "yield_inv c" and k: "k < length (tasks (statics (inst c)))"
  then have "empty_answer (tasks (statics (inst c)) ! k)"
    by (simp add: yield_inv_def list_all_length)
  from run_yield_poll [OF inv this] obtain r where
    "run_guest (poll_call_task yield_rt (tasks (statics (inst c)) ! k)) c = Ret (Inr r, c)"
    "\<And>t. r = Some t \<Longrightarrow> empty_answer t" "\<And>t. r = Some t \<Longrightarrow> yield_rank t < yield_rank (tasks (statics (inst c)) ! k)"
    by blast
  then show "\<exists>r c'. run_guest (poll_call_task yield_rt (tasks (statics (inst c)) ! k)) c = Ret (Inr r, c')
      \<and> async_eq (inst c') (inst c)
      \<and> yield_inv (c'\<lparr>inst := set_statics (\<lambda>st. st\<lparr>tasks := replace_task k r (tasks st)\<rparr>) (inst c')\<rparr>)
      \<and> (\<forall>t. r = Some t \<longrightarrow> yield_rank t < yield_rank (tasks (statics (inst c)) ! k))"
    using yield_inv_replace [OF inv] by (intro exI [of _ r] exI [of _ c]) simp
qed

definition two_tasks :: "(yielding, nat) async_inst" where
  "two_tasks = set_statics (\<lambda>st. st\<lparr>tasks := [Call_Start 0 5 [] [], Call_Dispatched 6 (0, Inr [])]\<rparr>) yield_instance"

theorem exhaust_tasks_terminates_witness:
  "\<exists>c'. run_guest (exhaust_tasks yield_rt 4) (yield_cx two_tasks) = Ret (Inr (), c') \<and> tasks (statics (inst c')) = []"
proof -
  have "yield_inv (yield_cx two_tasks)"
    by (simp add: yield_inv_def yield_cx_def two_tasks_def yield_instance_def empty_answer_def)
  moreover have "async_host_calls (statics (inst (yield_cx two_tasks))) = []"
      "\<not> host_calls_locked (statics (inst (yield_cx two_tasks)))"
      "ranks yield_rank (tasks (statics (inst (yield_cx two_tasks)))) < 4" "(4 :: nat) \<le> 2 ^ 32"
    by (simp_all add: yield_cx_def two_tasks_def yield_instance_def ranks_def yield_rank_def)
  ultimately show ?thesis
    using exhaust_tasks_terminates [OF yield_progress yield_polls_end] by blast
qed

definition two_in_flight :: "(yielding, nat) async_inst" where
  "two_in_flight = set_statics (\<lambda>st. st\<lparr>tasks := [Call_Dispatched 1 (0, Inr [])],
     async_host_calls := [(1, 1), (0, 0)], host_oneshots := [Pending, Pending]\<rparr>) yield_instance"

theorem exhaust_tasks_spins_witness:
  "\<forall>turns. run_guest (exhaust_tasks yield_rt turns) (yield_cx two_in_flight)
     = Ret (Inl ''still running'', yield_cx two_in_flight)"
proof
  fix turns
  let ?c = "yield_cx two_in_flight"
  have "length (tasks (statics (inst ?c))) < length (async_host_calls (statics (inst ?c)))"
      "length (async_host_calls (statics (inst ?c))) < 2 ^ 32" "\<not> host_calls_locked (statics (inst ?c))"
      "rt_pick yield_rt (inst ?c) = None" "run_guest (rt_idle yield_rt) ?c = Ret (Inr (), ?c)"
    by (simp_all add: yield_cx_def two_in_flight_def yield_instance_def yield_rt_def)
  from exhaust_tasks_spins [OF this, of turns] show "run_guest (exhaust_tasks yield_rt turns) ?c = Ret (Inl ''still running'', ?c)"
    by (simp add: yield_rt_def)
qed

theorem unknown_response_wedges_sdk_witness:
  "\<exists>c'. run_guest (host_call_response_ready yield_rt 4 2 2) (yield_cx two_in_flight) = Ret (Inl ''unwrap on None'', c')
    \<and> run_guest (host_call_response_ready yield_rt 4 0 1) c' = Ret (Inl ''deadlock'', c')
    \<and> (\<exists>d. run_guest (async_host_call yield_rt (1, []) (1, []) (1, []) (1, [])) c' = Ret (Inl ''deadlock'', d))"
proof -
  have free: "\<not> host_calls_locked (statics (inst (yield_cx two_in_flight)))"
    and unknown: "map_of (async_host_calls (statics (inst (yield_cx two_in_flight)))) 2 = None"
    by (simp_all add: yield_cx_def two_in_flight_def yield_instance_def)
  have "trap_unwrap yield_rt = ''unwrap on None''" "trap_lock (sync_rt yield_rt) = ''deadlock''"
    by (simp_all add: yield_rt_def)
  then show ?thesis
    using unknown_response_wedges_sdk [OF free unknown yield_heap, of 4 2] by metis
qed

text \<open>A host call refused by the callback, and its report with code 0.\<close>

definition refused_cx :: "((yielding, nat) async_statics sdk, nat) cx" where
  "refused_cx =
     (yield_cx (set_statics (\<lambda>st. st\<lparr>host_oneshots := [Sent 0]\<rparr>) yield_instance))
       \<lparr>mstate := (ModuleState_new None None 1)\<lparr>calls := [0 \<mapsto> default_call_state\<lparr>host_error := Some ''refused''\<rparr>]\<rparr>\<rparr>"

theorem failed_host_call_is_success_witness:
  "\<exists>c'. run_guest (poll_host_call yield_rt \<lparr>hcf_index = 0, hcf_callresult = 2, hcf_recv = 0\<rparr>) refused_cx
     = Ret (Inr (Some (Inr [])), c')"
proof -
  let ?f = "\<lparr>hcf_index = 0, hcf_callresult = 2, hcf_recv = 0\<rparr>"
  have st: "calls (mstate refused_cx) (hcf_index ?f) = Some (default_call_state\<lparr>host_error := Some ''refused''\<rparr>)"
      "host_error (default_call_state\<lparr>host_error := Some ''refused''\<rparr>) = Some ''refused''"
      "host_response (default_call_state\<lparr>host_error := Some ''refused''\<rparr>) = None"
    by (simp_all add: refused_cx_def)
  have report: "hcf_callresult ?f \<noteq> 0 \<longrightarrow> host_oneshots (statics (inst refused_cx)) ! hcf_recv ?f = Sent 0"
    and mem: "wmem (inst refused_cx) = Some (replicate 128 0)" "0 < length (replicate 128 (0 :: u8))"
    by (simp_all add: refused_cx_def yield_cx_def yield_instance_def)
  obtain r c' where run: "run_guest (poll_host_call yield_rt ?f) refused_cx = Ret (Inr r, c')"
    using st mem report
    by (simp add: poll_host_call_def run_guest_gbind fetch_from_host_def linker_host_response_len_def
        linker_host_response_def with_params_def get_host_response_def with_capacity_def gcall_unit_def load_bytes_def)
  from failed_host_call_is_success [OF st report mem run] run show ?thesis
    by auto
qed

end
