(* ===== verification/Async_Service.thy ===== *)
theory Async_Service
  imports Guest_Async
begin

text \<open>
  Asynchronous calls of a host from end to end: \<open>WapcHost::call_async\<close>, the future it returns and the
  tasks beside it (\<open>Async_Calls\<close>), for guests whose module, once initialised, settles its calls.
  \<open>Guest_Async\<close> says what one run of the guest does; here every schedule of the tasks is followed from the
  creation of the context to the answer.
\<close>

subsection \<open>A run of a guest as operations on the module state\<close>

lemma ms_steps_trans: "ms_steps b c \<Longrightarrow> ms_steps a b \<Longrightarrow> ms_steps a c"
  by (induction rule: ms_steps.induct) (auto intro: ms_steps.step)

lemma ms_steps_single: "ms_step a b \<Longrightarrow> ms_steps a b"
  by (rule ms_steps.step [OF ms_steps.refl])

lemma do_host_call_steps:
  assumes "do_host_call bd ns op v ms w = Ret (x, ms', w')"
  shows "ms_steps ms ms'"
proof -
  obtain r where ms': "ms' = snd (record_host_result (call_index ms) r
      (init_host_call (call_index ms) (snd (next_call_index ms))))"
    using assms by (auto simp: do_host_call_eq obind_eq_Ret_iff)
  show ?thesis
    unfolding ms'
    by (intro ms_steps.step [OF ms_steps.step [OF ms_steps_single [OF ms_step.fetch]
            ms_step.begin_host_call] ms_step.end_host_call])
qed

lemma do_async_host_call_steps:
  assumes "do_async_host_call bd ns op v rt ms = Ret (x, t, ms')"
  shows "ms_steps ms ms'"
proof -
  have ms': "ms' = init_host_call (call_index ms) (snd (next_call_index ms))"
    using assms by (auto simp: do_async_host_call_def next_call_index_def Let_def split: if_splits)
  show ?thesis
    unfolding ms' by (intro ms_steps.step [OF ms_steps_single [OF ms_step.fetch] ms_step.begin_host_call])
qed

interpretation as_steps: import_invariant "{}" "\<lambda>c :: ('g, 'w) cx. ms_steps ms (mstate c)" for ms
proof
  fix e ps r and c c' :: "('g, 'w) cx"
  assume before: "ms_steps ms (mstate c)" and run: "linker_fn e ps c = Ret (r, c')"
  have "ms_steps (mstate c) (mstate c')"
    using linker_fn_mstate [OF run]
    by (auto intro: ms_steps.refl do_host_call_steps do_async_host_call_steps
        ms_steps_single [OF ms_step.guest_replied] ms_steps_single [OF ms_step.guest_failed]
        ms_steps_single [OF ms_step.finished])
  then show "ms_steps ms (mstate c')"
    using before by (rule ms_steps_trans)
qed simp

lemma run_guest_steps: "run_guest p c = Ret (r, c') \<Longrightarrow> ms_steps (mstate c) (mstate c')"
  using as_steps.run_keeps [of p "mstate c" c r c'] by (simp add: ms_steps.refl)

lemma ms_steps_length: "ms_steps ms ms' \<Longrightarrow> length (oneshots ms) \<le> length (oneshots ms')"
  by (induction rule: ms_steps.induct) (auto dest: ms_step_length)

text \<open>A reply that is there stays, and the channel of a call exists.\<close>

definition replied :: "nat \<Rightarrow> wapc_error + bytes \<Rightarrow> 'w module_state \<Rightarrow> bool" where
  "replied rx r ms \<longleftrightarrow> rx < length (oneshots ms) \<and> call_async_reply (oneshots ms ! rx) = Some r"

lemma replied_steps: "ms_steps ms ms' \<Longrightarrow> replied rx r ms \<Longrightarrow> replied rx r ms'"
  using ms_steps_keeps [of ms ms' rx]
  by (auto simp: replied_def call_async_reply_def async_result_def split: oneshot.splits)

lemma wasmtime_call_async_steps:
  assumes "wasmtime_call_async wc i ol ml ms ev = Ret (r, wc', ms', ev')"
  shows "ms_steps ms ms'"
proof (cases "exported_async_call wc")
  case None
  then show ?thesis
    using assms by (simp add: wasmtime_call_async_def exported_async_call_def ms_steps.refl)
next
  case (Some f)
  then obtain x c where run: "run_guest (f i ol ml) \<lparr>inst = wc_inst wc, mstate = ms, env = ev\<rparr> = Ret (x, c)"
    using assms by (auto simp: wasmtime_call_async_def exported_async_call_def)
  then have steps: "ms_steps ms (mstate c)"
    using run_guest_steps [OF run] by simp
  show ?thesis
  proof (cases x)
    case (Inl t)
    then have "set_guest_call_complete i 0 [] (set_guest_error i t (mstate c)) = Ret ms'"
      using assms run Some by (auto simp: wasmtime_call_async_def exported_async_call_def Let_def)
    then show ?thesis
      using ms_steps.step [OF ms_steps.step [OF steps ms_step.guest_failed] ms_step.completed] by blast
  next
    case (Inr u)
    then show ?thesis
      using assms run Some steps by (auto simp: wasmtime_call_async_def exported_async_call_def Let_def)
  qed
qed

lemma call_async_channel:
  assumes "call_async_run (wasmtime_engine api) cc op payload ms ev = Ret (Inr rx, cc', ms', ev')"
  shows "rx < length (oneshots ms')"
proof -
  obtain i rx' ms1 where ni: "new_invocation (Invocation_new op payload) ms = (i, rx', ms1)"
    by (cases "new_invocation (Invocation_new op payload) ms")
  have len: "rx' < length (oneshots ms1)"
    using ni by (auto simp: new_invocation_def next_call_index_def oneshot_channel_def)
  obtain res where res: "wasmtime_call_async (wcc_context cc) i (i32_of_len (length op)) (i32_of_len (length payload)) ms1 ev
      = Ret res"
    using assms
    by (auto simp: call_async_run_def WapcCallContext_call_async_def Let_def ni obind_eq_Ret_iff)
  obtain r c' ms2 ev2 where res_eq: "res = (r, c', ms2, ev2)"
    by (cases res)
  have rx: "rx = rx'" and ms2: "ms2 = ms'"
    using assms res
    by (auto simp: call_async_run_def WapcCallContext_call_async_def Let_def ni res_eq map_err_def
        split: sum.splits if_splits)
  have "ms_steps ms1 ms'"
    using wasmtime_call_async_steps [OF res [unfolded res_eq]] by (simp add: ms2)
  then show ?thesis
    using len ms_steps_length [of ms1 ms'] by (simp add: rx)
qed

subsection \<open>Every schedule of a settled call\<close>

text \<open>A module whose context, once created, is initialised to the instance \<open>i\<close> and whose guest settles a
  call of \<open>op\<close> with \<open>r\<close> in its run, whatever the environment.\<close>

definition initialises ::
    "'g wasm_module \<Rightarrow> 'g winst \<Rightarrow> 'w module_state \<Rightarrow> bool" where
  "initialises m i ms \<longleftrightarrow> (\<forall>ev.
     wasmtime_context_init \<lparr>wc_module = m, wc_inst = m_instance m\<rparr> ms ev
       = Ret (Inr (), \<lparr>wc_module = m, wc_inst = i\<rparr>, ms, ev))"

definition settles ::
    "'g wasmtime_api \<Rightarrow> 'g wasm_module \<Rightarrow> 'g winst \<Rightarrow> string \<Rightarrow> bytes \<Rightarrow> 'w module_state
     \<Rightarrow> wapc_error + bytes \<Rightarrow> bool" where
  "settles api m i op payload ms r \<longleftrightarrow> (\<forall>k ev. \<exists>rx cc' ms' ev'.
     call_async_run (wasmtime_engine api) \<lparr>wcc_context = \<lparr>wc_module = m, wc_inst = i\<rparr>, wcc_id = k\<rparr> op payload ms ev
       = Ret (Inr rx, cc', ms', ev') \<and> call_async_reply (oneshots ms' ! rx) = Some r)"

definition on_course ::
    "'g wasm_module \<Rightarrow> 'g winst \<Rightarrow> 'w module_state \<Rightarrow> wapc_error + bytes \<Rightarrow> ('g, 'w) async_call \<Rightarrow> bool" where
  "on_course m i ms r s \<longleftrightarrow> (case ac_stage s of
     Unpolled \<Rightarrow> ac_context s = \<lparr>wc_module = m, wc_inst = m_instance m\<rparr> \<and> ac_state s = ms
       \<and> spawned (ac_env s) = [] \<and> ac_queue s = []
   | Yielded k \<Rightarrow> ac_context s = \<lparr>wc_module = m, wc_inst = i\<rparr> \<and> ac_state s = ms
       \<and> spawned (ac_env s) = [] \<and> ac_queue s = []
   | Awaiting rx \<Rightarrow> replied rx r (ac_state s)
   | Answered r' \<Rightarrow> r' = r
   | Abandoned \<Rightarrow> True)"

lemma finish_async_steps:
  assumes "finish_async_host_call t ms w = Ret (x, ms', w')"
  shows "ms_steps ms ms'"
proof -
  obtain i code where x: "x = (i, code)"
    by (cases x)
  obtain r where "record_host_result i r ms = (code, ms')"
    using assms unfolding x by (rule finish_async_Ret)
  then have "ms' = snd (record_host_result i r ms)"
    by simp
  then show ?thesis
    using ms_steps_single [OF ms_step.end_host_call] by metis
qed

lemma on_course_step:
  assumes "ac_step api op payload s e s'"
    and init: "initialises m i ms" and run: "settles api m i op payload ms r"
    and "on_course m i ms r s"
  shows "on_course m i ms r s'"
  using assms(1,4)
proof (induction rule: ac_step.induct)
  case (opened s x wc' ms' ev' s')
  then show ?case
    using init by (auto simp: on_course_def initialises_def)
next
  case (ran s k x cc' ms' ev' s')
  then have "call_async_run (wasmtime_engine api) \<lparr>wcc_context = \<lparr>wc_module = m, wc_inst = i\<rparr>, wcc_id = k\<rparr> op payload ms (ac_env s)
      = Ret (x, cc', ms', ev')"
    by (simp add: on_course_def)
  moreover obtain rx cc'' ms'' ev''
    where *: "call_async_run (wasmtime_engine api) \<lparr>wcc_context = \<lparr>wc_module = m, wc_inst = i\<rparr>, wcc_id = k\<rparr> op payload ms (ac_env s)
      = Ret (Inr rx, cc'', ms'', ev'')" and "call_async_reply (oneshots ms'' ! rx) = Some r"
    using run unfolding settles_def by meson
  ultimately have "x = Inr rx" "replied rx r ms'"
    using call_async_channel [OF *] by (simp_all add: replied_def)
  then show ?case
    using ran by (simp add: on_course_def)
next
  case (answered s rx reply)
  then show ?case
    by (simp add: on_course_def replied_def)
next
  case (completed k s j code ms' w')
  then show ?case
    using replied_steps [OF finish_async_steps]
    by (auto simp: on_course_def split: call_stage.splits)
next
  case (callback_panicked k s p w')
  then show ?case
    by (auto simp: on_course_def split: call_stage.splits)
next
  case (delivered s q0 q j code f x c')
  then have "ms_steps (ac_state s) (mstate c')"
    using run_guest_steps [of "f j code" "ac_cx s"] by (simp add: ac_cx_def)
  then show ?case
    using delivered replied_steps by (auto simp: on_course_def split: call_stage.splits)
qed (auto simp: on_course_def end_task_def context_dropped_def drop_context_def ac_send_def split: call_stage.splits)

lemma on_course_steps:
  assumes "ac_steps api op payload s tr s'"
    and "initialises m i ms" and "settles api m i op payload ms r" and "on_course m i ms r s"
  shows "on_course m i ms r s'"
  using assms(1,4) by (induction rule: ac_steps.induct) (auto intro: on_course_step [OF _ assms(2,3)])

text \<open>What is left of a call: its stages.\<close>

fun stages_left :: "call_stage \<Rightarrow> nat" where
  "stages_left Unpolled = 3"
| "stages_left (Yielded k) = 2"
| "stages_left (Awaiting rx) = 1"
| "stages_left (Answered r) = 0"
| "stages_left Abandoned = 0"

lemma on_course_progress:
  assumes init: "initialises m i ms" and run: "settles api m i op payload ms r"
    and course: "on_course m i ms r s" and undropped: "\<not> context_dropped s"
  shows "\<exists>s'. ac_step api op payload s Silent s' \<and> stages_left (ac_stage s') < stages_left (ac_stage s)
    \<and> ac_stage s' \<noteq> Abandoned"
proof (cases "ac_stage s")
  case Unpolled
  let ?ev = "(ac_env s)\<lparr>context_count := context_count (ac_env s) + 1\<rparr>"
  have "wasmtime_context_init (ac_context s) (ac_state s) ?ev = Ret (Inr (), \<lparr>wc_module = m, wc_inst = i\<rparr>, ms, ?ev)"
    using init course Unpolled by (simp add: on_course_def initialises_def)
  from ac_step.opened [OF Unpolled this HOL.refl, of api op payload] Unpolled show ?thesis
    by (intro exI conjI) auto
next
  case (Yielded k)
  then obtain rx cc' ms' ev' where "call_async_run (wasmtime_engine api) \<lparr>wcc_context = ac_context s, wcc_id = k\<rparr> op payload
      (ac_state s) (ac_env s) = Ret (Inr rx, cc', ms', ev')"
    using run course unfolding settles_def on_course_def by fastforce
  from ac_step.ran [OF Yielded this HOL.refl] Yielded show ?thesis
    by (intro exI conjI) auto
next
  case (Awaiting rx)
  then have "call_async_reply (oneshots (ac_state s) ! rx) = Some r"
    using course by (simp add: on_course_def replied_def)
  from ac_step.answered [OF Awaiting this, of api op payload] Awaiting show ?thesis
    by (intro exI conjI) auto
qed (use undropped in \<open>simp_all add: context_dropped_def\<close>)

lemma ac_steps_trans:
  "ac_steps api op payload s' tr' s'' \<Longrightarrow> ac_steps api op payload s tr s' \<Longrightarrow> ac_steps api op payload s (tr @ tr') s''"
  by (induction rule: ac_steps.induct) (auto simp: append_assoc [symmetric] simp del: append_assoc intro: ac_steps.step)

lemma on_course_answered:
  assumes init: "initialises m i ms" and run: "settles api m i op payload ms r"
    and "on_course m i ms r s" and "ac_stage s \<noteq> Abandoned"
  shows "\<exists>tr s'. ac_steps api op payload s tr s' \<and> ac_stage s' = Answered r"
  using assms(3,4)
proof (induction "stages_left (ac_stage s)" arbitrary: s rule: less_induct)
  case less
  show ?case
  proof (cases "context_dropped s")
    case True
    then have "ac_stage s = Answered r"
      using less.prems by (auto simp: context_dropped_def on_course_def)
    then show ?thesis
      using ac_steps.refl by blast
  next
    case False
    then obtain s1 where step: "ac_step api op payload s Silent s1" and "stages_left (ac_stage s1) < stages_left (ac_stage s)"
      and "ac_stage s1 \<noteq> Abandoned"
      using on_course_progress [OF init run less.prems(1)] by blast
    then obtain tr s' where "ac_steps api op payload s1 tr s'" "ac_stage s' = Answered r"
      using less.hyps on_course_step [OF step init run less.prems(1)] by blast
    then show ?thesis
      using ac_steps_trans [OF _ ac_steps.step [OF ac_steps.refl step]] by blast
  qed
qed

lemma on_course_answer: "on_course m i ms r s \<Longrightarrow> ac_stage s = Answered r' \<Longrightarrow> r' = r"
  by (simp add: on_course_def)

subsection \<open>Modules for asynchronous calls\<close>

text \<open>What the engine has to find in a module to run asynchronous calls with its export \<open>call\<close> and the
  initialisation \<open>init\<close>.\<close>

definition async_guest ::
    "'g wasmtime_api \<Rightarrow> (i32 \<Rightarrow> i32 \<Rightarrow> i32 \<Rightarrow> ('g, unit) guest_prog) \<Rightarrow> ('g, unit) guest_prog
     \<Rightarrow> 'g wasmtime_provider \<Rightarrow> bool" where
  "async_guest api call init p \<longleftrightarrow>
     new_store api (wp_wasi_params p) = Inr () \<and> first_taken (wp_linker p) = None
     \<and> list_all (import_linked (linked_with UNIV (wp_linker p))) (m_imports (wp_module p))
     \<and> m_start (wp_module p) = None
     \<and> get_func_2_0 (wp_module p) (guest_export_name HostResponseReady) \<noteq> None
     \<and> get_func_3_0 (wp_module p) (guest_export_name AsyncGuestCall) = Some call
     \<and> get_func_0_0 (wp_module p) ''_start'' = None
     \<and> get_func_0_0 (wp_module p) ''wapc_init'' = Some init"

abbreviation first_context :: "'g wasmtime_provider \<Rightarrow> 'g wasmtime_context" where
  "first_context p \<equiv> \<lparr>wc_module = wp_module p, wc_inst = m_instance (wp_module p)\<rparr>"

abbreviation first_state :: "('e, 'w) wapc_host \<Rightarrow> 'w module_state" where
  "first_state h \<equiv> ModuleState_new (host_sync_hostcall h) (host_async_hostcall h) (host_id h)"

lemma async_guest_context:
  assumes "async_guest api call init (engine h)" and "in_runtime ev"
  shows "WapcHost_call_async (wasmtime_engine api) h ev = Ret (Inr (first_context (engine h)), first_state h, ev)"
  using assms
  by (auto simp: async_guest_def WapcHost_call_async_def wasmtime_new_context_def WasmtimeCallContext_new_def
      add_to_linker_eq instantiate_def)

lemma async_guest_initialises:
  assumes "async_guest api call init p"
    and "\<And>ev :: 'w env. run_guest init \<lparr>inst = m_instance (wp_module p), mstate = ms, env = ev\<rparr>
        = Ret (Inr (), \<lparr>inst = i, mstate = ms, env = ev\<rparr>)"
  shows "initialises (wp_module p) i (ms :: 'w module_state)"
  using assms
  by (simp add: initialises_def async_guest_def wasmtime_context_init_def run_starters_eq REQUIRED_STARTS_def
      TINYGO_START_def WAPC_INIT_def)

text \<open>From the creation of the context to the answer.\<close>

lemma settled_call:
  fixes h :: "('g wasmtime_provider, 'w) wapc_host"
  assumes guest: "async_guest api call init (engine h)" and "in_runtime ev" and none: "spawned ev = []"
    and init: "initialises (wp_module (engine h)) i (first_state h)"
    and run: "settles api (wp_module (engine h)) i op payload (first_state h) r"
  shows "\<exists>wc ms. WapcHost_call_async (wasmtime_engine api) h ev = Ret (Inr wc, ms, ev)
    \<and> (\<forall>tr s. ac_steps api op payload (ac_start wc ms ev) tr s \<longrightarrow>
         (\<forall>r'. ac_stage s = Answered r' \<longrightarrow> r' = r)
         \<and> (ac_stage s \<noteq> Abandoned \<longrightarrow> (\<exists>tr' s'. ac_steps api op payload s tr' s' \<and> ac_stage s' = Answered r)))"
proof -
  have "on_course (wp_module (engine h)) i (first_state h) r (ac_start (first_context (engine h)) (first_state h) ev)"
    using none by (simp add: on_course_def ac_start_def)
  note course = on_course_steps [OF _ init run this]
  have "WapcHost_call_async (wasmtime_engine api) h ev = Ret (Inr (first_context (engine h)), first_state h, ev)"
    by (rule async_guest_context [OF guest \<open>in_runtime ev\<close>])
  then show ?thesis
    by (intro exI [of _ "first_context (engine h)"] exI [of _ "first_state h"] conjI allI impI)
       (use on_course_answer [OF course] on_course_answered [OF init run course] in simp_all)
qed

subsection \<open>Guests built with the SDK\<close>

lemma sdk_settles:
  fixes ms :: "'w module_state"
  assumes sdk: "async_guest api (async_guest_call rt turns) init p" and turns: "n < turns"
    and heap: "async_heap rt hv" "hv_ok hv i"
    and progress: "executor_progress rt" and answers: "dispatcher_answers TYPE('w) rt hv cost n d op payload r"
    and idle: "sdk_idle d i" and wf: "ms_wf ms"
    and fits: "async_call_fits hv cost n op payload r i"
    and valid: "\<And>e. r = Inl e \<Longrightarrow> rust_str e" and op: "rust_str op"
  shows "settles api (wp_module p) i op payload ms (wrap_call_error (map_err GuestCallFailure r))"
  unfolding settles_def
proof (intro allI)
  fix k and ev :: "'w env"
  let ?cc = "\<lparr>wcc_context = \<lparr>wc_module = wp_module p, wc_inst = i\<rparr>, wcc_id = k\<rparr>"
  have "exported_async_call (wcc_context ?cc) = Some (async_guest_call rt turns)"
    using sdk by (simp add: async_guest_def exported_async_call_def)
  from async_sdk_call_reply [OF this turns, of hv cost d op payload r ms api ev] heap progress answers idle wf fits valid op
  show "\<exists>rx cc' ms' ev'. call_async_run (wasmtime_engine api) ?cc op payload ms ev = Ret (Inr rx, cc', ms', ev')
      \<and> call_async_reply (oneshots ms' ! rx) = Some (wrap_call_error (map_err GuestCallFailure r))"
    by simp
qed

text \<open>C4: an asynchronous call of a host whose guest is built with the SDK, from the creation of its
  context under every schedule of the tasks: an answer is never anything but what the guest's
  dispatcher answers to the operation and the payload, and until its future is dropped the call
  can always go on to that answer. It needs a Tokio runtime, an allocator that keeps its contract,
  room for the call, an executor that polls a task when there is one, and a future of the dispatcher
  that ends after at most \<open>n\<close> polls.\<close>

theorem host_call_async_implements:
  fixes h :: "(('t, 'u) async_statics sdk wasmtime_provider, 'w) wapc_host"
  assumes sdk: "async_guest api (async_guest_call rt turns) init (engine h)" and turns: "n < turns"
    and runtime: "in_runtime ev" "spawned ev = []"
    and init: "\<And>ev :: 'w env. run_guest init \<lparr>inst = m_instance (wp_module (engine h)), mstate = first_state h, env = ev\<rparr>
        = Ret (Inr (), \<lparr>inst = i, mstate = first_state h, env = ev\<rparr>)"
    and heap: "async_heap rt hv" "hv_ok hv i" and progress: "executor_progress rt"
    and answers: "dispatcher_answers TYPE('w) rt hv cost n d op payload r" and idle: "sdk_idle d i"
    and fits: "async_call_fits hv cost n op payload r i"
    and valid: "\<And>e. r = Inl e \<Longrightarrow> rust_str e" and op: "rust_str op"
  shows "\<exists>wc ms. WapcHost_call_async (wasmtime_engine api) h ev = Ret (Inr wc, ms, ev)
    \<and> (\<forall>tr s. ac_steps api op payload (ac_start wc ms ev) tr s \<longrightarrow>
         (\<forall>r'. ac_stage s = Answered r' \<longrightarrow> r' = wrap_call_error (map_err GuestCallFailure r))
         \<and> (ac_stage s \<noteq> Abandoned \<longrightarrow> (\<exists>tr' s'. ac_steps api op payload s tr' s'
              \<and> ac_stage s' = Answered (wrap_call_error (map_err GuestCallFailure r)))))"
  by (rule settled_call [OF sdk runtime async_guest_initialises [OF sdk init]
        sdk_settles [OF sdk turns heap progress answers idle ms_wf_new fits valid op]])

text \<open>The guest of the witnesses of \<open>Guest_Async\<close>, with a dispatcher set when it is initialised.\<close>

definition late_instance :: "(yielding, nat) async_inst" where
  "late_instance = set_statics (\<lambda>st. st\<lparr>dispatcher := None\<rparr>) yield_instance"

definition late_module :: "(yielding, nat) async_statics sdk wasm_module" where
  "late_module =
     \<lparr>m_imports = [((''wapc'', ''__guest_request''), host_export_type GuestRequest)],
      m_exports =
        [''__async_guest_call'' \<mapsto> Export_3_0 (async_guest_call yield_rt 3),
         ''wapc_init'' \<mapsto> Export_0_0 (register_dispatcher 0),
         ''__host_call_response_ready'' \<mapsto> Export_2_0 (host_call_response_ready yield_rt 3)],
      m_instance = late_instance, m_start = None\<rparr>"

definition late_api :: "(yielding, nat) async_statics sdk wasmtime_api" where
  "late_api =
     \<lparr>module_new = (\<lambda>_. Inr late_module), init_wasi = (\<lambda>_. Inr ()), wasi_linker = Map.empty,
      msg_defined_twice = (\<lambda>_. ''import defined twice''), msg_bad_import = (\<lambda>_. ''unknown import'')\<rparr>"

definition late_provider :: "(yielding, nat) async_statics sdk wasmtime_provider" where
  "late_provider = \<lparr>wp_module = late_module, wp_linker = Map.empty, wp_wasi_params = None\<rparr>"

definition late_host :: "((yielding, nat) async_statics sdk wasmtime_provider, nat) wapc_host" where
  "late_host = \<lparr>engine = late_provider, host_async_hostcall = None, host_sync_hostcall = None, host_id = 1\<rparr>"

lemma late_guest: "async_guest late_api (async_guest_call yield_rt 3) (register_dispatcher 0) late_provider"
proof -
  have "import_linked (linked_with UNIV Map.empty) (wapc_key GuestRequest, host_export_type GuestRequest)"
    by (simp only: import_linked_def fst_conv snd_conv linked_with_key) simp
  then show ?thesis
    by (simp add: async_guest_def new_store_def late_api_def late_provider_def late_module_def
        get_func_2_0_def get_func_3_0_def get_func_0_0_def guest_name_defs HOST_NAMESPACE_def GUEST_REQUEST_FN_def)
qed

lemma late_ready:
  "run_guest (register_dispatcher 0) \<lparr>inst = m_instance (wp_module late_provider), mstate = ms, env = ev\<rparr>
     = Ret (Inr (), \<lparr>inst = yield_instance, mstate = ms, env = ev\<rparr>)"
  by (simp add: register_dispatcher_def late_provider_def late_module_def late_instance_def set_statics_def
      yield_instance_def)

lemma late_contract:
  "hv_ok yield_view yield_instance" "sdk_idle 0 yield_instance"
  by (simp_all add: yield_instance_def bump_heap_def sdk_idle_def)

lemma late_fits:
  assumes "length op + 2 * length payload \<le> 120" and "op \<noteq> ''refuse''"
  shows "async_call_fits yield_view 0 2 op payload (yield_answer op payload) yield_instance"
  using assms
  by (simp add: async_call_fits_def yield_answer_def answer_bytes_def bump_heap_def yield_instance_def)

theorem host_call_async_implements_witness:
  "\<exists>wc ms. WapcHost_call_async (wasmtime_engine late_api) late_host sample_env = Ret (Inr wc, ms, sample_env)
    \<and> (\<exists>tr s. ac_steps late_api ''echo'' [7] (ac_start wc ms sample_env) tr s \<and> ac_stage s = Answered (Inr [7]))"
proof -
  have engine: "engine late_host = late_provider"
    by (simp add: late_host_def)
  have runtime: "in_runtime sample_env" "spawned sample_env = []"
    by (simp_all add: sample_env_def)
  have op: "rust_str ''echo''"
    by (simp add: rust_str_def as_bytes_def u8_of_char_def utf8_width_def in_range_def)
  have fits: "async_call_fits yield_view 0 2 ''echo'' [7] (yield_answer ''echo'' [7]) yield_instance"
    by (rule late_fits) simp_all
  have valid: "rust_str e" if "yield_answer ''echo'' [7] = Inl e" for e
    using that by (simp add: yield_answer_def)
  have answer: "wrap_call_error (map_err GuestCallFailure (yield_answer ''echo'' [7])) = Inr [7]"
    by (simp add: yield_answer_def wrap_call_error_def)
  obtain wc ms where new: "WapcHost_call_async (wasmtime_engine late_api) late_host sample_env = Ret (Inr wc, ms, sample_env)"
    and all: "\<And>tr s. ac_steps late_api ''echo'' [7] (ac_start wc ms sample_env) tr s \<Longrightarrow> ac_stage s \<noteq> Abandoned \<Longrightarrow>
      \<exists>tr' s'. ac_steps late_api ''echo'' [7] s tr' s' \<and> ac_stage s' = Answered (Inr [7])"
    using host_call_async_implements [where h = late_host and api = late_api and init = "register_dispatcher 0" and n = 2,
        unfolded engine, OF late_guest _ runtime late_ready yield_heap late_contract(1) yield_progress
        yield_dispatcher late_contract(2) fits valid op, unfolded answer]
    by auto
  have "ac_stage (ac_start wc ms sample_env) \<noteq> Abandoned"
    by (simp add: ac_start_def)
  with all [OF ac_steps.refl] new show ?thesis
    by blast
qed

subsection \<open>Calls that trap\<close>

abbreviation trap_reply :: "string \<Rightarrow> wapc_error + bytes" where
  "trap_reply t \<equiv> Inl (GuestCallFailure (''Guest call failure: '' @ t))"

lemma trap_settles:
  fixes ms :: "'w module_state"
  assumes f: "get_func_3_0 m (guest_export_name AsyncGuestCall) = Some f" and wf: "ms_wf ms"
    and traps: "\<And>j rx ms1 (ev :: 'w env). new_invocation (Invocation_new op payload) ms = (j, rx, ms1) \<Longrightarrow>
      \<exists>c. guest_run f i j op payload ms1 ev = Ret (Inl t, c) \<and> mstate c = ms1"
  shows "settles api m i op payload ms (trap_reply t)"
  unfolding settles_def
proof (intro allI)
  fix k and ev :: "'w env"
  obtain j rx ms1 where ni: "new_invocation (Invocation_new op payload) ms = (j, rx, ms1)"
    by (cases "new_invocation (Invocation_new op payload) ms")
  obtain c where run: "guest_run f i j op payload ms1 ev = Ret (Inl t, c)" and ms1: "mstate c = ms1"
    using traps [OF ni] by blast
  have "ms_wf ms1" "holds_sender ms1 j rx"
    using ms_wf_new_invocation [OF wf ni] ni
    by (auto simp: new_invocation_def next_call_index_def oneshot_channel_def holds_sender_def)
  then obtain ms' where complete: "set_guest_call_complete j 0 [] (set_guest_error j t ms1) = Ret ms'"
    and reply: "async_result (oneshots ms' ! rx) = Some (Inl (GuestCallFailure t))"
    using complete_with_error by blast
  have "call_async_reply (oneshots ms' ! rx) = Some (trap_reply t)"
    using reply by (simp add: call_async_reply_def wrap_call_error_def map_err_def)
  then show "\<exists>rx cc' ms' ev'. call_async_run (wasmtime_engine api)
        \<lparr>wcc_context = \<lparr>wc_module = m, wc_inst = i\<rparr>, wcc_id = k\<rparr> op payload ms ev = Ret (Inr rx, cc', ms', ev')
      \<and> call_async_reply (oneshots ms' ! rx) = Some (trap_reply t)"
    using run complete f
    by (simp add: call_async_run_def WapcCallContext_call_async_def Let_def ni wasmtime_call_async_def
        guest_run_def ms1 del: guest_export_name.simps)
qed

lemma fetch_in_call:
  fixes ev :: "'w env"
  assumes heap: "async_heap rt hv" "hv_ok hv i"
    and ni: "new_invocation (Invocation_new op payload) ms = (j, rx, ms1)"
    and small: "length op < 2 ^ 31" "length payload < 2 ^ 31"
    and room: "hv_cost hv (length payload) + hv_cost hv (length op) \<le> hv_room hv i"
  shows "\<exists>i1. run_guest (fetch_request (sync_rt rt) j (i32_of_len (length op)) (i32_of_len (length payload)))
        \<lparr>inst = i, mstate = ms1, env = ev\<rparr> = Ret (Inr (payload, as_bytes op), \<lparr>inst = i1, mstate = ms1, env = ev\<rparr>)
    \<and> async_eq i1 i"
proof -
  let ?c = "\<lparr>inst = i, mstate = ms1, env = ev\<rparr>"
  have req: "get_guest_request j (mstate ?c) = Some (Invocation_new op payload)"
    using ni by (auto simp: new_invocation_def next_call_index_def oneshot_channel_def get_guest_request_def)
  have hc: "heap_contract (sync_rt rt) hv"
    using heap by (simp add: async_heap_def)
  obtain i1 where fetch: "run_guest (fetch_request (sync_rt rt) j (i32_of_len (length op)) (i32_of_len (length payload))) ?c
      = Ret (Inr (payload, as_bytes op), ?c\<lparr>inst := i1\<rparr>)"
    using run_fetch_request [OF hc _ req small] heap(2) room by auto
  then show ?thesis
    using stays_asyncD [OF stays_fetch_request [OF heap(1)] fetch] by auto
qed

text \<open>A guest of the SDK that sets no dispatcher, as one that only registers functions for synchronous
  calls does: its \<open>__async_guest_call\<close> unwraps the missing dispatcher.\<close>

lemma no_dispatcher_settles:
  fixes ms :: "'w module_state"
  assumes sdk: "async_guest api (async_guest_call rt turns) init p"
    and heap: "async_heap rt hv" "hv_ok hv i" and none: "dispatcher (statics i) = None" and wf: "ms_wf ms"
    and small: "length op < 2 ^ 31" "length payload < 2 ^ 31"
    and room: "hv_cost hv (length payload) + hv_cost hv (length op) \<le> hv_room hv i"
  shows "settles api (wp_module p) i op payload ms (trap_reply (trap_unwrap rt))"
proof (rule trap_settles [OF _ wf])
  show "get_func_3_0 (wp_module p) (guest_export_name AsyncGuestCall) = Some (async_guest_call rt turns)"
    using sdk by (simp add: async_guest_def)
next
  fix j rx ms1 and ev :: "'w env"
  assume "new_invocation (Invocation_new op payload) ms = (j, rx, ms1)"
  from fetch_in_call [OF heap this small room] obtain i1
    where fetch: "run_guest (fetch_request (sync_rt rt) j (i32_of_len (length op)) (i32_of_len (length payload)))
        \<lparr>inst = i, mstate = ms1, env = ev\<rparr> = Ret (Inr (payload, as_bytes op), \<lparr>inst = i1, mstate = ms1, env = ev\<rparr>)"
      and same: "async_eq i1 i"
    by blast
  show "\<exists>c. guest_run (async_guest_call rt turns) i j op payload ms1 ev = Ret (Inl (trap_unwrap rt), c) \<and> mstate c = ms1"
    using fetch none same by (simp add: guest_run_def async_guest_call_def run_guest_gbind async_eq_def)
qed

text \<open>A guest whose dispatcher panics at an operation, as a generated one does at an operation it does not
  know: the task of the call traps in its first poll.\<close>

lemma dispatch_panic_settles:
  fixes ms :: "'w module_state"
  assumes sdk: "async_guest api (async_guest_call rt turns) init p" and turns: "0 < turns"
    and heap: "async_heap rt hv" "hv_ok hv i" and progress: "executor_progress rt"
    and idle: "sdk_idle d i" and wf: "ms_wf ms"
    and small: "length op < 2 ^ 31" "length payload < 2 ^ 31"
    and room: "hv_cost hv (length payload) + hv_cost hv (length op) \<le> hv_room hv i"
    and panics: "\<And>j (c :: (('t, 'u) async_statics sdk, 'w) cx).
      run_guest (poll_call_task rt (Call_Start d j (as_bytes op) payload)) c = Ret (Inl t, c)"
  shows "settles api (wp_module p) i op payload ms (trap_reply t)"
proof (rule trap_settles [OF _ wf])
  show "get_func_3_0 (wp_module p) (guest_export_name AsyncGuestCall) = Some (async_guest_call rt turns)"
    using sdk by (simp add: async_guest_def)
next
  fix j rx ms1 and ev :: "'w env"
  assume "new_invocation (Invocation_new op payload) ms = (j, rx, ms1)"
  from fetch_in_call [OF heap this small room] obtain i1
    where fetch: "run_guest (fetch_request (sync_rt rt) j (i32_of_len (length op)) (i32_of_len (length payload)))
        \<lparr>inst = i, mstate = ms1, env = ev\<rparr> = Ret (Inr (payload, as_bytes op), \<lparr>inst = i1, mstate = ms1, env = ev\<rparr>)"
      and same: "async_eq i1 i"
    by blast
  let ?c = "\<lparr>inst = i1, mstate = ms1, env = ev\<rparr>"
  let ?start = "Call_Start d j (as_bytes op) payload"
  let ?i2 = "set_statics (\<lambda>st. st\<lparr>tasks := tasks st @ [?start]\<rparr>) i1"
  have statics: "tasks (statics ?i2) = [?start]" "async_host_calls (statics ?i2) = []" "\<not> host_calls_locked (statics ?i2)"
    using same idle by (simp_all add: async_eq_def sdk_idle_def)
  then have "rt_pick rt ?i2 = Some 0"
    using progress [unfolded executor_progress_def, rule_format, of ?i2] by simp
  then have turn: "run_guest (executor_turn rt) (?c\<lparr>inst := ?i2\<rparr>) = Ret (Inl t, ?c\<lparr>inst := ?i2\<rparr>)"
    using statics panics [of j "?c\<lparr>inst := ?i2\<rparr>"] by (simp add: executor_turn_def run_guest_gbind del: poll_call_task.simps)
  obtain turns' where "turns = Suc turns'"
    using turns gr0_implies_Suc by blast
  then have exhaust: "run_guest (exhaust_tasks rt turns) (?c\<lparr>inst := ?i2\<rparr>) = Ret (Inl t, ?c\<lparr>inst := ?i2\<rparr>)"
    using turn statics more_tasks_iff [of 1 0] by (simp add: exhaust_tasks_def run_guest_gbind run_exhaust_condition)
  have "dispatcher (statics i1) = Some d"
    using same idle by (simp add: async_eq_def sdk_idle_def)
  then show "\<exists>c. guest_run (async_guest_call rt turns) i j op payload ms1 ev = Ret (Inl t, c) \<and> mstate c = ms1"
    using fetch exhaust by (simp add: guest_run_def async_guest_call_def run_guest_gbind spawn_task_def)
qed

end
