(* ===== verification/Wapc_Codec.thy ===== *)
theory Wapc_Codec
  imports Wapc_Errors
begin

text \<open>
  The MessagePack codec (\<open>crates/wapc-codec/src/messagepack.rs\<close>, \<open>errors.rs\<close>). The libraries \<open>rmp-serde\<close>
  and \<open>serde\<close> do the work; for a type \<open>'a\<close> they are the record \<open>rmp_serde\<close>, a parameter, with structs
  written as maps. An error of theirs is what it displays.
\<close>

record 'a rmp_serde =
  rmp_serialize :: "'a \<Rightarrow> dyn_error + bytes"
  rmp_deserialize :: "bytes \<Rightarrow> dyn_error + 'a"

datatype codec_error =
    MessagePackSerialization dyn_error
  | MessagePackDeserialization dyn_error

fun codec_error_to_string :: "codec_error \<Rightarrow> string" where
  "codec_error_to_string (MessagePackSerialization e) = e"
| "codec_error_to_string (MessagePackDeserialization e) = e"

definition serialize :: "'a rmp_serde \<Rightarrow> 'a \<Rightarrow> codec_error + bytes" where
  "serialize lib item = map_err MessagePackSerialization (rmp_serialize lib item)"

definition deserialize :: "'a rmp_serde \<Rightarrow> bytes \<Rightarrow> codec_error + 'a" where
  "deserialize lib buf = map_err MessagePackDeserialization (rmp_deserialize lib buf)"

text \<open>What \<open>serde\<close> promises of a format that describes itself: reading gives back what was written.\<close>

definition lossless :: "'a rmp_serde \<Rightarrow> bool" where
  "lossless lib \<longleftrightarrow> (\<forall>x bs. rmp_serialize lib x = Inr bs \<longrightarrow> rmp_deserialize lib bs = Inr x)"

lemma deserialize_serialize: "lossless lib \<Longrightarrow> serialize lib x = Inr bs \<Longrightarrow> deserialize lib bs = Inr x"
  by (auto simp: lossless_def serialize_def deserialize_def)

end
