(* ===== verification/Generated_Guest.thy ===== *)
theory Generated_Guest
  imports Wapc_Codec Guest_Async
begin

text \<open>
  A guest with generated handlers (\<open>wasm/crates/wapc-guest-test/src\<close>): the wrappers that decode the
  arguments of an operation and encode its result and the dispatcher (\<open>custom_gen.rs\<close>; \<open>generated.rs\<close>,
  which the generator writes, is its synchronous half word for word), and the functions the test guest
  registers (\<open>lib.rs\<close>).

  \<^item> Where the statics \<open>ECHO\<close> and \<open>ASYNC_ECHO\<close> lie in the guest's state is a pair of a read and a
    write function, so that the same wrappers serve a guest with and one without the asynchronous
    half of the SDK. Their locks are free whenever the code takes them: a guest has one thread, and no
    guard outlives its statement.
  \<^item> A function pointer is a number; \<open>ee_fns\<close> and \<open>ea_start\<close> say what the function does. The futures of
    asynchronous functions have the type \<open>'f\<close>; \<open>ea_poll\<close> polls them.
\<close>

subsection \<open>Synchronous handlers\<close>

record 'v echo_env =
  ee_codec :: "string rmp_serde"
  ee_fns :: "nat \<Rightarrow> string \<Rightarrow> ('v, dyn_error + string) sdk_prog"
  ee_echo :: "'v \<Rightarrow> nat option"
  ee_set_echo :: "nat option \<Rightarrow> 'v \<Rightarrow> 'v"
  ee_trap_unwrap :: string

text \<open>The end of both wrappers: \<open>let result = lock(input)?; Ok(messagepack::serialize(result)?)\<close>.\<close>

definition encode_result :: "string rmp_serde \<Rightarrow> dyn_error + string \<Rightarrow> host_result" where
  "encode_result lib r =
     (case r of Inl e \<Rightarrow> Inl e | Inr result \<Rightarrow> map_err codec_error_to_string (serialize lib result))"

definition echo_wrapper :: "'v echo_env \<Rightarrow> bytes \<Rightarrow> ('v, host_result) sdk_prog" where
  "echo_wrapper ee input_payload =
     (case deserialize (ee_codec ee) input_payload of
        Inl e \<Rightarrow> GRet (Inl (codec_error_to_string e))
      | Inr input \<Rightarrow> GGet (\<lambda>i.
          case ee_echo ee (user (wstate i)) of
            None \<Rightarrow> GTrap (ee_trap_unwrap ee)
          | Some f \<Rightarrow> gbind (ee_fns ee f input) (\<lambda>r. GRet (encode_result (ee_codec ee) r))))"

definition set_echo :: "'v echo_env \<Rightarrow> nat \<Rightarrow> 'v sdk winst \<Rightarrow> 'v sdk winst" where
  "set_echo ee f i = i\<lparr>wstate := (wstate i)\<lparr>user := ee_set_echo ee (Some f) (user (wstate i))\<rparr>\<rparr>"

text \<open>\<open>Handlers::register_echo\<close>; \<open>w\<close> is the pointer of \<open>echo_wrapper\<close>.\<close>

definition register_echo :: "'v guest_rt \<Rightarrow> 'v echo_env \<Rightarrow> nat \<Rightarrow> nat \<Rightarrow> ('v, unit) sdk_prog" where
  "register_echo rt ee w f = gbind (gmodify (set_echo ee f)) (\<lambda>_. register_function rt ''echo'' w)"

text \<open>The client side: \<open>Host\<close> is a named binding of the host, \<open>host\<close> and \<open>default\<close> make one.\<close>

record host_client =
  hc_binding :: string

definition host_named :: "string \<Rightarrow> host_client" where
  "host_named b = \<lparr>hc_binding = b\<rparr>"

definition host_default :: host_client where
  "host_default = \<lparr>hc_binding = ''default''\<rparr>"

text \<open>\<open>Host::echo\<close>: \<open>binding\<close>, \<open>ns\<close> and \<open>op\<close> are the slices of the host's binding and
  of the two literals.\<close>

definition Host_echo ::
    "'v guest_rt \<Rightarrow> string rmp_serde \<Rightarrow> string \<Rightarrow> slice \<Rightarrow> slice \<Rightarrow> slice \<Rightarrow> string \<Rightarrow> ('v, dyn_error + string) sdk_prog" where
  "Host_echo rt lib trap_unwrap_err binding ns op input =
     (case serialize lib input of
        Inl e \<Rightarrow> GRet (Inl (codec_error_to_string e))
      | Inr buf \<Rightarrow>
          gbind (place rt buf) (\<lambda>p.
          gbind (host_call rt binding ns op (p, buf)) (\<lambda>r.
            case r of
              Inl e \<Rightarrow> GRet (Inl (error_kind_to_string e))
            | Inr v \<Rightarrow>
                (case deserialize lib v of
                   Inl e \<Rightarrow> GTrap trap_unwrap_err
                 | Inr resp \<Rightarrow> GRet (Inr resp)))))"

text \<open>What a caller of \<open>echo\<close> gets when the registered function computes \<open>g\<close>, in terms of the library.\<close>

definition echo_outcome :: "string rmp_serde \<Rightarrow> (string \<Rightarrow> dyn_error + string) \<Rightarrow> bytes \<Rightarrow> host_result" where
  "echo_outcome lib g payload =
     (case rmp_deserialize lib payload of
        Inl e \<Rightarrow> Inl e
      | Inr input \<Rightarrow> (case g input of Inl e \<Rightarrow> Inl e | Inr result \<Rightarrow> rmp_serialize lib result))"

lemma echo_outcome_eq:
  "echo_outcome lib g payload =
     (case deserialize lib payload of
        Inl e \<Rightarrow> Inl (codec_error_to_string e)
      | Inr input \<Rightarrow> encode_result lib (g input))"
proof -
  have "map_err codec_error_to_string (map_err MessagePackSerialization r) = r" for r :: "dyn_error + bytes"
    by (cases r) simp_all
  then show ?thesis
    by (simp add: echo_outcome_def deserialize_def encode_result_def serialize_def map_err_def split: sum.splits)
qed

subsection \<open>Synchronous calls end to end\<close>

text \<open>The function registered under \<open>f\<close> computes \<open>g\<close> and leaves the SDK and the heap alone.\<close>

definition fn_implements ::
    "'w itself \<Rightarrow> 'v echo_env \<Rightarrow> 'v heap_view \<Rightarrow> nat \<Rightarrow> nat \<Rightarrow> (string \<Rightarrow> dyn_error + string) \<Rightarrow> bool" where
  "fn_implements w ee hv cost f g \<longleftrightarrow>
     (\<forall>(c :: ('v sdk, 'w) cx) input.
        hv_ok hv (inst c) \<and> registry_locked (wstate (inst c)) \<and> cost \<le> hv_room hv (inst c) \<longrightarrow>
        (\<exists>c'. run_guest (ee_fns ee f input) c = Ret (Inr (g input), c') \<and> handler_keeps hv cost c c'))"

lemma handler_keeps_refl: "hv_ok hv (inst c) \<Longrightarrow> registry_locked (wstate (inst c)) \<Longrightarrow> handler_keeps hv cost c c"
  by (simp add: handler_keeps_def)

lemma echo_wrapper_implements:
  fixes ee :: "'v echo_env"
  assumes fn: "fn_implements TYPE('w) ee hv cost f g" and wrapper: "rt_handlers rt w = echo_wrapper ee"
    and static: "\<And>i. hv_ok hv i \<Longrightarrow> ee_echo ee (user (wstate i)) = Some f"
  shows "handler_implements TYPE('w) rt hv (\<lambda>_. cost) w (echo_outcome (ee_codec ee) g)"
  unfolding handler_implements_def
proof (intro allI impI, elim conjE)
  fix c :: "('v sdk, 'w) cx" and payload
  assume ok: "hv_ok hv (inst c)" "registry_locked (wstate (inst c))" and room: "cost \<le> hv_room hv (inst c)"
  show "\<exists>c'. run_guest (rt_handlers rt w payload) c = Ret (Inr (echo_outcome (ee_codec ee) g payload), c')
      \<and> handler_keeps hv cost c c'"
  proof (cases "deserialize (ee_codec ee) payload")
    case (Inl e)
    then show ?thesis
      using handler_keeps_refl [OF ok] by (simp add: wrapper echo_wrapper_def echo_outcome_eq)
  next
    case (Inr input)
    obtain c' where "run_guest (ee_fns ee f input) c = Ret (Inr (g input), c')" "handler_keeps hv cost c c'"
      using fn ok room unfolding fn_implements_def by blast
    then show ?thesis
      using Inr static [OF ok(1)] by (simp add: wrapper echo_wrapper_def echo_outcome_eq run_guest_gbind)
  qed
qed

definition echo_ready :: "'v echo_env \<Rightarrow> nat \<Rightarrow> nat \<Rightarrow> 'v sdk winst \<Rightarrow> 'v sdk winst" where
  "echo_ready ee w f i = i\<lparr>wstate := (wstate i)\<lparr>user := ee_set_echo ee (Some f) (user (wstate i)),
     registry := (registry (wstate i))(as_bytes ''echo'' \<mapsto> w), registry_locked := False\<rparr>\<rparr>"

lemma run_register_echo:
  assumes "\<not> registry_locked (wstate (inst c))"
  shows "run_guest (register_echo rt ee w f) c = Ret (Inr (), c\<lparr>inst := echo_ready ee w f (inst c)\<rparr>)"
  using assms
  by (simp add: register_echo_def run_guest_gbind gmodify_def run_register_function set_echo_def echo_ready_def)

text \<open>C6: a host whose guest registers a function with \<open>register_echo\<close> answers a call of \<open>echo\<close> with the
  encoded value of that function at the decoded payload; a payload that does not decode, an error of
  the function and a value that cannot be encoded become guest-call failures with their texts. With
  a codec that reads what it has written, a caller who encodes \<open>x\<close> gets the encoding of the
  function's value at \<open>x\<close>.\<close>

theorem generated_echo_rpc:
  fixes h :: "('v sdk wasmtime_provider, 'w) wapc_host"
  assumes sdk: "sdk_guest api rt (register_echo rt ee w f) (engine h)" and "in_runtime ev"
    and fresh: "registry (wstate (m_instance (wp_module (engine h)))) = Map.empty"
      "\<not> registry_locked (wstate (m_instance (wp_module (engine h))))"
    and heap: "heap_contract rt hv" "hv_ok hv (echo_ready ee w f (m_instance (wp_module (engine h))))"
    and wrapper: "rt_handlers rt w = echo_wrapper ee"
    and static: "\<And>i. hv_ok hv i \<Longrightarrow> ee_echo ee (user (wstate i)) = Some f"
    and fn: "fn_implements TYPE('w) ee hv cost f g"
    and fits: "call_fits hv (\<lambda>_. cost) ''echo'' payload (echo_outcome (ee_codec ee) g payload)
                 (echo_ready ee w f (m_instance (wp_module (engine h))))"
    and valid: "\<And>e. echo_outcome (ee_codec ee) g payload = Inl e \<Longrightarrow> rust_str e"
  shows "\<exists>ev' reply. WapcHost_call (wasmtime_engine api) h ''echo'' payload ev = Ret (reply, ev')
    \<and> reply = (case echo_outcome (ee_codec ee) g payload of
         Inl e \<Rightarrow> Inl (GuestCallFailure (''Guest call failure: '' @ e)) | Inr v \<Rightarrow> Inr v)
    \<and> (\<forall>x y bs. lossless (ee_codec ee) \<and> serialize (ee_codec ee) x = Inr payload \<and> g x = Inr y
         \<and> serialize (ee_codec ee) y = Inr bs \<longrightarrow> reply = Inr bs)"
proof -
  let ?i = "echo_ready ee w f (m_instance (wp_module (engine h)))"
  let ?R = "[as_bytes ''echo'' \<mapsto> echo_outcome (ee_codec ee) g]"
  have init: "run_guest (register_echo rt ee w f) \<lparr>inst = m_instance (wp_module (engine h)), mstate = ms, env = ev\<rparr>
      = Ret (Inr (), \<lparr>inst = ?i, mstate = ms, env = ev\<rparr>)" for ms and ev :: "'w env"
    using fresh(2) by (simp add: run_register_echo)
  have reg: "registry_implements TYPE('w) rt hv (\<lambda>_. cost) (registry (wstate ?i)) ?R"
    using echo_wrapper_implements [OF fn wrapper static] fresh(1)
    by (simp add: registry_implements_def echo_ready_def)
  have outcome: "sdk_outcome ?R ''echo'' payload = echo_outcome (ee_codec ee) g payload"
    by (simp add: sdk_outcome_def)
  have unlocked: "\<not> registry_locked (wstate ?i)"
    by (simp add: echo_ready_def)
  obtain ev' where call: "WapcHost_call (wasmtime_engine api) h ''echo'' payload ev
      = Ret (wrap_call_error (map_err GuestCallFailure (echo_outcome (ee_codec ee) g payload)), ev')"
    using sdk_guest_reply [OF sdk \<open>in_runtime ev\<close> init heap reg unlocked, of "''echo''" payload] fits valid
    by (auto simp: outcome)
  have "echo_outcome (ee_codec ee) g payload = Inr bs"
    if "lossless (ee_codec ee)" "serialize (ee_codec ee) x = Inr payload" "g x = Inr y" "serialize (ee_codec ee) y = Inr bs"
    for x y bs
    using deserialize_serialize [OF that(1,2)] that(3,4) by (simp add: echo_outcome_eq encode_result_def)
  with call show ?thesis
    by (auto simp: wrap_call_error_def split: sum.splits)
qed

subsection \<open>The dispatcher\<close>

text \<open>\<open>dispatch\<close> and \<open>echo_async_wrapper\<close> are asynchronous blocks: nothing of them runs before the first
  poll. Then \<open>dispatch\<close> selects the operation and the wrapper decodes, calls the registered function
  and awaits its future.\<close>

datatype 'f echo_future = Dispatching sdk_invocation | Echoing 'f

record ('f, 'u) echo_async =
  ea_codec :: "string rmp_serde"
  ea_start :: "nat \<Rightarrow> string \<Rightarrow> ('f echo_future, 'u, 'f) async_prog"
  ea_poll :: "'f \<Rightarrow> ('f echo_future, 'u, 'f + (dyn_error + string)) async_prog"
  ea_echo :: "('f echo_future, 'u) async_statics \<Rightarrow> nat option"
  ea_set_echo :: "nat option \<Rightarrow> ('f echo_future, 'u) async_statics \<Rightarrow> ('f echo_future, 'u) async_statics"
  ea_trap_unwrap :: string
  ea_trap_panic :: "string \<Rightarrow> string"

definition async_register_echo :: "('f, 'u) echo_async \<Rightarrow> nat \<Rightarrow> nat \<Rightarrow> ('f echo_future, 'u, unit) async_prog" where
  "async_register_echo ea w f =
     gbind (change_statics (ea_set_echo ea (Some f))) (\<lambda>_. register_async_function ''echo'' w)"

definition await_echo ::
    "('f, 'u) echo_async \<Rightarrow> 'f \<Rightarrow> ('f echo_future, 'u, 'f echo_future + host_result) async_prog" where
  "await_echo ea t =
     gbind (ea_poll ea t) (\<lambda>r.
       case r of
         Inl t' \<Rightarrow> GRet (Inl (Echoing t'))
       | Inr result \<Rightarrow> GRet (Inr (encode_result (ea_codec ea) result)))"

definition echo_async_wrapper ::
    "('f, 'u) echo_async \<Rightarrow> bytes \<Rightarrow> ('f echo_future, 'u, 'f echo_future + host_result) async_prog" where
  "echo_async_wrapper ea input_payload =
     (case deserialize (ea_codec ea) input_payload of
        Inl e \<Rightarrow> GRet (Inr (Inl (codec_error_to_string e)))
      | Inr input \<Rightarrow> GGet (\<lambda>i.
          case ea_echo ea (statics i) of
            None \<Rightarrow> GTrap (ea_trap_unwrap ea)
          | Some f \<Rightarrow> gbind (ea_start ea f input) (await_echo ea)))"

definition dispatch :: "sdk_invocation \<Rightarrow> ('f echo_future, 'u, 'f echo_future) async_prog" where
  "dispatch iv = GRet (Dispatching iv)"

fun poll_echo ::
    "('f, 'u) echo_async \<Rightarrow> 'f echo_future \<Rightarrow> ('f echo_future, 'u, 'f echo_future + host_result) async_prog" where
  "poll_echo ea (Dispatching iv) =
     (if inv_operation iv = ''async_echo'' then echo_async_wrapper ea (inv_payload iv)
      else GTrap (ea_trap_panic ea (''operation '' @ inv_operation iv @ '' not found'')))"
| "poll_echo ea (Echoing t) = await_echo ea t"

text \<open>The SDK with this dispatcher.\<close>

definition runs_dispatcher :: "('f echo_future, 'u) async_rt \<Rightarrow> ('f, 'u) echo_async \<Rightarrow> bool" where
  "runs_dispatcher rt ea \<longleftrightarrow> rt_dispatch rt = (\<lambda>_. dispatch) \<and> rt_poll rt = poll_echo ea"

subsection \<open>Asynchronous calls end to end\<close>

primrec future_answers ::
    "'w itself \<Rightarrow> ('f, 'u) echo_async \<Rightarrow> ('f echo_future, 'u) async_statics heap_view \<Rightarrow> nat \<Rightarrow> nat \<Rightarrow> 'f
     \<Rightarrow> dyn_error + string \<Rightarrow> bool" where
  "future_answers w ea hv cost 0 t r = False"
| "future_answers w ea hv cost (Suc n) t r =
     (\<forall>(c :: (('f echo_future, 'u) async_statics sdk, 'w) cx). hv_ok hv (inst c) \<and> cost \<le> hv_room hv (inst c) \<longrightarrow>
        (\<exists>x c'. run_guest (ea_poll ea t) c = Ret (Inr x, c') \<and> poll_keeps hv cost c c'
           \<and> (case x of Inr r' \<Rightarrow> r' = r | Inl t' \<Rightarrow> future_answers w ea hv cost n t' r)))"

definition async_fn_implements ::
    "'w itself \<Rightarrow> ('f, 'u) echo_async \<Rightarrow> ('f echo_future, 'u) async_statics heap_view \<Rightarrow> nat \<Rightarrow> nat \<Rightarrow> nat
     \<Rightarrow> (string \<Rightarrow> dyn_error + string) \<Rightarrow> bool" where
  "async_fn_implements w ea hv cost n f g \<longleftrightarrow>
     (\<forall>(c :: (('f echo_future, 'u) async_statics sdk, 'w) cx) input. hv_ok hv (inst c) \<and> cost \<le> hv_room hv (inst c) \<longrightarrow>
        (\<exists>t c'. run_guest (ea_start ea f input) c = Ret (Inr t, c') \<and> poll_keeps hv cost c c'
           \<and> future_answers w ea hv cost n t (g input)))"

lemma poll_keeps_refl: "hv_ok hv (inst c) \<Longrightarrow> poll_keeps hv cost c c"
  by (simp add: poll_keeps_def)

lemma poll_keeps_mono: "poll_keeps hv a c c' \<Longrightarrow> a \<le> b \<Longrightarrow> poll_keeps hv b c c'"
  by (auto simp: poll_keeps_def)

lemma poll_keeps_trans:
  assumes "poll_keeps hv a c c1" and "poll_keeps hv b c1 c2"
  shows "poll_keeps hv (a + b) c c2"
  using assms async_eq_trans by (fastforce simp: poll_keeps_def call_live_def)

lemma run_await_echo:
  fixes c :: "(('f echo_future, 'u) async_statics sdk, 'w) cx"
  assumes "future_answers TYPE('w) ea hv cost (Suc n) t r"
    and "hv_ok hv (inst c)" and "cost \<le> hv_room hv (inst c)"
  shows "\<exists>x c'. run_guest (await_echo ea t) c = Ret (Inr x, c') \<and> poll_keeps hv cost c c'
    \<and> (case x of
         Inr r' \<Rightarrow> r' = encode_result (ea_codec ea) r
       | Inl t' \<Rightarrow> \<exists>u. t' = Echoing u \<and> future_answers TYPE('w) ea hv cost n u r)"
proof -
  obtain x c' where "run_guest (ea_poll ea t) c = Ret (Inr x, c')" "poll_keeps hv cost c c'"
    and "case x of Inr r' \<Rightarrow> r' = r | Inl t' \<Rightarrow> future_answers TYPE('w) ea hv cost n t' r"
    using assms by auto
  then show ?thesis
    by (cases x) (simp_all add: await_echo_def run_guest_gbind)
qed

lemma echoing_answers:
  fixes ea :: "('f, 'u) echo_async"
  assumes "runs_dispatcher rt ea" and "future_answers TYPE('w) ea hv cost n t r"
  shows "answers_within TYPE('w) rt hv (cost + cost) n (Echoing t) (encode_result (ea_codec ea) r)"
  using assms(2)
proof (induction n arbitrary: t)
  case (Suc n)
  show ?case
    unfolding answers_within.simps
  proof (intro allI impI, elim conjE)
    fix c :: "(('f echo_future, 'u) async_statics sdk, 'w) cx"
    assume ok: "hv_ok hv (inst c)" and room: "cost + cost \<le> hv_room hv (inst c)"
    from run_await_echo [OF Suc.prems ok] room obtain x c' where
      run: "run_guest (await_echo ea t) c = Ret (Inr x, c')" and keeps: "poll_keeps hv cost c c'"
      and x: "case x of Inr r' \<Rightarrow> r' = encode_result (ea_codec ea) r
         | Inl t' \<Rightarrow> \<exists>u. t' = Echoing u \<and> future_answers TYPE('w) ea hv cost n u r"
      by auto
    show "\<exists>x c'. run_guest (rt_poll rt (Echoing t)) c = Ret (Inr x, c') \<and> poll_keeps hv (cost + cost) c c'
        \<and> (case x of Inr r' \<Rightarrow> r' = encode_result (ea_codec ea) r
           | Inl t' \<Rightarrow> answers_within TYPE('w) rt hv (cost + cost) n t' (encode_result (ea_codec ea) r))"
      using assms(1) run poll_keeps_mono [OF keeps, of "cost + cost"] x Suc.IH
      by (intro exI [of _ x] exI [of _ c']) (auto simp: runs_dispatcher_def split: sum.splits)
  qed
qed simp

lemma wrapper_answers:
  fixes c :: "(('f echo_future, 'u) async_statics sdk, 'w) cx"
  assumes runs: "runs_dispatcher rt ea" and fn: "async_fn_implements TYPE('w) ea hv cost (Suc n) f g"
    and static: "\<And>i. hv_ok hv i \<Longrightarrow> ea_echo ea (statics i) = Some f"
    and ok: "hv_ok hv (inst c)" and room: "cost + cost \<le> hv_room hv (inst c)"
  shows "\<exists>x c'. run_guest (echo_async_wrapper ea payload) c = Ret (Inr x, c') \<and> poll_keeps hv (cost + cost) c c'
    \<and> (case x of
         Inr r' \<Rightarrow> r' = echo_outcome (ea_codec ea) g payload
       | Inl t' \<Rightarrow> answers_within TYPE('w) rt hv (cost + cost) n t' (echo_outcome (ea_codec ea) g payload))"
proof (cases "deserialize (ea_codec ea) payload")
  case (Inl e)
  then show ?thesis
    using poll_keeps_refl [OF ok] by (simp add: echo_async_wrapper_def echo_outcome_eq)
next
  case (Inr input)
  obtain t c1 where start: "run_guest (ea_start ea f input) c = Ret (Inr t, c1)" and keeps1: "poll_keeps hv cost c c1"
    and t: "future_answers TYPE('w) ea hv cost (Suc n) t (g input)"
    using fn ok room unfolding async_fn_implements_def by fastforce
  have "hv_ok hv (inst c1)" "cost \<le> hv_room hv (inst c1)"
    using keeps1 room by (simp_all add: poll_keeps_def)
  from run_await_echo [OF t this] obtain x c2 where await: "run_guest (await_echo ea t) c1 = Ret (Inr x, c2)"
    and keeps2: "poll_keeps hv cost c1 c2"
    and x: "case x of Inr r' \<Rightarrow> r' = encode_result (ea_codec ea) (g input)
      | Inl t' \<Rightarrow> \<exists>u. t' = Echoing u \<and> future_answers TYPE('w) ea hv cost n u (g input)"
    by blast
  have "run_guest (echo_async_wrapper ea payload) c = Ret (Inr x, c2)"
    using Inr static [OF ok] start await by (simp add: echo_async_wrapper_def run_guest_gbind)
  then show ?thesis
    using poll_keeps_trans [OF keeps1 keeps2] x echoing_answers [OF runs] Inr
    by (intro exI [of _ x] exI [of _ c2]) (auto simp: echo_outcome_eq split: sum.splits)
qed

lemma dispatch_answers:
  fixes ea :: "('f, 'u) echo_async"
  assumes runs: "runs_dispatcher rt ea" and fn: "async_fn_implements TYPE('w) ea hv cost n f g" and n: "0 < n"
    and static: "\<And>i. hv_ok hv i \<Longrightarrow> ea_echo ea (statics i) = Some f"
  shows "dispatcher_answers TYPE('w) rt hv (cost + cost) n d ''async_echo'' payload (echo_outcome (ea_codec ea) g payload)"
proof -
  obtain m where m: "n = Suc m"
    using n gr0_implies_Suc by blast
  have "answers_within TYPE('w) rt hv (cost + cost) n
      (Dispatching \<lparr>inv_id = i, inv_operation = ''async_echo'', inv_payload = payload\<rparr>)
      (echo_outcome (ea_codec ea) g payload)" for i
    using wrapper_answers [OF runs fn [unfolded m] static] runs by (simp add: m runs_dispatcher_def)
  then show ?thesis
    using runs poll_keeps_refl by (fastforce simp: dispatcher_answers_def runs_dispatcher_def dispatch_def)
qed

text \<open>C7: an asynchronous call of \<open>async_echo\<close> is answered by the time the guest returns, with the encoded
  value of the function registered by \<open>async_register_echo\<close> at the decoded payload or the text of
  the error on the way, however often its future yields. The operation is the one the dispatcher
  names: the name under which the function was registered plays no part.\<close>

theorem generated_async_echo:
  fixes ms :: "'w module_state" and ea :: "('f, 'u) echo_async"
  assumes sdk: "exported_async_call (wcc_context cc) = Some (async_guest_call rt turns)" and turns: "0 < n" "n < turns"
    and heap: "async_heap rt hv" "hv_ok hv (wc_inst (wcc_context cc))"
    and progress: "executor_progress rt" and runs: "runs_dispatcher rt ea"
    and static: "\<And>i. hv_ok hv i \<Longrightarrow> ea_echo ea (statics i) = Some f"
    and fn: "async_fn_implements TYPE('w) ea hv cost n f g"
    and idle: "sdk_idle d (wc_inst (wcc_context cc))" and wf: "ms_wf ms"
    and fits: "async_call_fits hv (cost + cost) n ''async_echo'' payload (echo_outcome (ea_codec ea) g payload)
                 (wc_inst (wcc_context cc))"
    and valid: "\<And>e. echo_outcome (ea_codec ea) g payload = Inl e \<Longrightarrow> rust_str e"
  shows "\<exists>rx cc' ms' ev'. call_async_run (wasmtime_engine api) cc ''async_echo'' payload ms ev
      = Ret (Inr rx, cc', ms', ev')
    \<and> call_async_reply (oneshots ms' ! rx) = Some (case echo_outcome (ea_codec ea) g payload of
         Inl e \<Rightarrow> Inl (GuestCallFailure (''Guest call failure: '' @ e)) | Inr v \<Rightarrow> Inr v)"
proof -
  have "rust_str ''async_echo''"
    by (simp add: rust_str_def as_bytes_def u8_of_char_def utf8_width_def in_range_def)
  moreover have "wrap_call_error (map_err GuestCallFailure r) = (case r of
      Inl e \<Rightarrow> Inl (GuestCallFailure (''Guest call failure: '' @ e)) | Inr v \<Rightarrow> Inr v)" for r :: host_result
    by (simp add: wrap_call_error_def split: sum.splits)
  ultimately show ?thesis
    using async_sdk_call_reply [OF sdk turns(2) heap progress dispatch_answers [OF runs fn turns(1) static] idle wf fits valid]
    by simp
qed

lemma unknown_operation_traps:
  assumes "runs_dispatcher rt ea" and "rust_str op" and "op \<noteq> ''async_echo''"
  shows "run_guest (poll_call_task rt (Call_Start d i (as_bytes op) payload)) c
    = Ret (Inl (ea_trap_panic ea (''operation '' @ op @ '' not found'')), c)"
  using assms
  by (simp add: runs_dispatcher_def dispatch_def poll_dispatched_def from_utf8_lossy_def utf8_lossy_id rust_str_def)

subsection \<open>The test guest\<close>

text \<open>The function it registers for \<open>echo\<close>, and the future of the one for \<open>async_echo\<close>, which makes a host
  call first: the four slices are those of its literals.\<close>

definition test_echo :: "string \<Rightarrow> ('v, dyn_error + string) sdk_prog" where
  "test_echo input = GRet (Inr input)"

datatype async_echo_future = Echo_Start string | Echo_Called string host_call_future

definition await_host_call ::
    "('t, 'u) async_rt \<Rightarrow> (bytes \<Rightarrow> string) \<Rightarrow> string \<Rightarrow> host_call_future
     \<Rightarrow> ('t, 'u, async_echo_future + (dyn_error + string)) async_prog" where
  "await_host_call rt trap_assert input f =
     gbind (poll_host_call rt f) (\<lambda>r.
       case r of
         None \<Rightarrow> GRet (Inl (Echo_Called input f))
       | Some (Inl e) \<Rightarrow> GRet (Inr (Inl (error_kind_to_string e)))
       | Some (Inr result) \<Rightarrow>
           if result = [1, 2, 3] then GRet (Inr (Inr input)) else GTrap (trap_assert result))"

fun poll_async_echo ::
    "('t, 'u) async_rt \<Rightarrow> (bytes \<Rightarrow> string) \<Rightarrow> slice \<times> slice \<times> slice \<times> slice \<Rightarrow> async_echo_future
     \<Rightarrow> ('t, 'u, async_echo_future + (dyn_error + string)) async_prog" where
  "poll_async_echo rt trap_assert (binding, ns, op, m) (Echo_Start input) =
     gbind (async_host_call rt binding ns op m) (await_host_call rt trap_assert input)"
| "poll_async_echo rt trap_assert lits (Echo_Called input f) = await_host_call rt trap_assert input f"

definition test_wapc_init ::
    "('f echo_future, 'u) async_rt \<Rightarrow> ('f echo_future, 'u) async_statics echo_env \<Rightarrow> ('f, 'u) echo_async
     \<Rightarrow> nat \<Rightarrow> nat \<Rightarrow> nat \<Rightarrow> nat \<Rightarrow> nat \<Rightarrow> ('f echo_future, 'u, unit) async_prog" where
  "test_wapc_init rt ee ea w f aw af d =
     gbind (register_echo (sync_rt rt) ee w f) (\<lambda>_.
     gbind (async_register_echo ea aw af) (\<lambda>_.
       register_dispatcher d))"

lemma test_echo_implements: "ee_fns ee f = test_echo \<Longrightarrow> fn_implements w ee hv 0 f Inr"
  by (simp add: fn_implements_def test_echo_def handler_keeps_def)

text \<open>The test guest's asynchronous function waits as long as the host has not reported its host call.\<close>

lemma async_echo_waits:
  assumes "hcf_callresult f \<noteq> 0" and "host_oneshots (statics (inst c)) ! hcf_recv f = Pending"
  shows "run_guest (poll_async_echo rt trap_assert lits (Echo_Called input f)) c = Ret (Inr (Inl (Echo_Called input f)), c)"
  using assms by (simp add: await_host_call_def poll_host_call_def)

lemma run_test_wapc_init:
  assumes "\<not> registry_locked (wstate (inst c))" and "dispatcher (statics (inst c)) = None"
    and "\<And>x st. dispatcher (ee_set_echo ee x st) = dispatcher st"
    and "\<And>x st. dispatcher (ea_set_echo ea x st) = dispatcher st"
  shows "\<exists>c'. run_guest (test_wapc_init rt ee ea w f aw af d) c = Ret (Inr (), c')
    \<and> registry (wstate (inst c')) (as_bytes ''echo'') = Some w \<and> dispatcher (statics (inst c')) = Some d
    \<and> mstate c' = mstate c"
  using assms
  by (simp add: test_wapc_init_def run_guest_gbind run_register_echo async_register_echo_def register_async_function_def
      register_dispatcher_def echo_ready_def)

subsection \<open>Two guests for the witnesses\<close>

text \<open>A codec that writes a string as its bytes, and a guest whose state is the static \<open>ECHO\<close> and the
  pointer of its allocator.\<close>

definition plain_codec :: "string rmp_serde" where
  "plain_codec =
     \<lparr>rmp_serialize = (\<lambda>x. if rust_str x then Inr (as_bytes x) else Inl ''not a string''),
      rmp_deserialize = (\<lambda>bs. case from_utf8 bs of None \<Rightarrow> Inl ''invalid string'' | Some x \<Rightarrow> Inr x)\<rparr>"

lemma plain_codec_lossless: "lossless plain_codec"
  by (simp add: lossless_def plain_codec_def from_utf8_as_bytes)

definition plain_env :: "(nat option \<times> nat) echo_env" where
  "plain_env =
     \<lparr>ee_codec = plain_codec, ee_fns = (\<lambda>_. test_echo), ee_echo = fst,
      ee_set_echo = (\<lambda>x st. (x, snd st)), ee_trap_unwrap = ''unwrap on None''\<rparr>"

definition plain_rt :: "(nat option \<times> nat) guest_rt" where
  "plain_rt =
     \<lparr>rt_alloc = bump_alloc snd (\<lambda>a st. (fst st, a)), rt_handlers = (\<lambda>_. echo_wrapper plain_env),
      trap_capacity = ''capacity overflow'', trap_alloc = ''out of memory'',
      trap_bounds = ''out of bounds'', trap_lock = ''deadlock'', trap_result = ''bad result''\<rparr>"

abbreviation plain_view :: "(nat option \<times> nat) heap_view" where
  "plain_view \<equiv> bump_heap snd (\<lambda>st. fst st = Some 7)"

definition plain_module :: "(nat option \<times> nat) sdk wasm_module" where
  "plain_module =
     \<lparr>m_imports = [],
      m_exports =
        [''__guest_call'' \<mapsto> Export_3_1 (guest_call plain_rt),
         ''wapc_init'' \<mapsto> Export_0_0 (register_echo plain_rt plain_env 0 7),
         ''__host_call_response_ready'' \<mapsto> Export_2_0 (\<lambda>_ _. GRet ())],
      m_instance =
        \<lparr>wmem = Some (replicate 128 0),
         wstate = \<lparr>registry = Map.empty, registry_locked = False, CALL_NUM = 0, user = (None, 8)\<rparr>\<rparr>,
      m_start = None\<rparr>"

definition plain_api :: "(nat option \<times> nat) sdk wasmtime_api" where
  "plain_api =
     \<lparr>module_new = (\<lambda>_. Inr plain_module), init_wasi = (\<lambda>_. Inr ()), wasi_linker = Map.empty,
      msg_defined_twice = (\<lambda>_. ''import defined twice''), msg_bad_import = (\<lambda>_. ''unknown import'')\<rparr>"

definition plain_host :: "((nat option \<times> nat) sdk wasmtime_provider, nat) wapc_host" where
  "plain_host =
     \<lparr>engine = \<lparr>wp_module = plain_module, wp_linker = Map.empty, wp_wasi_params = None\<rparr>,
      host_async_hostcall = None, host_sync_hostcall = None, host_id = 1\<rparr>"

lemma hi_codes:
  "rust_str ''hi''" "serialize plain_codec ''hi'' = Inr [104, 105]" "echo_outcome plain_codec Inr [104, 105] = Inr [104, 105]"
proof -
  show str: "rust_str ''hi''"
    by (simp add: rust_str_def as_bytes_def u8_of_char_def utf8_width_def in_range_def)
  have bytes: "as_bytes ''hi'' = [104, 105]"
    by (simp add: as_bytes_def u8_of_char_def)
  show ser: "serialize plain_codec ''hi'' = Inr [104, 105]"
    using str by (simp add: serialize_def plain_codec_def bytes)
  show "echo_outcome plain_codec Inr [104, 105] = Inr [104, 105]"
    using deserialize_serialize [OF plain_codec_lossless ser] ser by (simp add: echo_outcome_eq encode_result_def)
qed

theorem generated_echo_rpc_witness:
  "\<exists>ev'. WapcHost_call (wasmtime_engine plain_api) plain_host ''echo'' [104, 105] sample_env
     = Ret (Inr [104, 105], ev')"
proof -
  have engine: "wp_module (engine plain_host) = plain_module"
    by (simp add: plain_host_def)
  have sdk: "sdk_guest plain_api plain_rt (register_echo plain_rt plain_env 0 7) (engine plain_host)"
    by (simp add: sdk_guest_def new_store_def plain_api_def plain_host_def plain_module_def
        get_func_2_0_def get_func_3_1_def get_func_0_0_def guest_name_defs)
  have fresh: "registry (wstate (m_instance (wp_module (engine plain_host)))) = Map.empty"
      "\<not> registry_locked (wstate (m_instance (wp_module (engine plain_host))))"
    by (simp_all add: engine plain_module_def)
  have heap: "heap_contract plain_rt plain_view"
    by (rule bump_heap_contract [where set_brk = "\<lambda>a st. (fst st, a)"]) (simp_all add: plain_rt_def)
  have ok: "hv_ok plain_view (echo_ready plain_env 0 7 (m_instance (wp_module (engine plain_host))))"
    by (simp add: engine plain_module_def bump_heap_def echo_ready_def plain_env_def)
  have codec: "ee_codec plain_env = plain_codec"
    by (simp add: plain_env_def)
  have fits: "call_fits plain_view (\<lambda>_. 0) ''echo'' [104, 105] (echo_outcome (ee_codec plain_env) Inr [104, 105])
      (echo_ready plain_env 0 7 (m_instance (wp_module (engine plain_host))))"
    by (simp add: codec hi_codes call_fits_def answer_bytes_def)
       (simp add: engine plain_module_def bump_heap_def echo_ready_def plain_env_def)
  have runtime: "in_runtime sample_env" and wrapper: "rt_handlers plain_rt 0 = echo_wrapper plain_env"
    and fns: "ee_fns plain_env 7 = test_echo"
    by (simp_all add: sample_env_def plain_rt_def plain_env_def)
  have static: "ee_echo plain_env (user (wstate i)) = Some 7" if "hv_ok plain_view i" for i
    using that by (simp add: bump_heap_def plain_env_def)
  have valid: "rust_str e" if "echo_outcome (ee_codec plain_env) Inr [104, 105] = Inl e" for e
    using that by (simp add: codec hi_codes)
  from generated_echo_rpc [OF sdk runtime fresh heap ok wrapper static test_echo_implements [OF fns] fits valid]
  show ?thesis
    by (auto simp: codec hi_codes)
qed

text \<open>A guest whose asynchronous function yields once before it answers with its argument.\<close>

type_synonym slow_echo = "nat \<times> string"

definition slow_async :: "(slow_echo, nat option \<times> nat) echo_async" where
  "slow_async =
     \<lparr>ea_codec = plain_codec, ea_start = (\<lambda>_ input. GRet (1, input)),
      ea_poll = (\<lambda>(k, input). GRet (if k = 0 then Inr (Inr input) else Inl (k - 1, input))),
      ea_echo = (\<lambda>st. fst (own st)), ea_set_echo = (\<lambda>x st. st\<lparr>own := (x, snd (own st))\<rparr>),
      ea_trap_unwrap = ''unwrap on None'', ea_trap_panic = id\<rparr>"

definition slow_rt :: "(slow_echo echo_future, nat option \<times> nat) async_rt" where
  "slow_rt =
     \<lparr>sync_rt = \<lparr>rt_alloc = bump_alloc (snd \<circ> own) (\<lambda>a st. st\<lparr>own := (fst (own st), a)\<rparr>),
        rt_handlers = (\<lambda>_ _. GRet (Inl ''no handler'')),
        trap_capacity = ''capacity overflow'', trap_alloc = ''out of memory'', trap_bounds = ''out of bounds'',
        trap_lock = ''deadlock'', trap_result = ''bad result''\<rparr>,
      rt_dispatch = (\<lambda>_. dispatch), rt_poll = poll_echo slow_async,
      rt_pick = (\<lambda>i. if tasks (statics i) \<noteq> [] \<and> async_host_calls (statics i) = [] then Some 0 else None),
      rt_idle = GRet (), trap_unwrap = ''unwrap on None'', trap_turns = ''still running'',
      recv_error_text = ''channel closed''\<rparr>"

abbreviation slow_view :: "(slow_echo echo_future, nat option \<times> nat) async_statics heap_view" where
  "slow_view \<equiv> bump_heap (snd \<circ> own) ((\<lambda>st. fst st = Some 7) \<circ> own)"

definition slow_instance :: "(slow_echo echo_future, nat option \<times> nat) async_inst" where
  "slow_instance =
     \<lparr>wmem = Some (replicate 128 0),
      wstate = \<lparr>registry = Map.empty, registry_locked = False, CALL_NUM = 0,
        user = \<lparr>dispatcher = Some 0, async_registry = Map.empty, async_host_calls = [], host_calls_locked = False,
          host_oneshots = [], tasks = [], own = (Some 7, 8)\<rparr>\<rparr>\<rparr>"

definition slow_module :: "(slow_echo echo_future, nat option \<times> nat) async_statics sdk wasm_module" where
  "slow_module =
     \<lparr>m_imports = [], m_exports = [''__async_guest_call'' \<mapsto> Export_3_0 (async_guest_call slow_rt 3)],
      m_instance = slow_instance, m_start = None\<rparr>"

definition slow_context ::
    "(slow_echo echo_future, nat option \<times> nat) async_statics sdk wasmtime_context wapc_call_context" where
  "slow_context = \<lparr>wcc_context = \<lparr>wc_module = slow_module, wc_inst = slow_instance\<rparr>, wcc_id = 1\<rparr>"

lemma slow_fn: "async_fn_implements w slow_async slow_view 0 2 7 Inr"
  by (simp add: async_fn_implements_def slow_async_def poll_keeps_refl numeral_eq_Suc)

theorem generated_async_echo_witness:
  "\<forall>api. \<exists>rx cc' ms' ev'. call_async_run (wasmtime_engine api) slow_context ''async_echo'' [104, 105]
      (ModuleState_new None None 1) sample_env = Ret (Inr rx, cc', ms', ev')
    \<and> call_async_reply (oneshots ms' ! rx) = Some (Inr [104, 105])"
proof
  fix api
  have sdk: "exported_async_call (wcc_context slow_context) = Some (async_guest_call slow_rt 3)"
    by (simp add: slow_context_def exported_async_call_def slow_module_def get_func_3_0_def guest_name_defs)
  have heap: "async_heap slow_rt slow_view"
    by (rule bump_async_heap [where set_brk = "\<lambda>a st. (fst st, a)"]) (simp_all add: slow_rt_def)
  have codec: "ea_codec slow_async = plain_codec"
    by (simp add: slow_async_def)
  have ok: "hv_ok slow_view (wc_inst (wcc_context slow_context))"
    and idle: "sdk_idle 0 (wc_inst (wcc_context slow_context))"
    by (simp_all add: slow_context_def slow_instance_def bump_heap_def sdk_idle_def)
  have fits: "async_call_fits slow_view (0 + 0) 2 ''async_echo'' [104, 105]
      (echo_outcome (ea_codec slow_async) Inr [104, 105]) (wc_inst (wcc_context slow_context))"
    by (simp add: codec hi_codes async_call_fits_def answer_bytes_def)
       (simp add: slow_context_def slow_instance_def bump_heap_def)
  have progress: "executor_progress slow_rt" and runs: "runs_dispatcher slow_rt slow_async"
    by (simp_all add: executor_progress_def slow_rt_def runs_dispatcher_def)
  have static: "ea_echo slow_async (statics i) = Some 7" if "hv_ok slow_view i" for i
    using that by (simp add: bump_heap_def slow_async_def)
  have valid: "rust_str e" if "echo_outcome (ea_codec slow_async) Inr [104, 105] = Inl e" for e
    using that by (simp add: codec hi_codes)
  have turns: "0 < (2 :: nat)" "2 < (3 :: nat)"
    by simp_all
  from generated_async_echo [where api = api and ev = sample_env,
      OF sdk turns heap ok progress runs static slow_fn idle ms_wf_new fits valid]
  show "\<exists>rx cc' ms' ev'. call_async_run (wasmtime_engine api) slow_context ''async_echo'' [104, 105]
      (ModuleState_new None None 1) sample_env = Ret (Inr rx, cc', ms', ev')
    \<and> call_async_reply (oneshots ms' ! rx) = Some (Inr [104, 105])"
    by (simp add: codec hi_codes)
qed

end
