(* ===== verification/Pool_Hosts.thy ===== *)
theory Pool_Hosts
  imports Pool_Progress Async_Service Generated_Guest
begin

text \<open>
  The pool of \<open>Host_Pool\<close> with its workers opened up: each makes a host of the wasmtime engine with the
  pool's factory and answers a message with an asynchronous call of that host (\<open>spawn\<close> of
  \<open>crates/wapc-pool/src/hostpool.rs\<close>; the factory is the one of \<open>examples/pool.rs\<close>).

  \<^item> A worker drives the future of \<open>call_async\<close> in a Tokio runtime of its own, so the runtime flag of
    the environment is set and the tasks of the call (\<open>Async_Calls\<close>) interleave with the other workers
    and the callers. The world, the counters and what is printed are shared: they may change at any
    time between the steps of a call.
  \<^item> While a worker waits for the next message it blocks its runtime; a task left over from an earlier
    call goes on beside a later one, on the module state of its own call.
  \<^item> A panic of the factory or of the host ends the worker. The steps say nothing of undefined behaviour.
\<close>

subsection \<open>Workers\<close>

text \<open>The factory of the example: a clone of the provider in a new host.\<close>

definition clone_factory ::
    "'g wasmtime_api \<Rightarrow> 'g wasmtime_provider \<Rightarrow> 'w host_callback option \<Rightarrow> 'w host_callback option
     \<Rightarrow> 'w env \<Rightarrow> (('g wasmtime_provider, 'w) wapc_host \<times> 'w env) outcome" where
  "clone_factory api p sync async ev =
     obind (wasmtime_clone p) (\<lambda>p'.
     obind (WapcHost_new (wasmtime_engine api) p' sync async ev) (\<lambda>(r, ev').
       case r of Inl e \<Rightarrow> Panic Unwrap_Err | Inr h \<Rightarrow> Ret (h, ev')))"

text \<open>How far a worker is with the message it serves.\<close>

datatype ('g, 'w) worker_call = Received | No_Context dyn_error | Running "('g, 'w) async_call"

record ('g, 'w) pooled =
  pl_pool :: host_pool
  pl_hosts :: "nat \<rightharpoonup> ('g wasmtime_provider, 'w) wapc_host"
  pl_calls :: "nat \<rightharpoonup> ('g, 'w) worker_call"

definition pooled_start :: "host_pool \<Rightarrow> ('g, 'w) pooled" where
  "pooled_start p = \<lparr>pl_pool = p, pl_hosts = Map.empty, pl_calls = Map.empty\<rparr>"

definition serves_message :: "nat \<Rightarrow> worker_message \<Rightarrow> ('g, 'w) pooled \<Rightarrow> bool" where
  "serves_message j m s \<longleftrightarrow> j < length (jobs (pl_pool s)) \<and> snd (jobs (pl_pool s) ! j) = Serving m"

definition call_panics :: "'g wasmtime_api \<Rightarrow> request \<Rightarrow> ('g, 'w) async_call \<Rightarrow> bool" where
  "call_panics api req a \<longleftrightarrow>
     ac_stage a = Unpolled \<and> (\<exists>q. wasmtime_context_init (ac_context a) (ac_state a)
        ((ac_env a)\<lparr>context_count := context_count (ac_env a) + 1\<rparr>) = Panic q)
     \<or> (\<exists>k q. ac_stage a = Yielded k \<and> call_async_run (wasmtime_engine api) \<lparr>wcc_context = ac_context a, wcc_id = k\<rparr>
        (req_op req) (req_payload req) (ac_state a) (ac_env a) = Panic q)"

text \<open>The steps that touch neither a host nor a call are those of \<open>Host_Pool\<close>; an event \<open>None\<close> is a step
  inside a call.\<close>

inductive pooled_step ::
    "'g wasmtime_api \<Rightarrow> ('w env \<Rightarrow> (('g wasmtime_provider, 'w) wapc_host \<times> 'w env) outcome) \<Rightarrow> string
     \<Rightarrow> pool_event option \<Rightarrow> ('g, 'w) pooled \<Rightarrow> ('g, 'w) pooled \<Rightarrow> bool"
  for api factory closed where
  around: "pool_step (\<lambda>_ _. False) closed e (pl_pool s) p' \<Longrightarrow>
    e \<in> {E_Call, E_Send, E_Timeout, E_Idle, E_Drop, E_Shutdown} \<Longrightarrow>
    pooled_step api factory closed (Some e) s (s\<lparr>pl_pool := p'\<rparr>)"
| host_made: "j < length (jobs (pl_pool s)) \<Longrightarrow> snd (jobs (pl_pool s) ! j) = Submitted \<Longrightarrow>
    in_runtime ev \<Longrightarrow> factory ev = Ret (h, ev') \<Longrightarrow>
    pooled_step api factory closed (Some E_Start) s
      (s\<lparr>pl_pool := set_job j Receiving (pl_pool s), pl_hosts := (pl_hosts s)(j \<mapsto> h)\<rparr>)"
| factory_panicked: "j < length (jobs (pl_pool s)) \<Longrightarrow> snd (jobs (pl_pool s) ! j) = Submitted \<Longrightarrow>
    in_runtime ev \<Longrightarrow> factory ev = Panic q \<Longrightarrow>
    pooled_step api factory closed (Some E_Panic) s (s\<lparr>pl_pool := set_job j Ended (pl_pool s)\<rparr>)"
| received: "j < length (jobs (pl_pool s)) \<Longrightarrow> snd (jobs (pl_pool s) ! j) = Receiving \<Longrightarrow>
    tx_queue (pl_pool s) \<noteq> [] \<Longrightarrow>
    pooled_step api factory closed (Some E_Receive) s
      (s\<lparr>pl_pool := worker_receive j (pl_pool s), pl_calls := (pl_calls s)(j \<mapsto> Received)\<rparr>)"
| context_made: "serves_message j m s \<Longrightarrow> pl_calls s j = Some Received \<Longrightarrow> pl_hosts s j = Some h \<Longrightarrow>
    in_runtime ev \<Longrightarrow> spawned ev = [] \<Longrightarrow>
    WapcHost_call_async (wasmtime_engine api) h ev = Ret (rc, ms, ev') \<Longrightarrow>
    pooled_step api factory closed None s (s\<lparr>pl_calls := (pl_calls s)(j \<mapsto>
      (case rc of Inl e \<Rightarrow> No_Context e | Inr wc \<Rightarrow> Running (ac_start wc ms ev')))\<rparr>)"
| context_panicked: "serves_message j m s \<Longrightarrow> pl_calls s j = Some Received \<Longrightarrow> pl_hosts s j = Some h \<Longrightarrow>
    in_runtime ev \<Longrightarrow> spawned ev = [] \<Longrightarrow> WapcHost_call_async (wasmtime_engine api) h ev = Panic q \<Longrightarrow>
    pooled_step api factory closed (Some E_Panic) s
      (s\<lparr>pl_pool := worker_panic j m closed (pl_pool s), pl_calls := (pl_calls s)(j := None)\<rparr>)"
| call_step: "serves_message j m s \<Longrightarrow> pl_calls s j = Some (Running a) \<Longrightarrow>
    ac_step api (req_op (msg_request m)) (req_payload (msg_request m)) a e a' \<Longrightarrow> ac_stage a' \<noteq> Abandoned \<Longrightarrow>
    pooled_step api factory closed None s (s\<lparr>pl_calls := (pl_calls s)(j \<mapsto> Running a')\<rparr>)"
| call_panicked: "serves_message j m s \<Longrightarrow> pl_calls s j = Some (Running a) \<Longrightarrow> call_panics api (msg_request m) a \<Longrightarrow>
    pooled_step api factory closed (Some E_Panic) s
      (s\<lparr>pl_pool := worker_panic j m closed (pl_pool s), pl_calls := (pl_calls s)(j := None)\<rparr>)"
| answered: "serves_message j m s \<Longrightarrow> pl_calls s j = Some (Running a) \<Longrightarrow> ac_stage a = Answered r \<Longrightarrow>
    pooled_step api factory closed (Some E_Reply) s
      (s\<lparr>pl_pool := worker_reply j m r (pl_pool s), pl_calls := (pl_calls s)(j := None)\<rparr>)"
| no_context: "serves_message j m s \<Longrightarrow> pl_calls s j = Some (No_Context e) \<Longrightarrow>
    pooled_step api factory closed (Some E_Reply) s
      (s\<lparr>pl_pool := worker_reply j m (Inl (Context e)) (pl_pool s), pl_calls := (pl_calls s)(j := None)\<rparr>)"

inductive pooled_run ::
    "'g wasmtime_api \<Rightarrow> ('w env \<Rightarrow> (('g wasmtime_provider, 'w) wapc_host \<times> 'w env) outcome) \<Rightarrow> string
     \<Rightarrow> pool_event option set \<Rightarrow> ('g, 'w) pooled \<Rightarrow> ('g, 'w) pooled \<Rightarrow> bool"
  for api factory closed E s where
  pooled_refl: "pooled_run api factory closed E s s"
| pooled_then: "pooled_run api factory closed E s s' \<Longrightarrow> pooled_step api factory closed e s' s'' \<Longrightarrow> e \<in> E \<Longrightarrow>
    pooled_run api factory closed E s s''"

text \<open>The steps of the pool itself: no new callers, no dropped calls, no ending workers.\<close>

abbreviation working_events :: "pool_event option set" where
  "working_events \<equiv> {None, Some E_Send, Some E_Receive, Some E_Reply}"

lemma pooled_run_trans:
  "pooled_run api factory closed E s' s'' \<Longrightarrow> pooled_run api factory closed E' s s' \<Longrightarrow> E \<subseteq> F \<Longrightarrow> E' \<subseteq> F \<Longrightarrow>
   pooled_run api factory closed F s s''"
proof (induction rule: pooled_run.induct)
  case pooled_refl
  then show ?case
    by (induction rule: pooled_run.induct) (auto intro: pooled_run.intros)
qed (auto intro: pooled_run.intros)

lemma pooled_run_cons:
  assumes "pooled_run api factory closed E s' s''" and "pooled_step api factory closed e s s'" and "e \<in> E"
  shows "pooled_run api factory closed E s s''"
  using pooled_run_trans [OF assms(1) pooled_run.pooled_then [OF pooled_run.pooled_refl assms(2,3)]] by blast

lemma pooled_single:
  "pooled_step api factory closed e s s' \<Longrightarrow> e \<in> E \<Longrightarrow> pooled_run api factory closed E s s'"
  by (rule pooled_run_cons [OF pooled_run.pooled_refl])

subsection \<open>Requests\<close>

definition requests :: "host_pool \<Rightarrow> request list" where
  "requests p = map fst (callers p)"

lemma requests_set_caller [simp]: "requests (set_caller c st p) = requests p"
proof (cases "c < length (callers p)")
  case True
  then have "(map fst (callers p))[c := fst (callers p ! c)] = map fst (callers p)"
    by (metis list_update_id nth_map)
  then show ?thesis
    by (simp add: requests_def set_caller_def map_update)
qed (simp add: requests_def set_caller_def list_update_beyond)

lemma requests_frame [simp]:
  "requests (set_job j st p) = requests p" "requests (worker_receive j p) = requests p"
  "requests (snd (spawn d p)) = requests p" "requests (snd (shutdown p)) = requests p"
  "requests (call_start op payload p) = requests p @ [\<lparr>req_op = op, req_payload = payload\<rparr>]"
  "requests (p\<lparr>tx_queue := q\<rparr>) = requests p"
  by (simp_all add: requests_def shutdown_def call_start_def)

lemma requests_deliver [simp]: "requests (deliver c r p) = requests p"
  by (simp add: deliver_def)

lemma pool_step_requests:
  "pool_step serve closed e p p' \<Longrightarrow> set (requests p) \<subseteq> set (requests p')"
  by (induction rule: pool_step.induct)
     (auto simp: call_send_def call_timed_out_def worker_reply_def worker_panic_def)

lemma pooled_step_requests:
  "pooled_step api factory closed e s s' \<Longrightarrow> set (requests (pl_pool s)) \<subseteq> set (requests (pl_pool s'))"
  by (induction rule: pooled_step.induct)
     (auto simp: worker_reply_def worker_panic_def dest: pool_step_requests [THEN subsetD])

lemma served_in_place:
  assumes "pool_wf serve closed (pl_pool s)" and "serves_message j m s"
  shows "msg_request m \<in> set (requests (pl_pool s))"
proof -
  have "in_flight (pl_pool s) = in_flight (set_job j Receiving (pl_pool s)) + {#m#}"
    using assms(2) by (intro in_flight_served) (simp_all add: serves_message_def)
  then have "m \<in># in_flight (pl_pool s)"
    by simp
  then have "in_place (callers (pl_pool s)) m"
    using assms(1) by (simp add: pool_wf_def calls_wf_def)
  then show ?thesis
    by (auto simp: in_place_def requests_def)
qed

lemma pool_step_serve:
  assumes "pool_step serve closed e p p'" and "\<And>req r. serve req r \<Longrightarrow> serve' req r"
  shows "pool_step serve' closed e p p'"
  using assms by (induction rule: pool_step.induct) (auto intro: pool_step.intros)

text \<open>The state of a job, and what the steps make of it.\<close>

definition job_at :: "('g, 'w) pooled \<Rightarrow> nat \<Rightarrow> job_state option" where
  "job_at s j = (if j < length (jobs (pl_pool s)) then Some (snd (jobs (pl_pool s) ! j)) else None)"

lemma serves_message_job_at: "serves_message j m s \<longleftrightarrow> job_at s j = Some (Serving m)"
  by (simp add: serves_message_def job_at_def)

lemma job_at_around:
  assumes "pool_step serve closed e (pl_pool s) p'" and "e \<in> {E_Call, E_Send, E_Timeout, E_Idle, E_Drop, E_Shutdown}"
  shows "job_at (s\<lparr>pl_pool := p'\<rparr>) j \<in> {job_at s j, Some Submitted, Some Ended}"
  using assms(1)
proof (cases rule: pool_step.cases)
  case (timeout c active)
  then show ?thesis
    by (auto simp: job_at_def call_timed_out_def spawn_def nth_append)
qed (use assms(2) in \<open>auto simp: job_at_def call_start_def call_send_def shutdown_def set_job_def nth_list_update\<close>)

lemma job_at_frame [simp]:
  "job_at (s\<lparr>pl_calls := c\<rparr>) j = job_at s j" "job_at (s\<lparr>pl_hosts := h\<rparr>) j = job_at s j"
  by (simp_all add: job_at_def)

lemma job_at_set_job:
  assumes "k < length (jobs (pl_pool s))"
  shows "job_at (s\<lparr>pl_pool := set_job k st (pl_pool s)\<rparr>) j = (if j = k then Some st else job_at s j)"
    and "job_at (s\<lparr>pl_pool := worker_reply k m r (pl_pool s)\<rparr>) j = (if j = k then Some Receiving else job_at s j)"
    and "job_at (s\<lparr>pl_pool := worker_panic k m closed (pl_pool s)\<rparr>) j = (if j = k then Some Ended else job_at s j)"
    and "tx_queue (pl_pool s) = m # q \<Longrightarrow>
      job_at (s\<lparr>pl_pool := worker_receive k (pl_pool s)\<rparr>) j = (if j = k then Some (Serving m) else job_at s j)"
  using assms by (auto simp: job_at_def worker_reply_def worker_panic_def worker_receive_def)
    (auto simp: set_job_def)

subsection \<open>What a pool needs of its calls\<close>

text \<open>The contract of the calls a worker makes, for the requests of \<open>ok\<close>: hosts can be made, a context
  that cannot be made is the answer, a call keeps its invariant and never panics, goes on until it is
  answered, and the answer is \<open>answer\<close>.\<close>

locale call_service =
  fixes api :: "'g wasmtime_api"
    and factory :: "'w env \<Rightarrow> (('g wasmtime_provider, 'w) wapc_host \<times> 'w env) outcome"
    and made :: "('g wasmtime_provider, 'w) wapc_host \<Rightarrow> bool"
    and ok :: "request \<Rightarrow> bool"
    and answer :: "request \<Rightarrow> wapc_error + bytes"
    and inv :: "request \<Rightarrow> ('g, 'w) async_call \<Rightarrow> bool"
  assumes factory_makes: "\<exists>h ev'. factory ev = Ret (h, ev') \<and> made h"
    and context_starts: "made h \<Longrightarrow> ok req \<Longrightarrow> in_runtime ev \<Longrightarrow> spawned ev = [] \<Longrightarrow>
      \<exists>rc ms ev'. WapcHost_call_async (wasmtime_engine api) h ev = Ret (rc, ms, ev')
        \<and> (case rc of Inl e \<Rightarrow> answer req = Inl (Context e) | Inr wc \<Rightarrow> inv req (ac_start wc ms ev'))"
    and call_stays: "ok req \<Longrightarrow> inv req a \<Longrightarrow> ac_step api (req_op req) (req_payload req) a e a' \<Longrightarrow>
      ac_stage a' \<noteq> Abandoned \<Longrightarrow> inv req a'"
    and call_safe: "ok req \<Longrightarrow> inv req a \<Longrightarrow> \<not> call_panics api req a"
    and call_answers: "ok req \<Longrightarrow> inv req a \<Longrightarrow> ac_stage a = Answered r \<Longrightarrow> r = answer req"
    and call_goes_on: "ok req \<Longrightarrow> inv req a \<Longrightarrow> (\<And>r. ac_stage a \<noteq> Answered r) \<Longrightarrow>
      \<exists>a'. ac_step api (req_op req) (req_payload req) a Silent a' \<and> stages_left (ac_stage a') < stages_left (ac_stage a)
        \<and> ac_stage a' \<noteq> Abandoned"
begin

primrec good_call :: "request \<Rightarrow> ('g, 'w) worker_call \<Rightarrow> bool" where
  "good_call req Received = True"
| "good_call req (No_Context e) = (answer req = Inl (Context e))"
| "good_call req (Running a) = inv req a"

definition worker_inv :: "job_state option \<Rightarrow> ('g wasmtime_provider, 'w) wapc_host option \<Rightarrow> ('g, 'w) worker_call option \<Rightarrow> bool" where
  "worker_inv job host call \<longleftrightarrow>
     (\<forall>h. host = Some h \<longrightarrow> made h)
     \<and> (\<forall>m. job = Some (Serving m) \<longrightarrow> host \<noteq> None \<and> (\<exists>w. call = Some w \<and> good_call (msg_request m) w))
     \<and> (job = Some Receiving \<longrightarrow> host \<noteq> None)"

definition pooled_inv :: "('g, 'w) pooled \<Rightarrow> bool" where
  "pooled_inv s \<longleftrightarrow> (\<forall>j. worker_inv (job_at s j) (pl_hosts s j) (pl_calls s j))"

lemma pooled_invD:
  assumes "pooled_inv s" and "serves_message j m s"
  shows "\<exists>h w. pl_hosts s j = Some h \<and> made h \<and> pl_calls s j = Some w \<and> good_call (msg_request m) w"
proof -
  have "worker_inv (job_at s j) (pl_hosts s j) (pl_calls s j)"
    using assms(1) by (simp add: pooled_inv_def)
  then show ?thesis
    using assms(2) by (auto simp: worker_inv_def serves_message_job_at)
qed

lemma worker_inv_quiet:
  "worker_inv job host call \<Longrightarrow> worker_inv (Some Submitted) host call' \<and> worker_inv (Some Ended) host call'"
  by (auto simp: worker_inv_def)

abbreviation answering :: "request \<Rightarrow> wapc_error + bytes \<Rightarrow> bool" where
  "answering req r \<equiv> r = answer req"

text \<open>One step is a step of the abstract pool that is no panic, or a step inside a call.\<close>

lemma pooled_inv_step:
  assumes "pooled_step api factory closed e s s'" and inv: "pooled_inv s"
    and ok: "\<And>j m. serves_message j m s \<Longrightarrow> ok (msg_request m)"
  shows "pooled_inv s'"
  using assms(1)
proof (cases rule: pooled_step.cases)
  case (around e p')
  have "worker_inv (job_at s' j) (pl_hosts s j) (pl_calls s j)" for j
    using inv job_at_around [OF around(3,4), of j] worker_inv_quiet [of "job_at s j" "pl_hosts s j" "pl_calls s j"]
    unfolding pooled_inv_def around(2) by auto
  then show ?thesis
    by (simp add: pooled_inv_def around(2))
next
  case (host_made k ev h ev')
  obtain h0 where "made h0" "h0 = h"
    using factory_makes [of ev] host_made by auto
  then show ?thesis
    using inv host_made by (auto simp: pooled_inv_def job_at_set_job worker_inv_def)
next
  case (factory_panicked k ev q)
  then show ?thesis
    using factory_makes [of ev] by auto
next
  case (received k)
  obtain m q where q: "tx_queue (pl_pool s) = m # q"
    using received by (cases "tx_queue (pl_pool s)") auto
  have "job_at s k = Some Receiving"
    using received by (simp add: job_at_def)
  then show ?thesis
    using inv received by (auto simp: pooled_inv_def job_at_set_job(4) [OF _ q] worker_inv_def)
next
  case (context_made k m h ev rc ms ev')
  then have made: "made h" "ok (msg_request m)"
    using pooled_invD [OF inv context_made(3)] ok by auto
  then have "case rc of Inl e \<Rightarrow> answer (msg_request m) = Inl (Context e) | Inr wc \<Rightarrow> inv (msg_request m) (ac_start wc ms ev')"
    using context_starts [of h "msg_request m" ev] context_made by auto
  then have "good_call (msg_request m) (case rc of Inl e \<Rightarrow> No_Context e | Inr wc \<Rightarrow> Running (ac_start wc ms ev'))"
    by (cases rc) simp_all
  then show ?thesis
    using inv context_made by (auto simp: pooled_inv_def worker_inv_def serves_message_job_at)
next
  case (context_panicked k m h ev q)
  then show ?thesis
    using pooled_invD [OF inv context_panicked(3)] ok context_starts [of h "msg_request m" ev] by auto
next
  case (call_step k m a e a')
  then have "inv (msg_request m) a"
    using pooled_invD [OF inv call_step(3)] by auto
  then have "inv (msg_request m) a'"
    using call_stays ok call_step by blast
  then show ?thesis
    using inv call_step by (auto simp: pooled_inv_def worker_inv_def serves_message_job_at)
next
  case (call_panicked k m a)
  then show ?thesis
    using pooled_invD [OF inv call_panicked(3)] ok call_safe by auto
next
  case (answered k m a r)
  then have "job_at s' j = (if j = k then Some Receiving else job_at s j)" for j
    by (simp add: job_at_set_job serves_message_def)
  then show ?thesis
    using inv answered pooled_invD [OF inv answered(3)] by (auto simp: pooled_inv_def worker_inv_def)
next
  case (no_context k m x)
  then have "job_at s' j = (if j = k then Some Receiving else job_at s j)" for j
    by (simp add: job_at_set_job serves_message_def)
  then show ?thesis
    using inv no_context pooled_invD [OF inv no_context(3)] by (auto simp: pooled_inv_def worker_inv_def)
qed

lemma pooled_step_refines:
  assumes "pooled_step api factory closed e s s'" and inv: "pooled_inv s"
    and ok: "\<And>j m. serves_message j m s \<Longrightarrow> ok (msg_request m)"
  shows "case e of None \<Rightarrow> pl_pool s' = pl_pool s
    | Some e' \<Rightarrow> e' \<noteq> E_Panic \<and> pool_step answering closed e' (pl_pool s) (pl_pool s')"
  using assms(1)
proof (cases rule: pooled_step.cases)
  case (around e p')
  then show ?thesis
    using pool_step_serve [of "\<lambda>_ _. False"] by auto
next
  case (host_made j ev h ev')
  then show ?thesis
    by (auto intro: pool_step.start)
next
  case (factory_panicked j ev q)
  then show ?thesis
    using factory_makes [of ev] by auto
next
  case (received j)
  then show ?thesis
    by (auto intro: pool_step.receive)
next
  case (context_panicked j m h ev q)
  then have "made h" "ok (msg_request m)"
    using pooled_invD [OF inv context_panicked(3)] ok by auto
  then show ?thesis
    using context_starts [of h "msg_request m" ev] context_panicked by auto
next
  case (call_panicked j m a)
  then have "ok (msg_request m)" "inv (msg_request m) a"
    using pooled_invD [OF inv call_panicked(3)] ok by auto
  then show ?thesis
    using call_panicked call_safe by blast
next
  case (answered j m a r)
  then have "ok (msg_request m)" "inv (msg_request m) a"
    using pooled_invD [OF inv answered(3)] ok by auto
  then have "r = answer (msg_request m)"
    using answered by (auto intro: call_answers)
  then show ?thesis
    using answered by (auto simp: serves_message_def intro: pool_step.reply)
next
  case (no_context j m x)
  then have "answer (msg_request m) = Inl (Context x)"
    using pooled_invD [OF inv no_context(3)] by auto
  then show ?thesis
    using no_context by (auto simp: serves_message_def intro: pool_step.reply)
qed auto

lemma pooled_inv_start: "pooled_inv (pooled_start (fresh_pool name n m wait idle))"
  by (auto simp: pooled_inv_def worker_inv_def pooled_start_def job_at_def fresh_pool_def)

text \<open>A run in which every request is one of \<open>ok\<close> is a run of the abstract pool without panics.\<close>

lemma pooled_run_refines:
  assumes "pooled_run api factory closed E s s'" and "pooled_inv s" and "pool_wf answering closed (pl_pool s)"
    and "set (requests (pl_pool s')) \<subseteq> Collect ok"
  shows "pool_run answering closed (- {E_Panic}) (pl_pool s) (pl_pool s') \<and> pooled_inv s'"
  using assms
proof (induction rule: pooled_run.induct)
  case pooled_refl
  then show ?case
    by (blast intro: pool_run.run_refl)
next
  case (pooled_then s' e s'')
  have sub: "set (requests (pl_pool s')) \<subseteq> Collect ok"
    using pooled_step_requests [OF pooled_then.hyps(2)] pooled_then.prems by blast
  have run: "pool_run answering closed (- {E_Panic}) (pl_pool s) (pl_pool s')" and inv: "pooled_inv s'"
    using pooled_then.IH [OF pooled_then.prems(1,2) sub] by auto
  have "ok (msg_request m)" if "serves_message j m s'" for j m
    using served_in_place [OF pool_wf_run [OF run pooled_then.prems(2)] that] sub by blast
  note ok = this
  have "case e of None \<Rightarrow> pl_pool s'' = pl_pool s'
      | Some e' \<Rightarrow> e' \<noteq> E_Panic \<and> pool_step answering closed e' (pl_pool s') (pl_pool s'')"
    by (rule pooled_step_refines [OF pooled_then.hyps(2) inv]) (rule ok)
  then have "pool_run answering closed (- {E_Panic}) (pl_pool s) (pl_pool s'')"
    using run by (auto split: option.splits intro: pool_run.run_step)
  then show ?case
    using pooled_inv_step [OF pooled_then.hyps(2) inv] ok by blast
qed

text \<open>So what a caller gets is the answer to its request: the error of a closed channel, which only a
  panic produces, is ruled out by running the same steps with two different texts of it.\<close>

lemma pool_run_closed:
  "pool_run serve closed E p p' \<Longrightarrow> E_Panic \<notin> E \<Longrightarrow> pool_run serve closed' E p p'"
proof (induction rule: pool_run.induct)
  case (run_step q e r)
  from run_step(2) have "e = E_Panic \<or> pool_step serve closed' e q r"
    by (cases rule: pool_step.cases) (auto intro: pool_step.intros)
  then show ?case
    using run_step by (auto intro: pool_run.run_step)
qed (rule pool_run.run_refl)

lemma quiet_run_answer:
  assumes "pool_run answering closed (- {E_Panic}) p p'" and wf: "\<And>closed. pool_wf answering closed p"
    and "(req, Returned r) \<in> set (callers p')"
  shows "r = answer req"
proof -
  have "answer_ok answering closed' (req, Returned r)" for closed'
  proof -
    have "pool_wf answering closed' p'"
      using pool_wf_run [OF pool_run_closed [OF assms(1)] wf] by simp
    then show ?thesis
      using assms(3) by (auto simp: pool_wf_def calls_wf_def in_set_conv_nth)
  qed
  from this [of "''a''"] this [of "''b''"] show ?thesis
    by (auto simp: answer_ok_def closed_reply_def)
qed

text \<open>Every step of the abstract pool towards an answer is a run of the steps inside: the worker's call is
  driven to its end.\<close>

lemma call_to_the_end:
  assumes "serves_message j m s" and "ok (msg_request m)" and "pl_calls s j = Some (Running a)" and "inv (msg_request m) a"
  shows "\<exists>s' a'. pooled_run api factory closed {None} s s' \<and> pl_pool s' = pl_pool s \<and> pl_calls s' j = Some (Running a')
    \<and> ac_stage a' = Answered (answer (msg_request m))"
  using assms
proof (induction "stages_left (ac_stage a)" arbitrary: s a rule: less_induct)
  case less
  show ?case
  proof (cases "\<exists>r. ac_stage a = Answered r")
    case True
    then show ?thesis
      using call_answers less.prems pooled_run.pooled_refl by blast
  next
    case False
    then obtain a1 where step: "ac_step api (req_op (msg_request m)) (req_payload (msg_request m)) a Silent a1"
      and left: "stages_left (ac_stage a1) < stages_left (ac_stage a)" and open1: "ac_stage a1 \<noteq> Abandoned"
      using call_goes_on less.prems(2,4) by blast
    let ?s1 = "s\<lparr>pl_calls := (pl_calls s)(j \<mapsto> Running a1)\<rparr>"
    have go: "pooled_step api factory closed None s ?s1"
      by (rule pooled_step.call_step [OF less.prems(1,3) step open1])
    have "serves_message j m ?s1" "pl_calls ?s1 j = Some (Running a1)"
      using less.prems(1) by (simp_all add: serves_message_def)
    from less.hyps [OF left this(1) less.prems(2) this(2) call_stays [OF less.prems(2,4) step open1]]
    obtain s' a' where "pooled_run api factory closed {None} ?s1 s'" "pl_pool s' = pl_pool ?s1"
      "pl_calls s' j = Some (Running a')" "ac_stage a' = Answered (answer (msg_request m))"
      by blast
    then show ?thesis
      using pooled_run_cons [OF _ go] by auto
  qed
qed

text \<open>A worker that has the answer to \<open>req\<close>.\<close>

definition has_answer :: "request \<Rightarrow> ('g, 'w) worker_call option \<Rightarrow> bool" where
  "has_answer req w \<longleftrightarrow> (\<exists>a. w = Some (Running a) \<and> ac_stage a = Answered (answer req))
     \<or> (\<exists>e. w = Some (No_Context e) \<and> answer req = Inl (Context e))"

lemma serve_to_the_end:
  assumes inv: "pooled_inv s" and at: "serves_message j m s" and ok: "ok (msg_request m)"
  shows "\<exists>s'. pooled_run api factory closed {None} s s' \<and> pl_pool s' = pl_pool s \<and> has_answer (msg_request m) (pl_calls s' j)"
proof -
  obtain h w where h: "pl_hosts s j = Some h" "made h" and w: "pl_calls s j = Some w" "good_call (msg_request m) w"
    using pooled_invD [OF inv at] by blast
  have running: "\<exists>s'. pooled_run api factory closed {None} t s' \<and> pl_pool s' = pl_pool t \<and> has_answer (msg_request m) (pl_calls s' j)"
    if "serves_message j m t" "pl_calls t j = Some (Running a)" "inv (msg_request m) a" for t a
    unfolding has_answer_def using call_to_the_end [OF that(1) ok that(2,3)] by blast
  show ?thesis
  proof (cases w)
    case Received
    let ?ev = "\<lparr>world = undefined, stdout = [], in_runtime = True, spawned = [], module_count = 1, context_count = 1\<rparr> :: 'w env"
    obtain rc ms ev' where new: "WapcHost_call_async (wasmtime_engine api) h ?ev = Ret (rc, ms, ev')"
      and start: "case rc of Inl e \<Rightarrow> answer (msg_request m) = Inl (Context e) | Inr wc \<Rightarrow> inv (msg_request m) (ac_start wc ms ev')"
      using context_starts [OF h(2) ok, of ?ev] by auto
    let ?w1 = "case rc of Inl e \<Rightarrow> No_Context e | Inr wc \<Rightarrow> Running (ac_start wc ms ev')"
    let ?s1 = "s\<lparr>pl_calls := (pl_calls s)(j \<mapsto> ?w1)\<rparr>"
    have go: "pooled_step api factory closed None s ?s1"
      using pooled_step.context_made [OF at w(1) [unfolded Received] h(1) _ _ new] by simp
    show ?thesis
    proof (cases rc)
      case (Inl e)
      then have "has_answer (msg_request m) (pl_calls ?s1 j)"
        using start by (simp add: has_answer_def)
      then show ?thesis
        using pooled_single [OF go, of "{None}"] by (intro exI [of _ ?s1]) simp
    next
      case (Inr wc)
      then have "serves_message j m ?s1" "pl_calls ?s1 j = Some (Running (ac_start wc ms ev'))"
          "inv (msg_request m) (ac_start wc ms ev')"
        using at start by (simp_all add: serves_message_def)
      from running [OF this] obtain s' where "pooled_run api factory closed {None} ?s1 s'" "pl_pool s' = pl_pool s"
        "has_answer (msg_request m) (pl_calls s' j)"
        by auto
      then show ?thesis
        using pooled_run_cons [OF _ go] by auto
    qed
  next
    case (Running a)
    then show ?thesis
      using running [OF at] w by simp
  next
    case (No_Context e)
    then show ?thesis
      using w by (intro exI [of _ s]) (simp add: has_answer_def pooled_run.pooled_refl)
  qed
qed

lemma lift_step:
  assumes step: "pool_step answering closed e (pl_pool s) p'" and e: "e \<in> serving_events"
    and inv: "pooled_inv s" and ok: "\<And>j m. serves_message j m s \<Longrightarrow> ok (msg_request m)"
  shows "\<exists>s'. pooled_run api factory closed working_events s s' \<and> pl_pool s' = p'"
  using step
proof (cases rule: pool_step.cases)
  case (send c)
  then have "pool_step (\<lambda>_ _. False) closed E_Send (pl_pool s) p'"
    by (auto intro: pool_step.send)
  from pooled_single [OF pooled_step.around [OF this, of api factory]] show ?thesis
    by (intro exI [of _ "s\<lparr>pl_pool := p'\<rparr>"]) simp
next
  case (receive j)
  from pooled_single [OF pooled_step.received [OF receive(3-5), of api factory]] show ?thesis
    unfolding receive(2)
    by (intro exI [of _ "s\<lparr>pl_pool := worker_receive j (pl_pool s), pl_calls := (pl_calls s)(j \<mapsto> Received)\<rparr>"])
       simp
next
  case (reply j m r)
  then have at: "serves_message j m s"
    by (simp add: serves_message_def)
  obtain s1 where run: "pooled_run api factory closed {None} s s1" and same: "pl_pool s1 = pl_pool s"
    and call: "has_answer (msg_request m) (pl_calls s1 j)"
    using serve_to_the_end [OF inv at ok [OF at]] by blast
  have "serves_message j m s1"
    using at by (simp add: serves_message_def same)
  then have "pooled_step api factory closed (Some E_Reply) s1
      (s1\<lparr>pl_pool := worker_reply j m (answer (msg_request m)) (pl_pool s1), pl_calls := (pl_calls s1)(j := None)\<rparr>)"
    using call by (auto simp: has_answer_def intro: pooled_step.answered pooled_step.no_context)
  from pooled_single [OF this]
  have "pooled_run api factory closed working_events s1 (s1\<lparr>pl_pool := p', pl_calls := (pl_calls s1)(j := None)\<rparr>)"
    using reply same by simp
  from pooled_run_trans [OF this run] show ?thesis
    by (intro exI [of _ "s1\<lparr>pl_pool := p', pl_calls := (pl_calls s1)(j := None)\<rparr>"]) simp
qed (use e in auto)

lemma serving_requests:
  assumes "pool_run serve closed E p p'" and "E \<subseteq> serving_events"
  shows "requests p' = requests p"
  using assms
proof (induction rule: pool_run.induct)
  case (run_step q e r)
  from run_step(2) run_step have "requests r = requests q"
    by (cases rule: pool_step.cases) (auto simp: call_send_def worker_reply_def)
  then show ?case
    using run_step by simp
qed simp

lemma lift_run:
  assumes "pool_run answering closed serving_events (pl_pool s) p'"
    and "pooled_inv s" and "pool_wf answering closed (pl_pool s)" and ok: "set (requests (pl_pool s)) \<subseteq> Collect ok"
  shows "\<exists>s'. pooled_run api factory closed working_events s s' \<and> pl_pool s' = p'"
  using assms(1)
proof (induction rule: pool_run.induct)
  case run_refl
  then show ?case
    by (blast intro: pooled_run.pooled_refl)
next
  case (run_step q e r)
  then obtain s1 where run: "pooled_run api factory closed working_events s s1" and q: "pl_pool s1 = q"
    by blast
  have reqs: "set (requests (pl_pool s1)) \<subseteq> Collect ok"
    using serving_requests [OF run_step(1)] ok by (simp add: q)
  have "pool_run answering closed (- {E_Panic}) (pl_pool s) (pl_pool s1)" and inv: "pooled_inv s1"
    using pooled_run_refines [OF run assms(2,3) reqs] by auto
  then have wf: "pool_wf answering closed (pl_pool s1)"
    using pool_wf_run assms(3) by blast
  have "ok (msg_request m)" if "serves_message j m s1" for j m
    using served_in_place [OF wf that] reqs by blast
  then obtain s2 where "pooled_run api factory closed working_events s1 s2" "pl_pool s2 = r"
    using lift_step [OF run_step(2) [folded q] run_step(3) inv] by blast
  then show ?case
    using pooled_run_trans [OF _ run] by blast
qed

text \<open>What the pool promises its callers.\<close>

lemma pool_serves:
  assumes new: "HostPool_new accepts name n m wait idle = Ret p0"
    and run: "pooled_run api factory closed E (pooled_start p0) s"
    and ok: "set (requests (pl_pool s)) \<subseteq> Collect ok"
  shows "pool_run answering closed (- {E_Panic}) p0 (pl_pool s)
    \<and> (\<forall>req r. (req, Returned r) \<in> set (callers (pl_pool s)) \<longrightarrow> r = answer req)
    \<and> (alive (pl_pool s) \<longrightarrow> (\<exists>s'. pooled_run api factory closed working_events s s' \<and> settled (pl_pool s')
         \<and> length (callers (pl_pool s')) = length (callers (pl_pool s))))"
proof -
  have p0: "p0 = fresh_pool name n m wait idle"
    by (rule HostPool_new_Ret [OF new])
  have wf0: "pool_wf answering closed (pl_pool (pooled_start p0 :: ('g, 'w) pooled))" for closed
    by (simp add: pooled_start_def p0 pool_wf_fresh)
  have inv0: "pooled_inv (pooled_start p0)"
    unfolding p0 by (rule pooled_inv_start)
  have quiet: "pool_run answering closed (- {E_Panic}) p0 (pl_pool s)" and inv: "pooled_inv s"
    using pooled_run_refines [OF run inv0 wf0 ok] by (simp_all add: pooled_start_def)
  have wf: "pool_wf answering closed (pl_pool s)"
    using pool_wf_run [OF quiet] by (simp add: p0 pool_wf_fresh)
  have "r = answer req" if "(req, Returned r) \<in> set (callers (pl_pool s))" for req r
    by (rule quiet_run_answer [OF quiet _ that]) (simp add: p0 pool_wf_fresh)
  moreover have "\<exists>s'. pooled_run api factory closed working_events s s' \<and> settled (pl_pool s')
      \<and> length (callers (pl_pool s')) = length (callers (pl_pool s))" if live: "alive (pl_pool s)"
  proof -
    obtain p' where "pool_run answering closed serving_events (pl_pool s) p'" "settled p'"
      "length (callers p') = length (callers (pl_pool s))"
      using serving_run [OF wf live, of] by blast
    then show ?thesis
      using lift_run [OF _ inv wf ok] by blast
  qed
  ultimately show ?thesis
    using quiet by blast
qed

text \<open>A pool of one worker that answers one call.\<close>

lemma one_call_answered:
  assumes ok: "ok \<lparr>req_op = op, req_payload = payload\<rparr>"
  shows "\<exists>s. pooled_run api factory closed UNIV (pooled_start small_pool) s
    \<and> callers (pl_pool s) = [(\<lparr>req_op = op, req_payload = payload\<rparr>, Returned (answer \<lparr>req_op = op, req_payload = payload\<rparr>))]"
proof -
  let ?req = "\<lparr>req_op = op, req_payload = payload\<rparr>"
  let ?q0 = "call_start op payload small_pool" and ?run = "pooled_run api factory closed"
  let ?q1 = "set_job 0 Receiving ?q0"
  obtain h ev' where h: "factory
      \<lparr>world = undefined, stdout = [], in_runtime = True, spawned = [], module_count = 1, context_count = 1\<rparr> = Ret (h, ev')"
    using factory_makes by blast
  let ?s0 = "(pooled_start small_pool)\<lparr>pl_pool := ?q0\<rparr> :: ('g, 'w) pooled"
  let ?s1 = "?s0\<lparr>pl_pool := ?q1, pl_hosts := [0 \<mapsto> h]\<rparr>"
  have "pool_step (\<lambda>_ _. False) closed E_Call (pl_pool (pooled_start small_pool :: ('g, 'w) pooled)) ?q0"
    by (simp add: pooled_start_def pool_step.call)
  from pooled_single [OF pooled_step.around [OF this], of UNIV]
  have first: "?run UNIV (pooled_start small_pool) ?s0"
    by simp
  have "pooled_step api factory closed (Some E_Start) ?s0 ?s1"
    using pooled_step.host_made [where j = 0 and s = "?s0" and factory = factory, OF _ _ _ h]
    by (simp add: small_defs pooled_start_def)
  with first have run1: "?run UNIV (pooled_start small_pool) ?s1"
    by (rule pooled_run.pooled_then) simp
  have reqs: "set (requests (pl_pool ?s1)) \<subseteq> Collect ok"
    using ok by (simp add: requests_def small_defs)
  have wf0: "pool_wf answering closed (pl_pool (pooled_start small_pool :: ('g, 'w) pooled))"
    by (simp add: pooled_start_def small_pool_def pool_wf_fresh)
  have inv0: "pooled_inv (pooled_start small_pool)"
    unfolding small_pool_def by (rule pooled_inv_start)
  from pooled_run_refines [OF run1 inv0 wf0 reqs]
  have inv: "pooled_inv ?s1" and wf: "pool_wf answering closed (pl_pool ?s1)"
    using pool_wf_run [OF _ wf0] by blast+
  let ?q2 = "call_send 0 ?q1" let ?q3 = "worker_receive 0 ?q2"
  let ?q4 = "worker_reply 0 \<lparr>reply_to = 0, msg_request = ?req\<rparr> (answer ?req) ?q3"
  have "pool_run answering closed serving_events ?q1 ?q4"
    by (rule pool_run.run_step [OF pool_run.run_step [OF pool_run.run_step [OF pool_run.run_refl
          pool_step.send] pool_step.receive] pool_step.reply])
       (simp_all add: small_defs)
  then have "pool_run answering closed serving_events (pl_pool ?s1) ?q4"
    by simp
  from lift_run [OF this inv wf reqs] obtain s where
    "?run working_events ?s1 s" and s: "pl_pool s = ?q4"
    by blast
  then have "?run UNIV (pooled_start small_pool) s"
    using pooled_run_trans [OF _ run1] by blast
  moreover have "callers ?q4 = [(?req, Returned (answer ?req))]"
    by (simp add: small_defs)
  ultimately show ?thesis
    using s by auto
qed

end

subsection \<open>Pools of hosts that settle their calls\<close>

text \<open>The contract holds for the hosts the example's factory makes of a provider, and for the requests that
  the provider's guest settles.\<close>

definition settled_request ::
    "'w itself \<Rightarrow> 'g wasmtime_api \<Rightarrow> (i32 \<Rightarrow> i32 \<Rightarrow> i32 \<Rightarrow> ('g, unit) guest_prog) \<Rightarrow> ('g, unit) guest_prog
     \<Rightarrow> 'g wasmtime_provider \<Rightarrow> 'g winst \<Rightarrow> (request \<Rightarrow> wapc_error + bytes) \<Rightarrow> request \<Rightarrow> bool" where
  "settled_request w api call init p i A req \<longleftrightarrow> async_guest api call init p
     \<and> (\<forall>ms :: 'w module_state. ms_wf ms \<longrightarrow> initialises (wp_module p) i ms
          \<and> settles api (wp_module p) i (req_op req) (req_payload req) ms (A req))"

definition pool_call_inv ::
    "'g wasmtime_provider \<Rightarrow> 'g winst \<Rightarrow> (request \<Rightarrow> wapc_error + bytes) \<Rightarrow> request \<Rightarrow> ('g, 'w) async_call \<Rightarrow> bool" where
  "pool_call_inv p i A req a \<longleftrightarrow> ac_stage a \<noteq> Abandoned
     \<and> (\<exists>h :: ('g wasmtime_provider, 'w) wapc_host. on_course (wp_module p) i (first_state h) (A req) a)"

lemma settled_requestD:
  fixes h :: "('g wasmtime_provider, 'w) wapc_host"
  assumes "settled_request TYPE('w) api call init p i A req"
  shows "async_guest api call init p" and "initialises (wp_module p) i (first_state h)"
    and "settles api (wp_module p) i (req_op req) (req_payload req) (first_state h) (A req)"
  using assms by (simp_all add: settled_request_def)

lemma clone_factory_eq:
  "\<exists>h ev'. clone_factory api p sync async ev = Ret (h, ev') \<and> engine h = p"
  by (simp add: clone_factory_def WapcHost_new_def next_id_def initialize_def default_engine_init_def)

lemma on_course_safe:
  assumes "initialises m i ms" and "settles api m i (req_op req) (req_payload req) ms r" and "on_course m i ms r a"
  shows "\<not> call_panics api req a"
proof
  assume "call_panics api req a"
  then show False
    unfolding call_panics_def
  proof (elim disjE conjE exE)
    fix q
    assume "ac_stage a = Unpolled" and panic: "wasmtime_context_init (ac_context a) (ac_state a)
        ((ac_env a)\<lparr>context_count := context_count (ac_env a) + 1\<rparr>) = Panic q"
    then have "ac_context a = \<lparr>wc_module = m, wc_inst = m_instance m\<rparr>" "ac_state a = ms"
      using assms(3) by (simp_all add: on_course_def)
    with panic assms(1) show False
      by (simp add: initialises_def)
  next
    fix k q
    assume "ac_stage a = Yielded k" and panic: "call_async_run (wasmtime_engine api)
        \<lparr>wcc_context = ac_context a, wcc_id = k\<rparr> (req_op req) (req_payload req) (ac_state a) (ac_env a) = Panic q"
    then have "ac_context a = \<lparr>wc_module = m, wc_inst = i\<rparr>" "ac_state a = ms"
      using assms(3) by (simp_all add: on_course_def)
    moreover obtain x where "call_async_run (wasmtime_engine api) \<lparr>wcc_context = \<lparr>wc_module = m, wc_inst = i\<rparr>, wcc_id = k\<rparr>
        (req_op req) (req_payload req) ms (ac_env a) = Ret x"
      using assms(2) unfolding settles_def by meson
    ultimately show False
      using panic by simp
  qed
qed

interpretation pool_service: call_service api "clone_factory api p sync async" "\<lambda>h. engine h = p"
    "settled_request TYPE('w) api call init p i A" A "pool_call_inv p i A"
  for api :: "'g wasmtime_api" and p :: "'g wasmtime_provider" and sync async :: "'w host_callback option"
    and call init i A
proof
  fix ev :: "'w env"
  show "\<exists>h ev'. clone_factory api p sync async ev = Ret (h, ev') \<and> engine h = p"
    by (rule clone_factory_eq)
next
  fix h :: "('g wasmtime_provider, 'w) wapc_host" and req and ev :: "'w env"
  assume made: "engine h = p" and ok: "settled_request TYPE('w) api call init p i A req"
    and "in_runtime ev" "spawned ev = []"
  then have "WapcHost_call_async (wasmtime_engine api) h ev = Ret (Inr (first_context p), first_state h, ev)"
    and "on_course (wp_module p) i (first_state h) (A req) (ac_start (first_context p) (first_state h) ev)"
    using async_guest_context [of api call init h ev] settled_requestD(1) [OF ok]
    by (auto simp: on_course_def ac_start_def)
  then show "\<exists>rc ms ev'. WapcHost_call_async (wasmtime_engine api) h ev = Ret (rc, ms, ev')
      \<and> (case rc of Inl e \<Rightarrow> A req = Inl (Context e) | Inr wc \<Rightarrow> pool_call_inv p i A req (ac_start wc ms ev'))"
    by (auto simp: pool_call_inv_def) (simp add: ac_start_def)
next
  fix req e and a a' :: "('g, 'w) async_call"
  assume ok: "settled_request TYPE('w) api call init p i A req" and "pool_call_inv p i A req a"
    and step: "ac_step api (req_op req) (req_payload req) a e a'" and open': "ac_stage a' \<noteq> Abandoned"
  then show "pool_call_inv p i A req a'"
    using on_course_step [OF step settled_requestD(2,3) [OF ok]] by (auto simp: pool_call_inv_def)
next
  fix req and a :: "('g, 'w) async_call"
  assume ok: "settled_request TYPE('w) api call init p i A req" and inv: "pool_call_inv p i A req a"
  obtain h :: "('g wasmtime_provider, 'w) wapc_host" where course: "on_course (wp_module p) i (first_state h) (A req) a"
    using inv by (auto simp: pool_call_inv_def)
  note settled = settled_requestD(2,3) [OF ok, of h]
  show "\<not> call_panics api req a"
    by (rule on_course_safe [OF settled course])
  show "r = A req" if "ac_stage a = Answered r" for r
    using on_course_answer [OF course that] .
  show "\<exists>a'. ac_step api (req_op req) (req_payload req) a Silent a' \<and> stages_left (ac_stage a') < stages_left (ac_stage a)
      \<and> ac_stage a' \<noteq> Abandoned" if "\<And>r. ac_stage a \<noteq> Answered r"
    using on_course_progress [OF settled course] that inv by (auto simp: context_dropped_def pool_call_inv_def)
qed

text \<open>A module that settles a request whatever the module state, and is initialised to \<open>i\<close>.\<close>

lemma settled_requestI:
  assumes "async_guest api call init p"
    and "\<And>ms (ev :: 'w env). run_guest init \<lparr>inst = m_instance (wp_module p), mstate = ms, env = ev\<rparr>
        = Ret (Inr (), \<lparr>inst = i, mstate = ms, env = ev\<rparr>)"
    and "\<And>ms :: 'w module_state. ms_wf ms \<Longrightarrow> settles api (wp_module p) i (req_op req) (req_payload req) ms (A req)"
  shows "settled_request TYPE('w) api call init p i A req"
  using assms async_guest_initialises [OF assms(1,2)] by (simp add: settled_request_def)

lemmas one_call_served = pool_service.one_call_answered

text \<open>C5: a pool whose workers host a guest with a dispatcher serves remote procedure calls. Whatever the
  interleaving of callers, workers and tasks, its run is one of the pool of \<open>Host_Pool\<close> in which no
  worker panics, a call that returns gets what the dispatcher answers to
  its own operation and payload, never the error of a closed channel; and as long as a worker is
  alive every call can be brought to its end by the steps of callers and workers alone.\<close>

theorem pool_serves_dispatcher:
  fixes s :: "(('t, 'u) async_statics sdk, 'w) pooled"
  assumes new: "HostPool_new accepts name k m wait idle = Ret p0"
    and run: "pooled_run api (clone_factory api p sync async) closed E (pooled_start p0) s"
    and sdk: "async_guest api (async_guest_call rt turns) init p" and turns: "n < turns"
    and init: "\<And>ms (ev :: 'w env). run_guest init \<lparr>inst = m_instance (wp_module p), mstate = ms, env = ev\<rparr>
        = Ret (Inr (), \<lparr>inst = i, mstate = ms, env = ev\<rparr>)"
    and heap: "async_heap rt hv" "hv_ok hv i" and progress: "executor_progress rt" and idle: "sdk_idle d i"
    and answers: "\<And>req. req \<in> set (requests (pl_pool s)) \<Longrightarrow>
        dispatcher_answers TYPE('w) rt hv cost n d (req_op req) (req_payload req) (D req)"
    and fits: "\<And>req. req \<in> set (requests (pl_pool s)) \<Longrightarrow>
        async_call_fits hv cost n (req_op req) (req_payload req) (D req) i"
    and valid: "\<And>req e. req \<in> set (requests (pl_pool s)) \<Longrightarrow> D req = Inl e \<Longrightarrow> rust_str e"
    and op: "\<And>req. req \<in> set (requests (pl_pool s)) \<Longrightarrow> rust_str (req_op req)"
  shows "pool_run (\<lambda>req r. r = wrap_call_error (map_err GuestCallFailure (D req))) closed (- {E_Panic}) p0 (pl_pool s)
    \<and> (\<forall>req r. (req, Returned r) \<in> set (callers (pl_pool s)) \<longrightarrow>
           r = wrap_call_error (map_err GuestCallFailure (D req)))
    \<and> (alive (pl_pool s) \<longrightarrow> (\<exists>s'. pooled_run api (clone_factory api p sync async) closed working_events s s'
         \<and> settled (pl_pool s') \<and> length (callers (pl_pool s')) = length (callers (pl_pool s))))"
proof -
  let ?A = "\<lambda>req. wrap_call_error (map_err GuestCallFailure (D req))"
  have "settled_request TYPE('w) api (async_guest_call rt turns) init p i ?A req"
    if "req \<in> set (requests (pl_pool s))" for req
    by (rule settled_requestI [OF sdk init])
       (rule sdk_settles [OF sdk turns heap progress answers [OF that] idle _ fits [OF that] valid [OF that] op [OF that]])
  then have "set (requests (pl_pool s)) \<subseteq> Collect (settled_request TYPE('w) api (async_guest_call rt turns) init p i ?A)"
    by blast
  from pool_service.pool_serves [OF new run this] show ?thesis .
qed

text \<open>C24: a pool does not reach the functions a guest registers for synchronous calls: it serves every
  message with an asynchronous call, and a guest without a dispatcher traps in it, so every call that
  returns is an error, whatever is in the guest's registry.\<close>

theorem pool_ignores_sync_handlers:
  fixes s :: "(('t, 'u) async_statics sdk, 'w) pooled"
  assumes new: "HostPool_new accepts name k m wait idle = Ret p0"
    and run: "pooled_run api (clone_factory api p sync async) closed E (pooled_start p0) s"
    and sdk: "async_guest api (async_guest_call rt turns) init p"
    and init: "\<And>ms (ev :: 'w env). run_guest init \<lparr>inst = m_instance (wp_module p), mstate = ms, env = ev\<rparr>
        = Ret (Inr (), \<lparr>inst = i, mstate = ms, env = ev\<rparr>)"
    and heap: "async_heap rt hv" "hv_ok hv i" and none: "dispatcher (statics i) = None"
    and small: "\<And>req. req \<in> set (requests (pl_pool s)) \<Longrightarrow> length (req_op req) < 2 ^ 31 \<and> length (req_payload req) < 2 ^ 31"
    and room: "\<And>req. req \<in> set (requests (pl_pool s)) \<Longrightarrow>
        hv_cost hv (length (req_payload req)) + hv_cost hv (length (req_op req)) \<le> hv_room hv i"
    and returned: "(req, Returned r) \<in> set (callers (pl_pool s))"
  shows "r = Inl (GuestCallFailure (''Guest call failure: '' @ trap_unwrap rt))"
proof -
  have "settled_request TYPE('w) api (async_guest_call rt turns) init p i (\<lambda>_. trap_reply (trap_unwrap rt)) req"
    if "req \<in> set (requests (pl_pool s))" for req
    by (rule settled_requestI [OF sdk init])
       (rule no_dispatcher_settles [OF sdk heap none _ conjunct1 [OF small [OF that]] conjunct2 [OF small [OF that]]
          room [OF that]])
  then have "set (requests (pl_pool s)) \<subseteq>
      Collect (settled_request TYPE('w) api (async_guest_call rt turns) init p i (\<lambda>_. trap_reply (trap_unwrap rt)))"
    by blast
  from pool_service.pool_serves [OF new run this] returned show ?thesis
    by blast
qed

text \<open>The hosts of a guest that makes host calls through the SDK keep the contract as well: no context is
  ever made of them, and that is their answer.\<close>

definition sdk_unlinked :: "'g wasmtime_api \<Rightarrow> 'g wasmtime_provider \<Rightarrow> bool" where
  "sdk_unlinked api p \<longleftrightarrow> (\<exists>e \<in> {HostCall, AsyncHostCall}. imports_sdk (wp_module p) e)
     \<and> first_taken (wp_linker p) = None \<and> new_store api (wp_wasi_params p) = Inr ()"

interpretation unlinked_pool: call_service api "clone_factory api p sync async" "\<lambda>h. engine h = p"
    "\<lambda>_. sdk_unlinked api p" "\<lambda>_. Inl (Context (msg_bad_import api (wp_module p)))" "\<lambda>_ _. False"
  for api :: "'g wasmtime_api" and p :: "'g wasmtime_provider" and sync async :: "'w host_callback option"
proof
  fix ev :: "'w env"
  show "\<exists>h ev'. clone_factory api p sync async ev = Ret (h, ev') \<and> engine h = p"
    by (rule clone_factory_eq)
next
  fix h :: "('g wasmtime_provider, 'w) wapc_host" and ev :: "'w env"
  assume made: "engine h = p" and "sdk_unlinked api p"
  then obtain e where "imports_sdk (wp_module p) e" "e = HostCall \<or> e = AsyncHostCall"
      "first_taken (wp_linker p) = None" "new_store api (wp_wasi_params p) = Inr ()"
    by (auto simp: sdk_unlinked_def)
  then have "wasmtime_new_context api p (first_state h) ev
      = Ret (Inl (msg_bad_import api (wp_module p)), first_state h, ev)"
    by (rule unlinked_context_fails)
  with made show "\<exists>rc ms ev'. WapcHost_call_async (wasmtime_engine api) h ev = Ret (rc, ms, ev')
      \<and> (case rc of Inl e \<Rightarrow> Inl (Context (msg_bad_import api (wp_module p))) = (Inl (Context e) :: wapc_error + bytes)
         | Inr wc \<Rightarrow> False)"
    by (intro exI [of _ "Inl (msg_bad_import api (wp_module p))"] exI [of _ "first_state h"] exI [of _ ev])
       (simp add: WapcHost_call_async_def)
qed simp_all

text \<open>C25: the pool of the example and of its test, whose guest is the test guest, answers no call: that
  guest imports \<open>__async_host_call\<close> as the SDK declares it, and no worker can make a context of it.
  Whatever the interleaving, no worker panics, every call that returns is the error of the context, and
  as long as a worker is alive every call can be brought to this end.\<close>

theorem unlinked_pool_fails:
  fixes s :: "('g, 'w) pooled"
  assumes new: "HostPool_new accepts name k m wait idle = Ret p0"
    and run: "pooled_run api (clone_factory api p sync async) closed E (pooled_start p0) s"
    and unlinked: "sdk_unlinked api p"
  shows "pool_run (\<lambda>req r. r = Inl (Context (msg_bad_import api (wp_module p)))) closed (- {E_Panic}) p0 (pl_pool s)
    \<and> (\<forall>req r. (req, Returned r) \<in> set (callers (pl_pool s)) \<longrightarrow> r = Inl (Context (msg_bad_import api (wp_module p))))
    \<and> (alive (pl_pool s) \<longrightarrow> (\<exists>s'. pooled_run api (clone_factory api p sync async) closed working_events s s'
         \<and> settled (pl_pool s') \<and> length (callers (pl_pool s')) = length (callers (pl_pool s))))"
proof -
  have "set (requests (pl_pool s)) \<subseteq> Collect (\<lambda>_. sdk_unlinked api p)"
    using unlinked by simp
  from unlinked_pool.pool_serves [OF new run this] show ?thesis .
qed

text \<open>A guest with the same dispatcher that does link fails the call as well: the dispatcher knows
  \<open>async_echo\<close> only and panics at \<open>echo\<close>, the name of the function for synchronous calls.\<close>

lemma linked_pool_echo_fails:
  fixes s :: "(('f echo_future, 'u) async_statics sdk, 'w) pooled" and ea :: "('f, 'u) echo_async"
  assumes new: "HostPool_new accepts name k m wait idle = Ret p0"
    and run: "pooled_run api (clone_factory api p sync async) closed E (pooled_start p0) s"
    and sdk: "async_guest api (async_guest_call rt turns) init p" and turns: "0 < turns"
    and init: "\<And>ms (ev :: 'w env). run_guest init \<lparr>inst = m_instance (wp_module p), mstate = ms, env = ev\<rparr>
        = Ret (Inr (), \<lparr>inst = i, mstate = ms, env = ev\<rparr>)"
    and heap: "async_heap rt hv" "hv_ok hv i" and progress: "executor_progress rt" and idle: "sdk_idle d i"
    and runs: "runs_dispatcher rt ea"
    and echo: "\<And>req. req \<in> set (requests (pl_pool s)) \<Longrightarrow> req_op req = ''echo'' \<and> length (req_payload req) < 2 ^ 31"
    and room: "\<And>req. req \<in> set (requests (pl_pool s)) \<Longrightarrow>
        hv_cost hv (length (req_payload req)) + hv_cost hv (length ''echo'') \<le> hv_room hv i"
    and returned: "(req, Returned r) \<in> set (callers (pl_pool s))"
  shows "r = Inl (GuestCallFailure (''Guest call failure: '' @ ea_trap_panic ea ''operation echo not found''))"
proof -
  let ?A = "\<lambda>req :: request. trap_reply (ea_trap_panic ea ''operation echo not found'')"
  have valid: "rust_str ''echo''"
    by (simp add: rust_str_def as_bytes_def u8_of_char_def utf8_width_def in_range_def)
  have panics: "run_guest (poll_call_task rt (Call_Start d j (as_bytes ''echo'') payload)) c
      = Ret (Inl (ea_trap_panic ea ''operation echo not found''), c)" for j payload and c :: "(('f echo_future, 'u) async_statics sdk, 'w) cx"
    using unknown_operation_traps [OF runs valid] by simp
  have "settled_request TYPE('w) api (async_guest_call rt turns) init p i ?A req"
    if "req \<in> set (requests (pl_pool s))" for req
  proof (rule settled_requestI [OF sdk init])
    fix ms :: "'w module_state"
    assume wf: "ms_wf ms"
    have "settles api (wp_module p) i ''echo'' (req_payload req) ms (?A req)"
      by (rule dispatch_panic_settles [OF sdk turns heap progress idle wf _ _ _ panics])
         (use echo [OF that] room [OF that] in simp_all)
    then show "settles api (wp_module p) i (req_op req) (req_payload req) ms (?A req)"
      using echo [OF that] by simp
  qed
  then have "set (requests (pl_pool s)) \<subseteq> Collect (settled_request TYPE('w) api (async_guest_call rt turns) init p i ?A)"
    by blast
  from pool_service.pool_serves [OF new run this] returned show ?thesis
    by blast
qed

subsection \<open>Small pools\<close>

abbreviation echo_call :: "bytes \<Rightarrow> request" where
  "echo_call payload \<equiv> \<lparr>req_op = ''echo'', req_payload = payload\<rparr>"

lemma echo_str: "rust_str ''echo''"
  by (simp add: rust_str_def as_bytes_def u8_of_char_def utf8_width_def in_range_def)

theorem pool_serves_dispatcher_witness:
  "\<exists>s. pooled_run late_api (clone_factory late_api late_provider None None) ''closed'' UNIV (pooled_start small_pool) s
     \<and> callers (pl_pool (s :: (_, nat) pooled)) = [(echo_call [7], Returned (Inr [7]))]"
proof -
  let ?D = "\<lambda>req. yield_answer (req_op req) (req_payload req)"
  let ?A = "\<lambda>req. wrap_call_error (map_err GuestCallFailure (?D req))"
  have fits: "async_call_fits yield_view 0 2 ''echo'' [7] (yield_answer ''echo'' [7]) yield_instance"
    by (rule late_fits) simp_all
  have valid: "rust_str e" if "yield_answer ''echo'' [7] = Inl e" for e
    using that by (simp add: yield_answer_def)
  have two: "2 < (3 :: nat)"
    by simp
  have "settled_request TYPE(nat) late_api (async_guest_call yield_rt 3) (register_dispatcher 0) late_provider
      yield_instance ?A (echo_call [7])"
    by (rule settled_requestI [OF late_guest late_ready])
       (use sdk_settles [OF late_guest two yield_heap late_contract(1) yield_progress yield_dispatcher late_contract(2)
          _ fits valid echo_str] in simp)
  from one_call_served [OF this, of None None "''closed''"] obtain s :: "((yielding, nat) async_statics sdk, nat) pooled"
    where run: "pooled_run late_api (clone_factory late_api late_provider None None) ''closed'' UNIV (pooled_start small_pool) s"
      and callers: "callers (pl_pool s) = [(echo_call [7], Returned (?A (echo_call [7])))]"
    by blast
  have only: "req = echo_call [7]" if "req \<in> set (requests (pl_pool s))" for req
    using that callers by (simp add: requests_def)
  then have fits': "async_call_fits yield_view 0 2 (req_op req) (req_payload req) (?D req) yield_instance"
    and valid': "?D req = Inl e \<Longrightarrow> rust_str e" and op': "rust_str (req_op req)"
    if "req \<in> set (requests (pl_pool s))" for req e
    using only [OF that] fits valid echo_str by (simp_all only: request.select_convs)
  have "\<forall>req r. (req, Returned r) \<in> set (callers (pl_pool s)) \<longrightarrow> r = ?A req"
    by (rule conjunct1 [OF conjunct2 [OF pool_serves_dispatcher [OF small_new run late_guest two late_ready yield_heap
          late_contract(1) yield_progress late_contract(2) yield_dispatcher fits' valid' op']]])
  moreover have "?A (echo_call [7]) = Inr [7]"
    by (simp add: yield_answer_def wrap_call_error_def)
  ultimately show ?thesis
    using run callers by auto
qed

text \<open>A guest that registers \<open>echo\<close> for synchronous calls and sets no dispatcher.\<close>

definition sync_regs :: "(string \<times> nat) list" where
  "sync_regs = [(''echo'', 0)]"

definition sync_module :: "(yielding, nat) async_statics sdk wasm_module" where
  "sync_module =
     \<lparr>m_imports = [],
      m_exports =
        [''__guest_call'' \<mapsto> Export_3_1 (guest_call (sync_rt yield_rt)),
         ''__async_guest_call'' \<mapsto> Export_3_0 (async_guest_call yield_rt 3),
         ''wapc_init'' \<mapsto> Export_0_0 (register_all (sync_rt yield_rt) sync_regs),
         ''__host_call_response_ready'' \<mapsto> Export_2_0 (host_call_response_ready yield_rt 3)],
      m_instance = late_instance, m_start = None\<rparr>"

definition sync_provider :: "(yielding, nat) async_statics sdk wasmtime_provider" where
  "sync_provider = \<lparr>wp_module = sync_module, wp_linker = Map.empty, wp_wasi_params = None\<rparr>"

definition sync_ready :: "(yielding, nat) async_inst" where
  "sync_ready = late_instance\<lparr>wstate := (wstate late_instance)\<lparr>registry := registered sync_regs\<rparr>\<rparr>"

lemma sync_guest:
  "async_guest late_api (async_guest_call yield_rt 3) (register_all (sync_rt yield_rt) sync_regs) sync_provider"
  by (simp add: async_guest_def new_store_def late_api_def sync_provider_def sync_module_def
      get_func_2_0_def get_func_3_0_def get_func_0_0_def guest_name_defs)

lemma late_statics:
  "registry (wstate late_instance) = Map.empty" "\<not> registry_locked (wstate late_instance)"
  by (simp_all add: late_instance_def yield_instance_def)

lemma sync_init:
  "run_guest (register_all (sync_rt yield_rt) sync_regs)
     \<lparr>inst = m_instance (wp_module sync_provider), mstate = ms, env = ev\<rparr>
   = Ret (Inr (), \<lparr>inst = sync_ready, mstate = ms, env = ev\<rparr>)"
  using late_statics by (simp add: run_register_all sync_provider_def sync_module_def sync_ready_def)

lemma sync_contract: "hv_ok yield_view sync_ready" "dispatcher (statics sync_ready) = None"
  by (simp_all add: sync_ready_def late_instance_def set_statics_def yield_instance_def bump_heap_def)

theorem pool_ignores_sync_handlers_witness:
  "\<exists>s. pooled_run late_api (clone_factory late_api sync_provider None None) ''closed'' UNIV (pooled_start small_pool) s
     \<and> callers (pl_pool (s :: (_, nat) pooled)) =
         [(echo_call [7], Returned (Inl (GuestCallFailure ''Guest call failure: unwrap on None'')))]"
proof -
  have room: "hv_cost yield_view (length [7 :: u8]) + hv_cost yield_view (length ''echo'') \<le> hv_room yield_view sync_ready"
    by (simp add: bump_heap_def sync_ready_def late_instance_def set_statics_def yield_instance_def)
  have "settled_request TYPE(nat) late_api (async_guest_call yield_rt 3) (register_all (sync_rt yield_rt) sync_regs)
      sync_provider sync_ready (\<lambda>_. trap_reply (trap_unwrap yield_rt)) (echo_call [7])"
    by (rule settled_requestI [OF sync_guest sync_init])
       (use no_dispatcher_settles [OF sync_guest yield_heap sync_contract _ _ _ room] in simp)
  from one_call_served [OF this, of None None "''closed''"] obtain s :: "((yielding, nat) async_statics sdk, nat) pooled"
    where run: "pooled_run late_api (clone_factory late_api sync_provider None None) ''closed'' UNIV (pooled_start small_pool) s"
      and callers: "callers (pl_pool s) = [(echo_call [7], Returned (trap_reply (trap_unwrap yield_rt)))]"
    by blast
  have only: "req = echo_call [7]" if "req \<in> set (requests (pl_pool s))" for req
    using that callers by (simp add: requests_def)
  then have small': "length (req_op req) < 2 ^ 31 \<and> length (req_payload req) < 2 ^ 31"
    and room': "hv_cost yield_view (length (req_payload req)) + hv_cost yield_view (length (req_op req)) \<le> hv_room yield_view sync_ready"
    if "req \<in> set (requests (pl_pool s))" for req
    using only [OF that] room by simp_all
  have returned: "(echo_call [7], Returned (trap_reply (trap_unwrap yield_rt))) \<in> set (callers (pl_pool s))"
    by (simp add: callers)
  have "trap_reply (trap_unwrap yield_rt) = Inl (GuestCallFailure (''Guest call failure: '' @ trap_unwrap yield_rt))"
    by (rule pool_ignores_sync_handlers [OF small_new run sync_guest sync_init yield_heap sync_contract small' room' returned])
  then show ?thesis
    using run callers by (auto simp: yield_rt_def)
qed

text \<open>A guest that imports the host functions as the SDK declares them.\<close>

definition unlinked_provider :: "(yielding, nat) async_statics sdk wasmtime_provider" where
  "unlinked_provider = late_provider
     \<lparr>wp_module := late_module\<lparr>m_imports := map (\<lambda>e. (wapc_key e, sdk_import_type e)) host_exports_iter\<rparr>\<rparr>"

lemma unlinked_late: "sdk_unlinked late_api unlinked_provider"
  by (simp add: sdk_unlinked_def imports_sdk_def unlinked_provider_def late_provider_def new_store_def late_api_def
      host_exports_iter_def)

theorem unlinked_pool_fails_witness:
  "\<exists>s. pooled_run late_api (clone_factory late_api unlinked_provider None None) ''closed'' UNIV (pooled_start small_pool) s
     \<and> callers (pl_pool (s :: (_, nat) pooled)) = [(echo_call [104, 105], Returned (Inl (Context ''unknown import'')))]"
proof -
  let ?r = "Inl (Context (msg_bad_import late_api (wp_module unlinked_provider))) :: wapc_error + bytes"
  obtain s :: "((yielding, nat) async_statics sdk, nat) pooled"
    where run: "pooled_run late_api (clone_factory late_api unlinked_provider None None) ''closed'' UNIV (pooled_start small_pool) s"
      and callers: "callers (pl_pool s) = [(echo_call [104, 105], Returned ?r)]"
    using unlinked_pool.one_call_answered [OF unlinked_late, of None None "''closed''"] by blast
  have msg: "msg_bad_import late_api m = ''unknown import''" for m
    by (simp add: late_api_def)
  moreover have "\<forall>req r. (req, Returned r) \<in> set (callers (pl_pool s)) \<longrightarrow> r = ?r"
    using unlinked_pool_fails [OF small_new run unlinked_late] by blast
  ultimately show ?thesis
    using run callers unfolding msg by auto
qed

end
