(* ===== verification/Demos.thy ===== *)
theory Demos
  imports Call_Isolation Pool_Hosts Wasm3_Provider
begin

text \<open>
  The programs the repository shows its libraries with: the guests \<open>wasm/crates/wasm-basic\<close> and
  \<open>wasm/crates/wasi-basic\<close>, the hosts \<open>crates/wasmtime-provider/examples/wasmtime-demo.rs\<close> and
  \<open>crates/wasm3-provider/examples/wasm3-demo.rs\<close>, the pool of
  \<open>crates/wapc-pool/examples/pool.rs\<close> and the round trip of \<open>crates/wapc-codec/examples/roundtrip.rs\<close>.

  \<^item> The file system, the arguments and the clock of a program are parameters; starting the logger is
    left out.
  \<^item> On \<open>wasm32-wasi\<close> \<open>println!\<close> goes through the WASI library, so what \<open>wasi-basic\<close> prints is left out.
  \<^item> \<open>wasm3-demo.rs\<close> is written for the older \<open>wapc\<close> of the wasm3 provider: it hands \<open>WapcHost::new\<close> an
    engine and a callback of other types than the host of this repository takes. The host it uses is the
    record \<open>legacy_host\<close>, a parameter.
\<close>

subsection \<open>The demo guests\<close>

text \<open>The end of both handlers: the host call, whose response is dropped, and the copy of the payload.
  \<open>lits\<close> are the slices of the three literals, \<open>m\<close> that of the payload.\<close>

definition pong :: "'u guest_rt \<Rightarrow> slice \<times> slice \<times> slice \<Rightarrow> slice \<Rightarrow> ('u, host_result) sdk_prog" where
  "pong rt lits m = (case lits of (binding, ns, op) \<Rightarrow>
     gbind (host_call rt binding ns op m) (\<lambda>r.
       GRet (case r of Inl e \<Rightarrow> Inl (error_kind_to_string e) | Inr _ \<Rightarrow> Inr (snd m))))"

definition ping_line :: "string \<Rightarrow> string" where
  "ping_line s = ''IN_WASM: Received request for `ping` operation with payload : '' @ s"

definition wasm_ping ::
    "'u guest_rt \<Rightarrow> string \<Rightarrow> slice \<times> slice \<times> slice \<Rightarrow> slice \<Rightarrow> ('u, host_result) sdk_prog" where
  "wasm_ping rt trap_unwrap_err lits m =
     (case from_utf8 (snd m) of
        None \<Rightarrow> GTrap trap_unwrap_err
      | Some s \<Rightarrow>
          gbind (place rt (as_bytes (ping_line s))) (\<lambda>p.
          gbind (console_log (p, as_bytes (ping_line s))) (\<lambda>_. pong rt lits m)))"

definition wasi_ping ::
    "'u guest_rt \<Rightarrow> string \<Rightarrow> slice \<times> slice \<times> slice \<Rightarrow> slice \<Rightarrow> ('u, host_result) sdk_prog" where
  "wasi_ping rt trap_unwrap_err lits m =
     (case from_utf8 (snd m) of
        None \<Rightarrow> GTrap trap_unwrap_err
      | Some s \<Rightarrow> pong rt lits m)"

text \<open>Their \<open>wapc_init\<close>; \<open>f\<close> is the pointer of \<open>ping\<close>.\<close>

definition wasm_wapc_init :: "'u guest_rt \<Rightarrow> nat \<Rightarrow> ('u, unit) sdk_prog" where
  "wasm_wapc_init rt f = register_function rt ''ping'' f"

definition wasi_wapc_init :: "'u guest_rt \<Rightarrow> nat \<Rightarrow> ('u, unit) sdk_prog" where
  "wasi_wapc_init rt f = register_function rt ''ping'' f"

text \<open>A payload that is not UTF-8 traps before anything is printed or called.\<close>

lemma ping_invalid:
  "from_utf8 (snd m) = None \<Longrightarrow> wasm_ping rt t lits m = GTrap t \<and> wasi_ping rt t lits m = GTrap t"
  by (simp add: wasm_ping_def wasi_ping_def)

text \<open>The results a program can end with, whatever it reads and whatever the host answers; so it is
  decided which host functions a guest's code calls.\<close>

primrec results :: "('g, 'r) guest_prog \<Rightarrow> 'r set" where
  "results (GRet x) = {x}"
| "results (GTrap m) = {}"
| "results (GGet k) = (\<Union>i. results (k i))"
| "results (GPut i p) = results p"
| "results (GCall e ps k) = (\<Union>r. results (k r))"

lemma results_gbind [simp]: "results (gbind p f) = (\<Union>x \<in> results p. results (f x))"
  by (induction p) auto

lemma avoids_gbind_iff: "avoids E (gbind p f) \<longleftrightarrow> avoids E p \<and> (\<forall>x \<in> results p. avoids E (f x))"
  by (induction p) auto

lemma calls_gbind: "x \<in> results p \<Longrightarrow> \<not> avoids E (f x) \<Longrightarrow> \<not> avoids E (gbind p f)"
  by (auto simp: avoids_gbind_iff)

lemma results_with_capacity:
  "results (with_capacity rt n) = (if n = 0 then {1} else if 2 ^ 31 \<le> n then {}
     else {p. \<exists>i i'. rt_alloc rt n i = Some (p, i')})"
  by (auto simp: with_capacity_def split: option.splits) (fastforce+)

lemma results_memory:
  "() \<in> results (store_bytes rt p bs)" "block (unat p) n (replicate (unat p + n) 0) \<in> results (load_bytes rt p n)"
proof -
  let ?i = "\<lparr>wmem = Some (replicate (unat p + length bs) 0), wstate = undefined\<rparr>"
  have "() \<in> results (case wmem ?i of None \<Rightarrow> GTrap (trap_bounds rt) | Some m \<Rightarrow>
      if unat p + length bs \<le> length m then GPut (?i\<lparr>wmem := Some (overwrite (unat p) bs m)\<rparr>) (GRet ()) else GTrap (trap_bounds rt))"
    by simp
  then show "() \<in> results (store_bytes rt p bs)"
    unfolding store_bytes_def results.simps by blast
  let ?j = "\<lparr>wmem = Some (replicate (unat p + n) 0), wstate = undefined\<rparr>"
  have "block (unat p) n (replicate (unat p + n) 0) \<in> results (case wmem ?j of None \<Rightarrow> GTrap (trap_bounds rt) | Some m \<Rightarrow>
      if unat p + n \<le> length m then GRet (block (unat p) n m) else GTrap (trap_bounds rt))"
    by simp
  then show "block (unat p) n (replicate (unat p + n) 0) \<in> results (load_bytes rt p n)"
    unfolding load_bytes_def results.simps by blast
qed

lemma pong_calls: "\<not> avoids {HostCall} (pong rt lits m)"
  by (cases lits) (simp add: pong_def host_call_def fetch_call_num_def avoids_gbind_iff)

lemma ping_calls:
  assumes "from_utf8 (snd m) = Some s"
  shows "\<not> avoids {HostCall} (wasi_ping rt t lits m)"
    and "rt_alloc rt (length (as_bytes (ping_line s))) i = Some (p, i') \<Longrightarrow> length (as_bytes (ping_line s)) < 2 ^ 31 \<Longrightarrow>
      \<not> avoids {HostCall} (wasm_ping rt t lits m)"
proof -
  show "\<not> avoids {HostCall} (wasi_ping rt t lits m)"
    using assms by (simp add: wasi_ping_def pong_calls)
next
  let ?line = "as_bytes (ping_line s)"
  assume alloc: "rt_alloc rt (length ?line) i = Some (p, i')" and len: "length ?line < 2 ^ 31"
  have "0 < length ?line"
    by (simp add: ping_line_def as_bytes_def u8_of_char_def)
  then have "p \<in> results (with_capacity rt (length ?line))"
    using alloc len by (auto simp: results_with_capacity)
  then have "p \<in> results (place rt ?line)"
    using results_memory(1) by (auto simp: place_def)
  then show "\<not> avoids {HostCall} (wasm_ping rt t lits m)"
    using assms by (auto simp: wasm_ping_def avoids_gbind_iff pong_calls console_log_def gcall_unit_def)
qed

text \<open>\<open>__guest_call\<close> of a guest with a handler that makes host calls contains one.\<close>

lemma guest_call_calls:
  assumes "\<not> avoids {HostCall} (rt_handlers rt f [])"
  shows "\<not> avoids {HostCall} (guest_call rt 0 0 0)"
proof -
  let ?c = "\<lparr>wmem = None, wstate = \<lparr>registry = [[] \<mapsto> f], registry_locked = False, CALL_NUM = 0, user = undefined\<rparr>\<rparr>"
  have none: "[] \<in> results (load_bytes rt 1 0)"
    using results_memory(2) [of 1 0 rt] by (simp add: block_def)
  have "([], []) \<in> results (fetch_request rt 0 0 0)"
    using none by (auto simp: fetch_request_def results_with_capacity gcall_unit_def)
  moreover have "[[] \<mapsto> f] \<in> results (lock_registry rt)"
    unfolding lock_registry_def results.simps by (rule UN_I [of ?c]) simp_all
  moreover have "\<not> avoids {HostCall} (case [[] \<mapsto> f] [] of
      Some handler \<Rightarrow> gbind (rt_handlers rt handler []) (\<lambda>r. case r of
          Inr result \<Rightarrow> respond rt GuestResponse 0 result 1 | Inl e \<Rightarrow> respond rt GuestError 0 (as_bytes e) 0)
    | None \<Rightarrow> respond rt GuestError 0 (unregistered_message []) 0)"
    using assms by (simp add: avoids_gbind_iff)
  ultimately show ?thesis
    unfolding guest_call_def by (intro calls_gbind [of "([], [])"], simp) (simp, rule calls_gbind [of "[[] \<mapsto> f]"], simp_all)
qed

text \<open>A module imports the host functions its code calls, with the types the SDK declares for them.\<close>

definition compiled_with_sdk :: "'g wasm_module \<Rightarrow> bool" where
  "compiled_with_sdk m \<longleftrightarrow> (\<forall>e. \<not> module_avoids {e} m \<longrightarrow> imports_sdk m e)"

definition is_ping :: "'u guest_rt \<Rightarrow> nat \<Rightarrow> bool" where
  "is_ping rt f \<longleftrightarrow> (\<exists>t lits a. rt_handlers rt f = (\<lambda>msg. wasi_ping rt t lits (a, msg)))
     \<or> (\<exists>t lits a i r. rt_handlers rt f = (\<lambda>msg. wasm_ping rt t lits (a, msg))
          \<and> rt_alloc rt (length (as_bytes (ping_line []))) i = Some r)"

lemma ping_module_imports:
  assumes "compiled_with_sdk m" and "get_func_3_1 m GUEST_CALL = Some (guest_call rt)" and "is_ping rt f"
  shows "imports_sdk m HostCall"
proof -
  have empty: "from_utf8 [] = Some []"
    by (simp add: from_utf8_def string_of_bytes_def)
  have small: "length (as_bytes (ping_line [])) < 2 ^ 31"
    by (simp add: ping_line_def as_bytes_def u8_of_char_def)
  have "\<not> avoids {HostCall} (rt_handlers rt f [])"
    using assms(3) ping_calls [of "(a, [])" for a, unfolded snd_conv, OF empty] small
    unfolding is_ping_def by (metis surj_pair)
  then have "\<not> module_avoids {HostCall} m"
    using guest_call_calls module_avoidsD(4) [OF _ assms(2)] by blast
  then show ?thesis
    using assms(1) by (simp add: compiled_with_sdk_def)
qed

lemma ping_call_fails:
  assumes "compiled_with_sdk (wp_module (engine h))" and "get_func_3_1 (wp_module (engine h)) GUEST_CALL = Some (guest_call rt)"
    and "is_ping rt f" and "first_taken (wp_linker (engine h)) = None"
    and "new_store api (wp_wasi_params (engine h)) = Inr ()"
  shows "WapcHost_call (wasmtime_engine api) h op payload ev =
    Ret (Inl (Context (msg_bad_import api (wp_module (engine h)))), ev)"
  by (rule unlinked_call_fails [OF ping_module_imports [OF assms(1-3)] disjI1 [OF HOL.refl] assms(4,5)])

subsection \<open>The wasmtime demo\<close>

text \<open>A callback has no access to the environment but the embedder's world: for the demo that is the list
  of lines its callback printed. The future of the callback answers with no bytes.\<close>

definition quoted :: "string \<Rightarrow> string" where
  "quoted s = [CHR 0x27] @ s @ [CHR 0x27]"

definition demo_host_callback :: "string list host_callback" where
  "demo_host_callback i bd ns op payload w =
     (case from_utf8 payload of
        None \<Rightarrow> Panic Unwrap_Err
      | Some s \<Rightarrow> Ret (Inr [], w @ [''Guest '' @ show_i32 i @ '' invoked '' @ quoted (bd @ ''->'' @ ns @ '':'' @ op) @
          '' on the host with a payload of '' @ quoted s]))"

definition println :: "string \<Rightarrow> 'w env \<Rightarrow> 'w env" where
  "println l ev = ev\<lparr>stdout := stdout ev @ [l]\<rparr>"

definition env_arg :: "string list \<Rightarrow> nat \<Rightarrow> string outcome" where
  "env_arg args n = (if n < length args then Ret (args ! n) else Panic Unwrap_None)"

text \<open>\<open>main\<close>: \<open>read\<close> is the file system, \<open>elapsed\<close> what the clock shows at the end. The demo registers its
  callback for asynchronous host calls.\<close>

definition wasmtime_demo ::
    "'g wasmtime_api \<Rightarrow> (string \<Rightarrow> bytes option) \<Rightarrow> string \<Rightarrow> string list \<Rightarrow> string list env
     \<Rightarrow> ((wapc_error + unit) \<times> string list env) outcome" where
  "wasmtime_demo api read elapsed args ev =
     obind (env_arg args 1) (\<lambda>file.
     obind (env_arg args 2) (\<lambda>func.
     obind (env_arg args 3) (\<lambda>payload.
     obind (unwrap_result (read file)) (\<lambda>module_bytes.
       case WasmtimeEngineProvider_new api module_bytes None of
         Inl e \<Rightarrow> Ret (Inl (wapc_error_of_provider_error e), ev)
       | Inr p \<Rightarrow>
           obind (WapcHost_new (wasmtime_engine api) p None (Some demo_host_callback) ev) (\<lambda>(r, ev1).
             case r of
               Inl e \<Rightarrow> Ret (Inl e, ev1)
             | Inr h \<Rightarrow>
                 let ev2 = println (''Calling guest (wasm) function '' @ quoted func) ev1
                 in obind (WapcHost_call (wasmtime_engine api) h func (as_bytes payload) ev2) (\<lambda>(r, ev3).
                   case r of
                     Inl e \<Rightarrow> Ret (Inl e, ev3)
                   | Inr res \<Rightarrow>
                       obind (unwrap_result (from_utf8 res)) (\<lambda>s.
                         Ret (Inr (), println (''Elapsed - '' @ elapsed @ ''ms'') (println (''Result - '' @ s) ev3)))))))))"

lemma WasmtimeEngineProvider_new_params:
  "WasmtimeEngineProvider_new api buf wasi = Inr p \<Longrightarrow> wp_wasi_params p = wasi"
  by (auto simp: WasmtimeEngineProvider_new_def WasmtimeEngineProvider_new_with_engine_def split: sum.splits)

lemma outside_runtime_error:
  assumes "\<not> in_runtime ev" and "WapcHost_call (wasmtime_engine api) h op payload ev = Ret (r, ev')"
  shows "\<exists>m. r = Inl (Context m)"
  using assms
  by (auto simp: WapcHost_call_def wasmtime_new_context_def context_needs_runtime
      outcome_inversion Let_def)

text \<open>Two reasons why the demo never prints a result: there is no Tokio runtime in its \<open>main\<close>, and with the demo guest
  for it, even inside one, the context of the call cannot be created.\<close>

lemma demo_never_succeeds:
  assumes "\<not> in_runtime ev"
  shows "wasmtime_demo api read elapsed args ev \<noteq> Ret (Inr (), ev')"
proof
  assume "wasmtime_demo api read elapsed args ev = Ret (Inr (), ev')"
  then obtain p h ev1 res ev3 func payload where
    new: "WapcHost_new (wasmtime_engine api) p None (Some demo_host_callback) ev = Ret (Inr h, ev1)" and
    call: "WapcHost_call (wasmtime_engine api) h func payload (println (''Calling guest (wasm) function '' @ quoted func) ev1)
      = Ret (Inr res, ev3)"
    by (auto simp: wasmtime_demo_def Let_def outcome_inversion split: sum.splits)
  have "\<not> in_runtime (println l ev1)" for l
    using assms new by (auto simp: WapcHost_new_def next_id_def outcome_inversion Let_def println_def)
  from outside_runtime_error [OF this call] show False
    by simp
qed

text \<open>The demo host with a demo guest never gets an answer. Whatever it is asked to call, and in or
  outside a Tokio runtime, it prints what it is going to call and ends with the error that the
  context cannot be made, because the guest imports \<open>__host_call\<close> with the parameters of the SDK.\<close>

theorem demo_of_ping_fails:
  assumes args: "3 < length args" and found: "read (args ! 1) = Some buf" and parsed: "module_new api buf = Inr m"
    and compiled: "compiled_with_sdk m" and sdk: "get_func_3_1 m GUEST_CALL = Some (guest_call rt)" and ping: "is_ping rt f"
    and linker: "first_taken (wasi_linker api) = None" and store: "new_store api None = Inr ()"
  shows "wasmtime_demo api read elapsed args ev =
    Ret (Inl (Context (msg_bad_import api m)),
         println (''Calling guest (wasm) function '' @ quoted (args ! 2)) (ev\<lparr>module_count := module_count ev + 1\<rparr>))"
proof -
  let ?p = "\<lparr>wp_module = m, wp_linker = wasi_linker api, wp_wasi_params = None\<rparr>"
  let ?h = "\<lparr>engine = ?p, host_async_hostcall = Some demo_host_callback, host_sync_hostcall = None, host_id = module_count ev\<rparr>"
  have new: "WapcHost_new (wasmtime_engine api) ?p None (Some demo_host_callback) ev
      = Ret (Inr ?h, ev\<lparr>module_count := module_count ev + 1\<rparr>)"
    by (simp add: WapcHost_new_def next_id_def initialize_def default_engine_init_def)
  have "WapcHost_call (wasmtime_engine api) ?h op payload ev' = Ret (Inl (Context (msg_bad_import api m)), ev')"
    for op payload ev'
    using ping_call_fails [of ?h rt f api op payload ev'] compiled sdk ping linker store by simp
  then show ?thesis
    using args found parsed
    by (simp add: wasmtime_demo_def env_arg_def unwrap_result_def WasmtimeEngineProvider_new_def
        WasmtimeEngineProvider_new_with_engine_def new)
qed

text \<open>A host call does not depend on the table of handlers.\<close>

lemma memory_handlers [simp]:
  "with_capacity (rt\<lparr>rt_handlers := hs\<rparr>) n = with_capacity rt n"
  "load_bytes (rt\<lparr>rt_handlers := hs\<rparr>) p n = load_bytes rt p n"
  by (simp_all add: with_capacity_def load_bytes_def cong: option.case_cong if_cong)

lemma host_call_handlers: "host_call (rt\<lparr>rt_handlers := hs\<rparr>) binding ns op m = host_call rt binding ns op m"
proof -
  have "fetch_from_host (rt\<lparr>rt_handlers := hs\<rparr>) e e' i = fetch_from_host rt e e' i" for e e' i
    by (simp add: fetch_from_host_def cong: option.case_cong)
  then have "host_call_finish (rt\<lparr>rt_handlers := hs\<rparr>) i k = host_call_finish rt i k" for i k
    by (simp add: host_call_finish_def)
  then show ?thesis
    by (simp add: host_call_def cong: option.case_cong)
qed

text \<open>The guest \<open>wasi-basic\<close> on the allocator of the other witnesses.\<close>

definition ping_rt :: "nat guest_rt" where
  "ping_rt = bump_rt\<lparr>rt_handlers := (\<lambda>_ payload. wasi_ping bump_rt ''not UTF-8''
     ((8, as_bytes ''binding''), (15, as_bytes ''sample:namespace''), (31, as_bytes ''pong'')) (40, payload))\<rparr>"

definition ping_module :: "nat sdk wasm_module" where
  "ping_module =
     \<lparr>m_imports = map (\<lambda>e. (wapc_key e, sdk_import_type e)) host_exports_iter,
      m_exports =
        [''__guest_call'' \<mapsto> Export_3_1 (guest_call ping_rt),
         ''wapc_init'' \<mapsto> Export_0_0 (wasi_wapc_init ping_rt 0),
         ''__host_call_response_ready'' \<mapsto> Export_2_0 (\<lambda>_ _. GRet ())],
      m_instance = bump_instance, m_start = None\<rparr>"

definition demo_env :: "string list env" where
  "demo_env = \<lparr>world = [], stdout = [], in_runtime = False, spawned = [], module_count = 1, context_count = 1\<rparr>"

theorem demo_of_ping_fails_witness:
  "wasmtime_demo (bump_api\<lparr>module_new := \<lambda>_. Inr ping_module\<rparr>) (\<lambda>_. Some []) ''1'' [''demo'', ''basic.wasm'', ''ping'', ''hi'']
     demo_env = Ret (Inl (Context ''unknown import''),
       demo_env\<lparr>module_count := 2, stdout := [''Calling guest (wasm) function '' @ quoted ''ping'']\<rparr>)"
proof -
  let ?api = "bump_api\<lparr>module_new := \<lambda>_. Inr ping_module\<rparr>"
  have all: "e \<in> set host_exports_iter" for e
    by (cases e) (simp_all add: host_exports_iter_def)
  then have compiled: "compiled_with_sdk ping_module"
    by (auto simp: compiled_with_sdk_def imports_sdk_def ping_module_def)
  have sdk: "get_func_3_1 ping_module GUEST_CALL = Some (guest_call ping_rt)"
    by (simp add: get_func_3_1_def ping_module_def guest_name_defs)
  have ping: "is_ping ping_rt 0"
  proof -
    have "wasi_ping bump_rt t lits m = wasi_ping ping_rt t lits m" for t lits m
      by (simp add: wasi_ping_def pong_def ping_rt_def host_call_handlers cong: option.case_cong)
    then have "rt_handlers ping_rt 0 = (\<lambda>msg. wasi_ping ping_rt ''not UTF-8''
        ((8, as_bytes ''binding''), (15, as_bytes ''sample:namespace''), (31, as_bytes ''pong'')) (40, msg))"
      by (simp add: ping_rt_def [THEN arg_cong [where f = rt_handlers]])
    then show ?thesis
      unfolding is_ping_def by blast
  qed
  have "msg_bad_import ?api m = ''unknown import''" for m
    by (simp add: bump_api_def)
  moreover have "first_taken (wasi_linker ?api) = None" "new_store ?api None = Inr ()"
    by (simp_all add: bump_api_def new_store_def)
  ultimately show ?thesis
    using demo_of_ping_fails [of "[''demo'', ''basic.wasm'', ''ping'', ''hi'']" "\<lambda>_. Some []" "[]" ?api ping_module ping_rt 0
      "''1''" demo_env] compiled sdk ping
    by (simp add: println_def demo_env_def)
qed

subsection \<open>The wasm3 demo\<close>

record ('e, 'h) legacy_host =
  lh_new :: "'e \<Rightarrow> (u64 \<Rightarrow> string \<Rightarrow> string \<Rightarrow> string \<Rightarrow> bytes \<Rightarrow> string list \<Rightarrow> (host_result \<times> string list) outcome)
     \<Rightarrow> string list env \<Rightarrow> ((wapc_error + 'h) \<times> string list env) outcome"
  lh_call :: "'h \<Rightarrow> string \<Rightarrow> bytes \<Rightarrow> string list env \<Rightarrow> ((wapc_error + bytes) \<times> string list env) outcome"

definition wasm3_demo_callback ::
    "u64 \<Rightarrow> string \<Rightarrow> string \<Rightarrow> string \<Rightarrow> bytes \<Rightarrow> string list \<Rightarrow> (host_result \<times> string list) outcome" where
  "wasm3_demo_callback i bd ns op payload w =
     (case from_utf8 payload of
        None \<Rightarrow> Panic Unwrap_Err
      | Some s \<Rightarrow> Ret (Inr [], w @ [''Guest '' @ show_nat (unat i) @ '' invoked '' @ quoted (bd @ ''->'' @ ns @ '':'' @ op) @
          '' on the host with a payload of '' @ quoted s]))"

definition wasm3_demo ::
    "(('m, 'g) wasm3_provider, 'h) legacy_host \<Rightarrow> (string \<Rightarrow> bytes option) \<Rightarrow> string \<Rightarrow> string list \<Rightarrow> string list env
     \<Rightarrow> ((wapc_error + unit) \<times> string list env) outcome" where
  "wasm3_demo lh read elapsed args ev =
     obind (env_arg args 1) (\<lambda>file.
     obind (env_arg args 2) (\<lambda>func.
     obind (env_arg args 3) (\<lambda>payload.
     obind (unwrap_result (read file)) (\<lambda>module_bytes.
       let engine = Wasm3EngineProvider_new module_bytes
       in obind (lh_new lh engine wasm3_demo_callback ev) (\<lambda>(r, ev1).
            case r of
              Inl e \<Rightarrow> Ret (Inl e, ev1)
            | Inr h \<Rightarrow>
                let ev2 = println (''Calling guest (wasm) function '' @ quoted func) ev1
                in obind (lh_call lh h func (as_bytes payload) ev2) (\<lambda>(r, ev3).
                  case r of
                    Inl e \<Rightarrow> Ret (Inl e, ev3)
                  | Inr res \<Rightarrow>
                      obind (unwrap_result (from_utf8 res)) (\<lambda>s.
                        Ret (Inr (), println (''Elapsed - '' @ elapsed @ ''ms'') (println (''Result - '' @ s) ev3)))))))))"

text \<open>The demo ends well only with a reply that is a string, which it prints.\<close>

lemma wasm3_demo_prints:
  assumes "wasm3_demo lh read elapsed args ev = Ret (Inr (), ev')"
  shows "\<exists>buf h ev1 res s ev3. 3 < length args \<and> read (args ! 1) = Some buf
    \<and> lh_new lh (Wasm3EngineProvider_new buf) wasm3_demo_callback ev = Ret (Inr h, ev1)
    \<and> lh_call lh h (args ! 2) (as_bytes (args ! 3))
        (println (''Calling guest (wasm) function '' @ quoted (args ! 2)) ev1) = Ret (Inr res, ev3)
    \<and> from_utf8 res = Some s
    \<and> stdout ev' = stdout ev3 @ [''Result - '' @ s, ''Elapsed - '' @ elapsed @ ''ms'']"
  using assms
  by (auto simp: wasm3_demo_def Let_def env_arg_def unwrap_result_def println_def outcome_inversion
      split: sum.splits if_splits option.splits)

subsection \<open>The codec's round trip\<close>

record person =
  first_name :: string
  last_name :: string
  age :: u8

text \<open>What the example prints, line by line; an error of the codec ends it.\<close>

datatype printed = Original person | Serialized bytes | Deserialized person

definition roundtrip_main :: "person rmp_serde \<Rightarrow> (codec_error + unit) \<times> printed list" where
  "roundtrip_main lib =
     (let person = \<lparr>first_name = ''Samuel'', last_name = ''Clemens'', age = 49\<rparr> in
      case serialize lib person of
        Inl e \<Rightarrow> (Inl e, [Original person])
      | Inr buf \<Rightarrow>
          (case deserialize lib buf of
             Inl e \<Rightarrow> (Inl e, [Original person, Serialized buf])
           | Inr round_trip \<Rightarrow> (Inr (), [Original person, Serialized buf, Deserialized round_trip])))"

lemma roundtrip_main_prints:
  assumes "lossless lib" and "roundtrip_main lib = (Inr (), ls)"
  shows "\<exists>x buf. ls = [Original x, Serialized buf, Deserialized x]"
  using assms deserialize_serialize [OF assms(1)]
  by (auto simp: roundtrip_main_def Let_def split: sum.splits)

subsection \<open>The pool of the example\<close>

definition example_pool :: "(nat \<Rightarrow> nat \<Rightarrow> bool) \<Rightarrow> host_pool outcome" where
  "example_pool accepts =
     pool_build accepts (max_threads 5 (pool_factory (pool_name_set ''pool example'' HostPoolBuilder_new)))"

lemma example_pool_eq: "example_pool accepts = HostPool_new accepts ''pool example'' 1 5 100 300000"
  by (simp add: example_pool_def pool_build_def max_threads_def pool_factory_def pool_name_set_def HostPoolBuilder_new_def)

end
