(* ===== verification/Parallel_Runs.thy ===== *)
theory Parallel_Runs
  imports Async_Service Call_Isolation
begin

text \<open>
  Asynchronous calls on a runtime with several threads. \<open>Async_Calls\<close> takes a run of the guest as one step;
  in fact the run holds the store only, and while it goes on other threads may end host tasks, report
  their results into the context's channel, and poll or drop the future of the call. Here a run is a
  sequence of the guest's own steps with such steps between them.

  A step beside the run can be postponed past a step of the guest unless the two clash: the guest asks
  for the result of the very host call that has just ended, or makes a synchronous host call, whose
  callback shares the embedder's world. So every execution without such a race is one of \<open>Async_Calls\<close>
  with the same events, and a guest that polls for a result shows that this is needed.
\<close>

subsection \<open>Postponing steps\<close>

text \<open>Moves of a program (\<open>Inl\<close>) mixed with steps beside it (\<open>Inr\<close>).\<close>

inductive mixed ::
    "('s \<Rightarrow> 'a \<Rightarrow> 's \<Rightarrow> bool) \<Rightarrow> ('s \<Rightarrow> 'e \<Rightarrow> 's \<Rightarrow> bool) \<Rightarrow> 's \<Rightarrow> ('a + 'e) list \<Rightarrow> 's \<Rightarrow> bool"
  for move beside s where
  mixed_refl: "mixed move beside s [] s"
| mixed_move: "mixed move beside s ls t \<Longrightarrow> move t a u \<Longrightarrow> mixed move beside s (ls @ [Inl a]) u"
| mixed_beside: "mixed move beside s ls t \<Longrightarrow> beside t e u \<Longrightarrow> mixed move beside s (ls @ [Inr e]) u"

definition moves :: "('a + 'e) list \<Rightarrow> 'a list" where
  "moves ls = List.map_filter (\<lambda>l. case l of Inl a \<Rightarrow> Some a | Inr e \<Rightarrow> None) ls"

definition besides :: "('a + 'e) list \<Rightarrow> 'e list" where
  "besides ls = List.map_filter (\<lambda>l. case l of Inl a \<Rightarrow> None | Inr e \<Rightarrow> Some e) ls"

lemma moves_simps [simp]:
  "moves [] = []" "moves (Inl a # ls) = a # moves ls" "moves (Inr e # ls) = moves ls"
  "moves (xs @ ys) = moves xs @ moves ys"
  by (simp_all add: moves_def List.map_filter_def)

lemma besides_simps [simp]:
  "besides [] = []" "besides (Inl a # ls) = besides ls" "besides (Inr e # ls) = e # besides ls"
  "besides (xs @ ys) = besides xs @ besides ys"
  by (simp_all add: besides_def List.map_filter_def)

text \<open>No move clashes with a step beside it that came before.\<close>

primrec race_free :: "('e \<Rightarrow> 'a \<Rightarrow> bool) \<Rightarrow> ('a + 'e) list \<Rightarrow> bool" where
  "race_free clash [] = True"
| "race_free clash (l # ls) = ((case l of Inl a \<Rightarrow> True | Inr e \<Rightarrow> (\<forall>a \<in> set (moves ls). \<not> clash e a)) \<and> race_free clash ls)"

lemma race_free_snoc:
  "race_free clash (ls @ [Inl a]) \<longleftrightarrow> race_free clash ls \<and> (\<forall>e \<in> set (besides ls). \<not> clash e a)"
  "race_free clash (ls @ [Inr e]) \<longleftrightarrow> race_free clash ls"
  by (induction ls) (auto split: sum.splits)

locale postponable =
  fixes move :: "'s \<Rightarrow> 'a \<Rightarrow> 's \<Rightarrow> bool"
    and beside :: "'s \<Rightarrow> 'e \<Rightarrow> 's \<Rightarrow> bool"
    and clash :: "'e \<Rightarrow> 'a \<Rightarrow> bool"
  assumes swap: "beside s e t \<Longrightarrow> move t a u \<Longrightarrow> \<not> clash e a \<Longrightarrow> \<exists>t'. move s a t' \<and> beside t' e u"
begin

lemma swap_all:
  assumes "mixed move beside s (map Inr es) t" and "move t a u" and "\<And>e. e \<in> set es \<Longrightarrow> \<not> clash e a"
  shows "\<exists>t'. move s a t' \<and> mixed move beside t' (map Inr es) u"
  using assms
proof (induction es arbitrary: t u rule: rev_induct)
  case Nil
  then have "t = s"
    by (auto elim: mixed.cases)
  then show ?case
    using Nil by (auto intro: mixed.mixed_refl)
next
  case (snoc e es)
  obtain t0 where first: "mixed move beside s (map Inr es) t0" and last: "beside t0 e t"
    using snoc.prems(1) by (cases rule: mixed.cases) auto
  obtain t1 where "move t0 a t1" and beside: "beside t1 e u"
    using swap [OF last snoc.prems(2)] snoc.prems(3) by auto
  then obtain t' where "move s a t'" "mixed move beside t' (map Inr es) t1"
    using snoc.IH [OF first] snoc.prems(3) by auto
  then show ?case
    using mixed.mixed_beside [where beside = beside, OF _ beside] by auto
qed

text \<open>First the program alone, then what went on beside it.\<close>

lemma postpone:
  assumes "mixed move beside s ls t" and "race_free clash ls"
  shows "\<exists>u. mixed move beside s (map Inl (moves ls)) u \<and> mixed move beside u (map Inr (besides ls)) t"
  using assms
proof (induction rule: mixed.induct)
  case mixed_refl
  then show ?case
    by (auto intro: mixed.mixed_refl)
next
  case (mixed_move ls t a u)
  then obtain v where first: "mixed move beside s (map Inl (moves ls)) v" and rest: "mixed move beside v (map Inr (besides ls)) t"
    by (auto simp: race_free_snoc)
  obtain w where "move v a w" "mixed move beside w (map Inr (besides ls)) u"
    using swap_all [OF rest mixed_move.hyps(2)] mixed_move.prems by (auto simp: race_free_snoc)
  then show ?case
    using mixed.mixed_move [where move = move, OF first] by auto
next
  case (mixed_beside ls t e u)
  then obtain v where "mixed move beside s (map Inl (moves ls)) v" "mixed move beside v (map Inr (besides ls)) t"
    by (auto simp: race_free_snoc)
  then show ?case
    using mixed.mixed_beside [where beside = beside, OF _ mixed_beside.hyps(2)] by auto
qed

end

subsection \<open>The end of a host task and the host functions\<close>

text \<open>What the end of the task of a host call does to the module state.\<close>

definition file_result :: "i32 \<Rightarrow> host_result \<Rightarrow> 'w module_state \<Rightarrow> 'w module_state" where
  "file_result j r ms = snd (record_host_result j r ms)"

definition put_result :: "host_result \<Rightarrow> call_state \<Rightarrow> call_state" where
  "put_result r = (case r of Inr v \<Rightarrow> (\<lambda>c. c\<lparr>host_response := Some v\<rparr>) | Inl e \<Rightarrow> (\<lambda>c. c\<lparr>host_error := Some e\<rparr>))"

lemma file_result_eq: "file_result j r = update_call j (put_result r)"
  by (auto simp: file_result_def record_host_result_def put_result_def split: sum.splits)

lemma put_result_frame [simp]:
  "guest_request (put_result r c) = guest_request c" "channel (put_result r c) = channel c"
  "(put_result r c)\<lparr>guest_response := x\<rparr> = put_result r (c\<lparr>guest_response := x\<rparr>)"
  "(put_result r c)\<lparr>guest_error := y\<rparr> = put_result r (c\<lparr>guest_error := y\<rparr>)"
  by (cases r; cases c; simp add: put_result_def)+

lemma update_call_commute:
  assumes "i = j \<Longrightarrow> \<forall>c. f (g c) = g (f c)"
  shows "update_call i f (update_call j g ms) = update_call j g (update_call i f ms)"
  using assms by (cases "i = j") (auto simp: update_call_def fun_upd_twist split: option.splits)

lemma set_guest_file_result [simp]:
  "set_guest_response i v (file_result j r ms) = file_result j r (set_guest_response i v ms)"
  "set_guest_error i t (file_result j r ms) = file_result j r (set_guest_error i t ms)"
  unfolding set_guest_response_def set_guest_error_def file_result_eq
  by (simp_all add: update_call_commute)

lemma resolve_file_result [simp]:
  "oneshot_resolve tx v (file_result j r ms) = file_result j r (oneshot_resolve tx v ms)"
  unfolding file_result_eq oneshot_resolve_def update_call_def by (auto split: option.splits if_splits)

lemma calls_file_result:
  "calls (file_result j r ms) i = (if i = j then map_option (put_result r) (calls ms i) else calls ms i)"
  by (simp add: file_result_eq calls_update_call)

lemma read_file_result:
  "get_guest_request i (file_result j r ms) = get_guest_request i ms"
  "i \<noteq> j \<Longrightarrow> get_host_response i (file_result j r ms) = get_host_response i ms"
  "i \<noteq> j \<Longrightarrow> get_host_error i (file_result j r ms) = get_host_error i ms"
  by (cases "calls ms i"; auto simp: get_guest_request_def get_host_response_def get_host_error_def calls_file_result)+

lemma file_result_frame [simp]:
  "call_index (file_result j r ms) = call_index ms" "sync_hostcall (file_result j r ms) = sync_hostcall ms"
  "async_hostcall (file_result j r ms) = async_hostcall ms" "oneshots (file_result j r ms) = oneshots ms"
  by (simp_all add: file_result_eq)

lemma finish_file_result:
  assumes "i \<noteq> j"
  shows "finish_guest_invocation i k (file_result j r ms) = map_outcome (file_result j r) (finish_guest_invocation i k ms)"
proof (cases "calls ms i")
  case None
  then show ?thesis
    using assms by (simp add: finish_guest_invocation_def calls_file_result)
next
  case (Some c)
  have "(file_result j r ms)\<lparr>calls := (calls (file_result j r ms))(i := None)\<rparr>
      = file_result j r (ms\<lparr>calls := (calls ms)(i := None)\<rparr>)"
    using assms by (auto simp: file_result_eq update_call_def fun_upd_twist split: option.splits)
  then show ?thesis
    using assms Some
    by (auto simp: finish_guest_invocation_def calls_file_result Let_def oneshot_send_def unwrap_def split: option.splits)
qed

lemma insert_file_result:
  assumes "k \<noteq> j"
  shows "init_host_call k (file_result j r ms) = file_result j r (init_host_call k ms)"
proof -
  have "(file_result j r ms)\<lparr>calls := (calls (file_result j r ms))(k \<mapsto> cs)\<rparr>
      = file_result j r (ms\<lparr>calls := (calls ms)(k \<mapsto> cs)\<rparr>)" for cs
    using assms by (auto simp: file_result_eq update_call_def fun_upd_twist split: option.splits)
  then show ?thesis
    using assms
    by (auto simp: init_host_call_def calls_insert_def Let_def calls_file_result drop_call_state_def split: option.splits)
qed

lemma async_call_file_result:
  assumes "call_index ms \<noteq> j"
  shows "do_async_host_call bd ns op v rt (file_result j r ms) =
     map_outcome (\<lambda>(x, t, ms). (x, t, file_result j r ms)) (do_async_host_call bd ns op v rt ms)"
proof -
  have "(file_result j r ms)\<lparr>call_index := k\<rparr> = file_result j r (ms\<lparr>call_index := k\<rparr>)" for k
    by (simp add: file_result_eq update_call_def split: option.splits)
  then show ?thesis
    using assms by (simp add: do_async_host_call_def next_call_index_def Let_def insert_file_result)
qed

text \<open>A guest's call of a host function clashes with the end of the host call \<open>j\<close> if it reads the result of
  \<open>j\<close> or ends \<open>j\<close>, takes the id \<open>j\<close> again, or is a synchronous host call.\<close>

definition result_fns :: "host_exports set" where
  "result_fns = {HostResponse, HostResponseLen, HostError, HostErrorLen, GuestResponseReady}"

definition names_id :: "i32 \<Rightarrow> host_exports \<Rightarrow> i32 list \<Rightarrow> bool" where
  "names_id j e ps \<longleftrightarrow> e \<in> result_fns \<and> ps \<noteq> [] \<and> hd ps = j"

abbreviation cx_file :: "i32 \<Rightarrow> host_result \<Rightarrow> ('g, 'w) cx \<Rightarrow> ('g, 'w) cx" where
  "cx_file j r c \<equiv> c\<lparr>mstate := file_result j r (mstate c)\<rparr>"

lemma linker_fn_file_result:
  assumes "e \<noteq> HostCall" and "\<not> names_id j e ps" and fresh: "e = AsyncHostCall \<Longrightarrow> call_index (mstate c) \<noteq> j"
  shows "linker_fn e ps (cx_file j r c) = map_outcome (map_prod id (cx_file j r)) (linker_fn e ps c)"
proof -
  have map_obind: "map_outcome f (obind m g) = obind m (\<lambda>x. map_outcome f (g x))" for f :: "'x \<Rightarrow> 'y" and m and g :: "'z \<Rightarrow> 'x outcome"
    by (cases m) simp_all
  have obind_map: "obind (map_outcome f m) g = obind m (\<lambda>x. g (f x))" for f :: "'x \<Rightarrow> 'y" and m and g :: "'y \<Rightarrow> 'z outcome"
    by (cases m) simp_all
  have params: "map_outcome f (with_params n ps g) = with_params n ps (\<lambda>p. map_outcome f (g p))" for f :: "'x \<Rightarrow> 'y" and n g
    by (simp add: with_params_def)
  have other: "ps \<noteq> [] \<Longrightarrow> e \<in> result_fns \<Longrightarrow> ps ! 0 \<noteq> j"
    using assms(2) by (cases ps) (auto simp: names_id_def)
  note map_case = option.case_distrib [of "map_outcome (map_prod id (cx_file j r))"]
  obtain i ms ev where c: "c = \<lparr>inst = i, mstate = ms, env = ev\<rparr>"
    by (cases c)
  note defs = linker_console_log_def linker_guest_request_def linker_async_host_call_def linker_host_response_def
    linker_host_response_len_def linker_guest_response_ready_def linker_guest_response_def linker_guest_error_def
    linker_host_error_def linker_host_error_len_def
  note rules = params map_obind obind_map get_caller_memory_def Let_def set_caller_memory_def case_prod_unfold map_case
    async_call_file_result read_file_result finish_file_result
  show ?thesis
  proof (cases "e \<in> result_fns")
    case True
    show ?thesis
    proof (cases "ps = []")
      case False
      then have "ps ! 0 \<noteq> j"
        using True other by blast
      then show ?thesis
        using True by (auto simp: c result_fns_def defs rules with_params_def if_distrib [of "map_outcome _"]
            cong: option.case_cong if_cong)
    qed (use True in \<open>auto simp: result_fns_def defs with_params_def\<close>)
  next
    case False
    then show ?thesis
      using assms(1) fresh by (cases e) (simp_all add: c result_fns_def defs rules cong: option.case_cong)
  qed
qed

text \<open>What a host function other than \<open>__host_call\<close> leaves of the environment and the callbacks.\<close>

lemma linker_fn_env:
  assumes "linker_fn e ps c = Ret (r, c')" and "e \<noteq> HostCall"
  shows "world (env c') = world (env c)" and "module_count (env c') = module_count (env c)"
    and "context_count (env c') = context_count (env c)" and "\<exists>ts. spawned (env c') = spawned (env c) @ ts"
    and "async_hostcall (mstate c') = async_hostcall (mstate c)"
proof -
  have fin: "async_hostcall ms' = async_hostcall ms" if "finish_guest_invocation i k ms = Ret ms'"
    for i k and ms ms' :: "'b module_state"
    using that by (auto simp: finish_guest_invocation_def Let_def obind_eq_Ret_iff oneshot_send_def split: option.splits)
  have async: "async_hostcall ms' = async_hostcall ms" if "do_async_host_call bd ns op v rt ms = Ret (x, t, ms')"
    for bd ns op v x rt t and ms ms' :: "'b module_state"
    using that by (auto simp: do_async_host_call_def Let_def next_call_index_def init_host_call_def split: if_splits)
  show "async_hostcall (mstate c') = async_hostcall (mstate c)"
    using linker_fn_mstate [OF assms(1)] assms(2)
    by (auto simp: set_guest_response_def set_guest_error_def dest: fin async)
  show "world (env c') = world (env c)" and "module_count (env c') = module_count (env c)"
    and "context_count (env c') = context_count (env c)" and "\<exists>ts. spawned (env c') = spawned (env c) @ ts"
    using assms
    by (cases e; force simp: linker_console_log_def linker_guest_request_def
        linker_async_host_call_def linker_host_response_def linker_host_response_len_def
        linker_guest_response_ready_def linker_guest_response_def linker_guest_error_def
        linker_host_error_def linker_host_error_len_def with_params_def do_console_log_def
        obind_eq_Ret_iff Let_def set_caller_memory_def split: if_splits option.splits)+
qed

lemma linker_fn_steps: "linker_fn e ps c = Ret (r, c') \<Longrightarrow> ms_steps (mstate c) (mstate c')"
  using as_steps.import_step [of e "mstate c" c ps r c'] by (simp add: ms_steps.refl)

text \<open>The end of a task, a panic of one or a change of the environment elsewhere, seen by a host function.\<close>

lemma linker_fn_other_env:
  assumes run: "linker_fn e ps (c\<lparr>env := ev\<rparr>) = Ret (r, d)" and e: "e \<noteq> HostCall" and rt: "in_runtime ev = in_runtime (env c)"
  obtains c' ls ts where "linker_fn e ps c = Ret (r, c')" and "inst d = inst c'" and "mstate d = mstate c'"
    and "stdout (env c') = stdout (env c) @ ls" and "stdout (env d) = stdout ev @ ls"
    and "spawned (env c') = spawned (env c) @ ts" and "spawned (env d) = spawned ev @ ts"
    and "in_runtime (env d) = in_runtime (env c')"
proof -
  have "low_eq (env c) ev c (c\<lparr>env := ev\<rparr>)"
    using rt by (simp add: low_eq_def same_effects_start)
  then have "same_result (low_eq (env c) ev) (linker_fn e ps c) (linker_fn e ps (c\<lparr>env := ev\<rparr>))"
    using linker_fn_low e by blast
  then obtain c' where "linker_fn e ps c = Ret (r, c')" "low_eq (env c) ev c' d"
    unfolding run by (cases "linker_fn e ps c") auto
  then show thesis
    using that by (auto simp: low_eq_def same_effects_def)
qed

subsection \<open>A run of the guest and what goes on beside it\<close>

definition set_cx :: "('g, 'w) cx \<Rightarrow> ('g, 'w) async_call \<Rightarrow> ('g, 'w) async_call" where
  "set_cx c s = s\<lparr>ac_context := (ac_context s)\<lparr>wc_inst := inst c\<rparr>, ac_state := mstate c, ac_env := env c\<rparr>"

lemma set_cx_simps [simp]:
  "ac_cx (set_cx c s) = c" "set_cx c (set_cx d s) = set_cx c s" "set_cx (ac_cx s) s = s"
  "ac_stage (set_cx c s) = ac_stage s" "ac_queue (set_cx c s) = ac_queue s" "ac_task (set_cx c s) = ac_task s"
  "ac_env (set_cx c s) = env c" "ac_state (set_cx c s) = mstate c"
  "ac_context (set_cx c s) = (ac_context s)\<lparr>wc_inst := inst c\<rparr>"
  by (simp_all add: set_cx_def ac_cx_def)

text \<open>The guest's own steps.\<close>

datatype guest_label = Own | Called host_exports "i32 list" "i32 option"

inductive guest_move ::
    "('g, 'r) guest_prog \<times> ('g, 'w) async_call \<Rightarrow> guest_label \<Rightarrow> ('g, 'r) guest_prog \<times> ('g, 'w) async_call \<Rightarrow> bool" where
  move_get: "guest_move (GGet k, s) Own (k (wc_inst (ac_context s)), s)"
| move_put: "guest_move (GPut i p, s) Own (p, set_cx ((ac_cx s)\<lparr>inst := i\<rparr>) s)"
| move_call: "linker_fn e ps (ac_cx s) = Ret (r, c) \<Longrightarrow> guest_move (GCall e ps k, s) (Called e ps r) (k r, set_cx c s)"

text \<open>Steps of other threads: host tasks end or panic, the rest of the process goes on, and, when it is not
  the future of the call that runs the guest (\<open>polled\<close>), this future is answered or dropped.\<close>

inductive beside_step ::
    "bool \<Rightarrow> ('g, 'w) async_call \<Rightarrow> ac_event \<Rightarrow> ('g, 'w) async_call \<Rightarrow> bool" for polled where
  beside_completed:
    "k < length (spawned (ac_env s)) \<Longrightarrow>
     finish_async_host_call (spawned (ac_env s) ! k) (ac_state s) (world (ac_env s)) = Ret ((i, code), ms', w') \<Longrightarrow>
     beside_step polled s (Completed i code)
       (ac_send (async_message i code)
          (s\<lparr>ac_state := ms', ac_env := (ac_env s)\<lparr>world := w', spawned := without k (spawned (ac_env s))\<rparr>\<rparr>))"
| beside_panicked:
    "k < length (spawned (ac_env s)) \<Longrightarrow>
     finish_async_host_call (spawned (ac_env s) ! k) (ac_state s) (world (ac_env s)) = Panic p \<Longrightarrow>
     beside_step polled s Silent
       (s\<lparr>ac_env := (ac_env s)\<lparr>world := w', spawned := without k (spawned (ac_env s))\<rparr>\<rparr>)"
| beside_elsewhere:
    "spawned ev' = spawned (ac_env s) \<Longrightarrow> in_runtime ev' = in_runtime (ac_env s) \<Longrightarrow>
     beside_step polled s Silent (s\<lparr>ac_env := ev'\<rparr>)"
| beside_answered:
    "\<not> polled \<Longrightarrow> ac_stage s = Awaiting rx \<Longrightarrow> replied rx reply (ac_state s) \<Longrightarrow>
     beside_step polled s Silent (drop_context (Answered reply) s)"
| beside_abandoned:
    "\<not> polled \<Longrightarrow> \<not> context_dropped s \<Longrightarrow> beside_step polled s Silent (drop_context Abandoned s)"

lemma beside_is_step: "beside_step polled s e t \<Longrightarrow> ac_step api op payload s e t"
  by (induction rule: beside_step.induct) (auto intro: ac_step.intros simp: replied_def)

fun beside_move ::
    "bool \<Rightarrow> ('g, 'r) guest_prog \<times> ('g, 'w) async_call \<Rightarrow> ac_event \<Rightarrow> ('g, 'r) guest_prog \<times> ('g, 'w) async_call \<Rightarrow> bool" where
  "beside_move polled (p, s) e (q, t) = (q = p \<and> beside_step polled s e t)"

text \<open>When a step of the guest does not come to the same after a step beside it as before.\<close>

fun clashes :: "ac_event \<Rightarrow> guest_label \<Rightarrow> bool" where
  "clashes ev Own = False"
| "clashes (Completed j code) (Called e ps r) = (e = HostCall \<or> names_id j e ps \<or> (e = AsyncHostCall \<and> r = Some j))"
| "clashes ev (Called e ps r) = (e = HostCall)"

lemma clashes_HostCall: "\<not> clashes ev (Called e ps r) \<Longrightarrow> e \<noteq> HostCall"
  by (cases ev) auto

lemma async_call_index:
  "linker_fn AsyncHostCall ps c = Ret (r, c') \<Longrightarrow> r = Some (call_index (mstate c))"
  by (auto simp: linker_async_host_call_def with_params_def obind_eq_Ret_iff do_async_host_call_def next_call_index_def
      Let_def split: if_splits)

lemma beside_context: "beside_step polled s e t \<Longrightarrow> ac_context t = ac_context s"
  by (induction rule: beside_step.induct) simp_all

lemma replied_call: "linker_fn e ps c = Ret (r, c') \<Longrightarrow> replied rx v (mstate c) \<Longrightarrow> replied rx v (mstate c')"
  using replied_steps linker_fn_steps by blast

lemma drop_context_set_cx: "drop_context st (set_cx c s) = set_cx c (drop_context st s)"
  by (simp add: drop_context_def ac_send_def set_cx_def)

lemma ac_cx_drop_context [simp]: "ac_cx (drop_context st s) = ac_cx s"
  by (simp add: ac_cx_def)

lemma without_append: "k < length xs \<Longrightarrow> without k (xs @ ys) = without k xs @ ys"
  by (simp add: without_def)

lemma swap_completed:
  assumes k: "k < length (spawned (ac_env s))"
    and fin: "finish_async_host_call (spawned (ac_env s) ! k) (ac_state s) (world (ac_env s)) = Ret ((i, code), ms', w')"
    and call: "linker_fn e ps \<lparr>inst = wc_inst (ac_context s), mstate = ms',
        env = (ac_env s)\<lparr>world := w', spawned := without k (spawned (ac_env s))\<rparr>\<rparr> = Ret (r, c)"
    and clash: "\<not> clashes (Completed i code) (Called e ps r)"
  shows "\<exists>c'. linker_fn e ps (ac_cx s) = Ret (r, c') \<and> inst c = inst c'
    \<and> env c = (env c')\<lparr>world := w', spawned := without k (spawned (env c'))\<rparr> \<and> k < length (spawned (env c'))
    \<and> finish_async_host_call (spawned (env c') ! k) (mstate c') (world (env c')) = Ret ((i, code), mstate c, w')"
proof -
  let ?t = "spawned (ac_env s) ! k" let ?ev = "(ac_env s)\<lparr>world := w', spawned := without k (spawned (ac_env s))\<rparr>"
  obtain v where cb: "run_callback (async_hostcall (ac_state s)) (task_id ?t) (task_binding ?t) (task_namespace ?t)
      (task_operation ?t) (task_payload ?t) (world (ac_env s)) = Ret (v, w')"
    and i: "i = task_id ?t" and rec: "record_host_result i v (ac_state s) = (code, ms')"
    using fin by (rule finish_async_Ret)
  have ms': "ms' = file_result i v (ac_state s)"
    using rec by (simp add: file_result_def)
  have e: "e \<noteq> HostCall" and names: "\<not> names_id i e ps" and index: "e = AsyncHostCall \<Longrightarrow> r \<noteq> Some i"
    using clash by auto
  have "linker_fn e ps ((cx_file i v (ac_cx s))\<lparr>env := ?ev\<rparr>) = Ret (r, c)"
    using call by (simp add: ac_cx_def ms')
  then obtain c1 ls ts where c1: "linker_fn e ps (cx_file i v (ac_cx s)) = Ret (r, c1)" "inst c = inst c1" "mstate c = mstate c1"
    and out: "stdout (env c1) = stdout (ac_env s) @ ls" "stdout (env c) = stdout (ac_env s) @ ls"
    and tasks: "spawned (env c1) = spawned (ac_env s) @ ts" "spawned (env c) = without k (spawned (ac_env s)) @ ts"
    and rt: "in_runtime (env c) = in_runtime (env c1)"
    by (rule linker_fn_other_env [OF _ e]) (simp_all add: ac_cx_def)
  have "call_index (ac_state s) \<noteq> i" if "e = AsyncHostCall"
    using async_call_index c1(1) that index by (force simp: ac_cx_def)
  then have "linker_fn e ps (cx_file i v (ac_cx s)) = map_outcome (map_prod id (cx_file i v)) (linker_fn e ps (ac_cx s))"
    by (intro linker_fn_file_result [OF e names]) (simp add: ac_cx_def)
  then obtain c' where c': "linker_fn e ps (ac_cx s) = Ret (r, c')" "c1 = cx_file i v c'"
    using c1(1) by (cases "linker_fn e ps (ac_cx s)") auto
  note env' = linker_fn_env [OF c'(1) e]
  note env = linker_fn_env [OF call e]
  have "env c = (env c')\<lparr>world := w', spawned := without k (spawned (env c'))\<rparr>"
    using out tasks rt env(1-3) env'(1-3) k by (intro env.equality) (simp_all add: c'(2) ac_cx_def without_append)
  moreover have "k < length (spawned (env c'))" "spawned (env c') ! k = ?t"
    using tasks(1) k by (simp_all add: c'(2) nth_append)
  moreover have "finish_async_host_call ?t (mstate c') (world (env c')) = Ret ((i, code), mstate c, w')"
  proof -
    have "fst (record_host_result i v (mstate c')) = code"
      using rec by (cases v) (auto simp: record_host_result_def)
    then have "record_host_result i v (mstate c') = (code, mstate c)"
      using c1(3) c'(2) by (simp add: file_result_def prod_eq_iff)
    then show ?thesis
      using cb env'(1,5) i by (simp add: finish_async_host_call_def ac_cx_def Let_def)
  qed
  ultimately show ?thesis
    using c' c1(2) by auto
qed

lemma swap_env:
  assumes call: "linker_fn e ps ((ac_cx s)\<lparr>env := ev\<rparr>) = Ret (r, c)" and e: "e \<noteq> HostCall"
    and rt: "in_runtime ev = in_runtime (ac_env s)"
  obtains c' ts where "linker_fn e ps (ac_cx s) = Ret (r, c')" and "inst c = inst c'" and "mstate c = mstate c'"
    and "spawned (env c') = spawned (ac_env s) @ ts" and "spawned (env c) = spawned ev @ ts"
    and "in_runtime (env c) = in_runtime (env c')"
    and "stdout ev = stdout (ac_env s) \<Longrightarrow> stdout (env c) = stdout (env c')"
  by (rule linker_fn_other_env [OF call e]) (use rt in \<open>auto simp: ac_cx_def\<close>)

lemma set_cx_send:
  "inst c = inst c' \<Longrightarrow>
   set_cx c (ac_send m (s\<lparr>ac_state := ms, ac_env := ev\<rparr>)) = ac_send m ((set_cx c' s)\<lparr>ac_state := mstate c, ac_env := env c\<rparr>)"
  by (cases s) (simp add: set_cx_def ac_send_def)

lemma set_cx_env:
  "inst c = inst c' \<Longrightarrow> mstate c = mstate c' \<Longrightarrow> set_cx c (s\<lparr>ac_env := ev\<rparr>) = (set_cx c' s)\<lparr>ac_env := env c\<rparr>"
  by (cases s) (simp add: set_cx_def)

lemma swap_call:
  assumes "beside_step polled s ev t" and "linker_fn e ps (ac_cx t) = Ret (r, c)" and "\<not> clashes ev (Called e ps r)"
  shows "\<exists>c'. linker_fn e ps (ac_cx s) = Ret (r, c') \<and> beside_step polled (set_cx c' s) ev (set_cx c t)"
  using assms
proof (induction rule: beside_step.induct)
  case (beside_completed k s i code ms' w')
  obtain c' where c': "linker_fn e ps (ac_cx s) = Ret (r, c')" "inst c = inst c'"
      "env c = (env c')\<lparr>world := w', spawned := without k (spawned (env c'))\<rparr>" "k < length (spawned (env c'))"
    and fin: "finish_async_host_call (spawned (env c') ! k) (mstate c') (world (env c')) = Ret ((i, code), mstate c, w')"
    using swap_completed [OF beside_completed.hyps _ beside_completed.prems(2)] beside_completed.prems(1)
    by (auto simp: ac_cx_def)
  then show ?case
    using beside_step.beside_completed [of k "set_cx c' s" i code "mstate c" w' polled]
    by (intro exI [of _ c'] conjI) (simp_all add: set_cx_send)
next
  case (beside_panicked k s p w')
  let ?ev = "(ac_env s)\<lparr>world := w', spawned := without k (spawned (ac_env s))\<rparr>"
  have e: "e \<noteq> HostCall"
    using beside_panicked.prems(2) by (rule clashes_HostCall)
  have "linker_fn e ps ((ac_cx s)\<lparr>env := ?ev\<rparr>) = Ret (r, c)"
    using beside_panicked.prems(1) by (simp add: ac_cx_def)
  then obtain c' ts where c': "linker_fn e ps (ac_cx s) = Ret (r, c')" "inst c = inst c'" "mstate c = mstate c'"
    and tasks: "spawned (env c') = spawned (ac_env s) @ ts" "spawned (env c) = without k (spawned (ac_env s)) @ ts"
    and rest: "in_runtime (env c) = in_runtime (env c')" "stdout (env c) = stdout (env c')"
    by (rule swap_env [OF _ e]) simp_all
  note env' = linker_fn_env [OF c'(1) e]
  note env = linker_fn_env [OF beside_panicked.prems(1) e]
  have "env c = (env c')\<lparr>world := w', spawned := without k (spawned (env c'))\<rparr>"
    using tasks rest env(1-3) env'(1-3) beside_panicked.hyps(1)
    by (intro env.equality) (simp_all add: ac_cx_def without_append)
  moreover have "k < length (spawned (env c'))" "spawned (env c') ! k = spawned (ac_env s) ! k"
    using tasks(1) beside_panicked.hyps(1) by (simp_all add: nth_append)
  moreover have "finish_async_host_call (spawned (ac_env s) ! k) (mstate c') (world (env c')) = Panic p"
    using beside_panicked.hyps(2) env'(1,5)
    by (auto simp: finish_async_host_call_def ac_cx_def obind_eq_Panic_iff Let_def split: prod.splits)
  ultimately show ?case
    using c' beside_step.beside_panicked [of k "set_cx c' s" p polled w']
    by (intro exI [of _ c'] conjI) (simp_all add: set_cx_env)
next
  case (beside_elsewhere ev' s)
  have e: "e \<noteq> HostCall"
    using beside_elsewhere.prems(2) by (rule clashes_HostCall)
  have "linker_fn e ps ((ac_cx s)\<lparr>env := ev'\<rparr>) = Ret (r, c)"
    using beside_elsewhere.prems(1) by (simp add: ac_cx_def)
  then obtain c' ts where c': "linker_fn e ps (ac_cx s) = Ret (r, c')" "inst c = inst c'" "mstate c = mstate c'"
    and "spawned (env c') = spawned (ac_env s) @ ts" "spawned (env c) = spawned ev' @ ts"
      "in_runtime (env c) = in_runtime (env c')"
    by (rule swap_env [OF _ e]) (use beside_elsewhere.hyps in simp_all)
  then show ?case
    using beside_elsewhere.hyps beside_step.beside_elsewhere [of "env c" "set_cx c' s" polled]
    by (intro exI [of _ c'] conjI) (simp_all add: set_cx_env)
next
  case (beside_answered s rx reply)
  then have call: "linker_fn e ps (ac_cx s) = Ret (r, c)"
    by simp
  then have "replied rx reply (mstate c)"
    using replied_call beside_answered.hyps(3) by (fastforce simp: ac_cx_def)
  then show ?case
    using call beside_answered.hyps beside_step.beside_answered [of polled "set_cx c s" rx reply]
    by (intro exI [of _ c] conjI) (simp_all add: drop_context_set_cx)
next
  case (beside_abandoned s)
  then show ?case
    using beside_step.beside_abandoned [of polled "set_cx c s"]
    by (intro exI [of _ c] conjI) (simp_all add: drop_context_set_cx context_dropped_def)
qed

lemma swap_put:
  assumes "beside_step polled s ev t"
  shows "beside_step polled (set_cx ((ac_cx s)\<lparr>inst := i\<rparr>) s) ev (set_cx ((ac_cx t)\<lparr>inst := i\<rparr>) t)"
proof -
  let ?s = "set_cx ((ac_cx s)\<lparr>inst := i\<rparr>) s" let ?c = "(ac_cx t)\<lparr>inst := i\<rparr>"
  have fields: "ac_state ?s = ac_state s" "ac_env ?s = ac_env s" "ac_stage ?s = ac_stage s"
    by (simp_all add: ac_cx_def)
  from assms show ?thesis
  proof (cases rule: beside_step.cases)
    case (beside_completed k j code ms' w')
    have "set_cx ?c t = ac_send (async_message j code) (?s\<lparr>ac_state := mstate ?c, ac_env := env ?c\<rparr>)"
      unfolding beside_completed by (rule set_cx_send) simp
    then show ?thesis
      using beside_step.beside_completed [of k ?s j code ms' w' polled] beside_completed(1,3,4)
      by (simp add: fields) (simp add: beside_completed(2) ac_cx_def)
  next
    case (beside_panicked k p w')
    have "set_cx ?c t = ?s\<lparr>ac_env := env ?c\<rparr>"
      unfolding beside_panicked by (rule set_cx_env) (simp_all add: ac_cx_def)
    then show ?thesis
      using beside_step.beside_panicked [of k ?s p polled w'] beside_panicked(1,3,4) by (simp add: fields) (simp add: beside_panicked(2) ac_cx_def)
  next
    case (beside_elsewhere ev')
    have "set_cx ?c t = ?s\<lparr>ac_env := env ?c\<rparr>"
      unfolding beside_elsewhere by (rule set_cx_env) (simp_all add: ac_cx_def)
    then show ?thesis
      using beside_step.beside_elsewhere [of ev' ?s polled] beside_elsewhere(1,3,4) by (simp add: fields) (simp add: beside_elsewhere(2) ac_cx_def)
  next
    case (beside_answered rx reply)
    then show ?thesis
      using beside_step.beside_answered [of polled ?s rx reply] by (simp add: drop_context_set_cx) (simp add: ac_cx_def)
  next
    case beside_abandoned
    then show ?thesis
      using beside_step.beside_abandoned [of polled ?s] by (simp add: drop_context_set_cx context_dropped_def)
  qed
qed

interpretation guest_runs: postponable
    "guest_move :: ('g, 'r) guest_prog \<times> ('g, 'w) async_call \<Rightarrow> _" "beside_move polled" clashes for polled
proof
  fix S U V :: "('g, 'r) guest_prog \<times> ('g, 'w) async_call" and e a
  assume beside: "beside_move polled S e U" and move: "guest_move U a V" and clash: "\<not> clashes e a"
  obtain p s t where S: "S = (p, s)" and U: "U = (p, t)" and step: "beside_step polled s e t"
    using beside by (cases S; cases U) simp
  show "\<exists>W. guest_move S a W \<and> beside_move polled W e V"
    using move unfolding U
  proof (cases rule: guest_move.cases)
    case (move_get k)
    then show ?thesis
      using guest_move.move_get [of k s] step beside_context [OF step] by (auto simp: S)
  next
    case (move_put i q)
    then show ?thesis
      using guest_move.move_put [of i q s] swap_put [OF step, of i] by (auto simp: S)
  next
    case (move_call e' ps r c k)
    then obtain c' where "linker_fn e' ps (ac_cx s) = Ret (r, c')" "beside_step polled (set_cx c' s) e (set_cx c t)"
      using swap_call [OF step] clash by blast
    then show ?thesis
      using guest_move.move_call [of e' ps s r c' k] move_call by (auto simp: S)
  qed
qed

subsection \<open>Runs without races are serial\<close>

fun ended :: "('g, 'r) guest_prog \<Rightarrow> (string + 'r) option" where
  "ended (GRet x) = Some (Inr x)"
| "ended (GTrap m) = Some (Inl m)"
| "ended p = None"

lemma run_ended: "ended p = Some r \<Longrightarrow> run_guest p c = Ret (r, c)"
  by (cases p) auto

lemma guest_move_run:
  assumes "guest_move (p, s) a (q, t)"
  shows "run_guest p (ac_cx s) = run_guest q (ac_cx t) \<and> t = set_cx (ac_cx t) s"
  using assms by (cases rule: guest_move.cases) (simp_all, simp_all add: ac_cx_def)

lemma moves_run:
  "mixed guest_move B (p, s) (map Inl as) (q, t) \<Longrightarrow> run_guest p (ac_cx s) = run_guest q (ac_cx t) \<and> t = set_cx (ac_cx t) s"
proof (induction as arbitrary: q t rule: rev_induct)
  case Nil
  then have "(q, t) = (p, s)"
    by (auto elim: mixed.cases)
  then show ?case
    by simp
next
  case (snoc a as)
  obtain q1 t1 where first: "mixed guest_move B (p, s) (map Inl as) (q1, t1)" and last: "guest_move (q1, t1) a (q, t)"
    using snoc.prems by (cases rule: mixed.cases) auto
  then show ?case
    using snoc.IH [OF first] guest_move_run [OF last] by (metis set_cx_simps(2))
qed

lemma besides_run:
  "mixed M (beside_move polled) (p, s) (map Inr es) (q, t) \<Longrightarrow> q = p \<and> (\<forall>api op payload. ac_steps api op payload s es t)"
proof (induction es arbitrary: q t rule: rev_induct)
  case Nil
  then have "(q, t) = (p, s)"
    by (auto elim: mixed.cases)
  then show ?case
    by (auto intro: ac_steps.refl)
next
  case (snoc e es)
  obtain q1 t1 where first: "mixed M (beside_move polled) (p, s) (map Inr es) (q1, t1)" and last: "beside_move polled (q1, t1) e (q, t)"
    using snoc.prems by (cases rule: mixed.cases) auto
  then show ?case
    using snoc.IH [OF first] beside_is_step ac_steps.step by fastforce
qed

text \<open>A run of the guest without a race is the guest's own run followed by what went on beside it.\<close>

lemma serial_run:
  fixes s :: "('g, 'w) async_call"
  assumes "mixed guest_move (beside_move polled) (p, s) ls (q, t)" and "race_free clashes ls" and "ended q = Some r"
  obtains c where "run_guest p (ac_cx s) = Ret (r, c)"
    and "mixed guest_move (beside_move polled) (q, set_cx c s) (map Inr (besides ls)) (q, t)"
proof -
  obtain q1 u where moves: "mixed guest_move (beside_move polled) (p, s) (map Inl (moves ls)) (q1, u)"
    and rest: "mixed guest_move (beside_move polled) (q1, u) (map Inr (besides ls)) (q, t)"
    using guest_runs.postpone [OF assms(1,2)] by auto
  have q1: "q1 = q"
    using besides_run [OF rest] by simp
  have "run_guest p (ac_cx s) = Ret (r, ac_cx u)" "u = set_cx (ac_cx u) s"
    using moves_run [OF moves] run_ended [OF assms(3)] by (simp_all add: q1)
  then show thesis
    using that [of "ac_cx u"] rest q1 by simp
qed

text \<open>Changes of the stage and of the state of the call at the end of a run, made before what went on
  beside it.\<close>

definition call_ends :: "i32 \<Rightarrow> string + unit \<Rightarrow> 'w module_state \<Rightarrow> 'w module_state outcome" where
  "call_ends i r ms = (case r of Inr _ \<Rightarrow> Ret ms | Inl t \<Rightarrow> set_guest_call_complete i 0 [] (set_guest_error i t ms))"

lemma call_ends_file_result:
  assumes "i \<noteq> j"
  shows "call_ends i r (file_result j v ms) = map_outcome (file_result j v) (call_ends i r ms)"
  using assms
  by (auto simp: call_ends_def set_guest_call_complete_def set_guest_response_def [symmetric] finish_file_result split: sum.splits)

lemma call_ends_frame:
  assumes "call_ends i r ms = Ret ms'"
  shows "async_hostcall ms' = async_hostcall ms"
  using assms
  by (auto simp: call_ends_def set_guest_call_complete_def finish_guest_invocation_def oneshot_send_def Let_def
      obind_eq_Ret_iff set_guest_error_def split: sum.splits option.splits)

lemma beside_call_ends:
  assumes "beside_step True s ev t" and ends: "call_ends i r (ac_state t) = Ret ms'"
    and other: "\<And>code. r \<noteq> Inr () \<Longrightarrow> ev \<noteq> Completed i code"
  shows "\<exists>ms. call_ends i r (ac_state s) = Ret ms
    \<and> beside_step True (s\<lparr>ac_stage := st, ac_state := ms\<rparr>) ev (t\<lparr>ac_stage := st, ac_state := ms'\<rparr>)"
  using assms(1)
proof (cases rule: beside_step.cases)
  case (beside_completed k j code ms1 w')
  let ?t = "spawned (ac_env s) ! k"
  obtain v where cb: "run_callback (async_hostcall (ac_state s)) (task_id ?t) (task_binding ?t) (task_namespace ?t)
      (task_operation ?t) (task_payload ?t) (world (ac_env s)) = Ret (v, w')"
    and j: "j = task_id ?t" and rec: "record_host_result j v (ac_state s) = (code, ms1)"
    using beside_completed(4) by (rule finish_async_Ret)
  have ms1: "ac_state t = file_result j v (ac_state s)"
    using rec beside_completed(2) by (simp add: file_result_def)
  have "call_ends i r (file_result j v (ac_state s)) = map_outcome (file_result j v) (call_ends i r (ac_state s))"
  proof (cases "r = Inr ()")
    case False
    then have "i \<noteq> j"
      using other beside_completed(1) by blast
    then show ?thesis
      by (rule call_ends_file_result)
  qed (simp add: call_ends_def)
  then obtain ms where ms: "call_ends i r (ac_state s) = Ret ms" "ms' = file_result j v ms"
    using ends unfolding ms1 by (cases "call_ends i r (ac_state s)") auto
  have "record_host_result j v ms = (code, ms')"
    using rec ms(2) by (cases v) (auto simp: record_host_result_def file_result_def)
  then have "finish_async_host_call ?t ms (world (ac_env s)) = Ret ((j, code), ms', w')"
    using cb j call_ends_frame [OF ms(1)] by (simp add: finish_async_host_call_def Let_def)
  then have "beside_step True (s\<lparr>ac_stage := st, ac_state := ms\<rparr>) (Completed j code)
      (ac_send (async_message j code) (s\<lparr>ac_stage := st, ac_state := ms', ac_env := (ac_env s)\<lparr>world := w',
         spawned := without k (spawned (ac_env s))\<rparr>\<rparr>))"
    using beside_step.beside_completed [of k "s\<lparr>ac_stage := st, ac_state := ms\<rparr>" j code ms' w' True] beside_completed(3) by simp
  moreover have "t\<lparr>ac_stage := st, ac_state := ms'\<rparr> = ac_send (async_message j code)
      (s\<lparr>ac_stage := st, ac_state := ms', ac_env := (ac_env s)\<lparr>world := w', spawned := without k (spawned (ac_env s))\<rparr>\<rparr>)"
    unfolding beside_completed(2) by (cases s) (simp add: ac_send_def)
  ultimately show ?thesis
    using ms(1) beside_completed(1) by auto
next
  case (beside_panicked k p w')
  have state: "ac_state t = ac_state s"
    by (simp add: beside_panicked(2))
  have "finish_async_host_call (spawned (ac_env s) ! k) ms' (world (ac_env s)) = Panic p"
    using beside_panicked(4) call_ends_frame [OF ends] state
    by (auto simp: finish_async_host_call_def obind_eq_Panic_iff Let_def split: prod.splits)
  moreover have "t\<lparr>ac_stage := st, ac_state := ms'\<rparr> = (s\<lparr>ac_stage := st, ac_state := ms'\<rparr>)
      \<lparr>ac_env := (ac_env s)\<lparr>world := w', spawned := without k (spawned (ac_env s))\<rparr>\<rparr>"
    unfolding beside_panicked(2) by (cases s) simp
  ultimately show ?thesis
    using beside_step.beside_panicked [of k "s\<lparr>ac_stage := st, ac_state := ms'\<rparr>" p True w'] beside_panicked(1,3) ends state
    by (intro exI [of _ ms']) simp
next
  case (beside_elsewhere ev')
  have "t\<lparr>ac_stage := st, ac_state := ms'\<rparr> = (s\<lparr>ac_stage := st, ac_state := ms'\<rparr>)\<lparr>ac_env := ev'\<rparr>"
    unfolding beside_elsewhere(2) by (cases s) simp
  then show ?thesis
    using beside_step.beside_elsewhere [of ev' "s\<lparr>ac_stage := st, ac_state := ms'\<rparr>" True] beside_elsewhere(1,3,4) ends
    by (intro exI [of _ ms']) (simp add: beside_elsewhere(2) [THEN arg_cong [where f = ac_state]])
qed simp_all

lemma besides_call_ends:
  assumes "mixed M (beside_move True) (p, s) (map Inr es) (q, t)" and "call_ends i r (ac_state t) = Ret ms'"
    and "\<And>code. r \<noteq> Inr () \<Longrightarrow> Completed i code \<notin> set es"
  shows "\<exists>ms. call_ends i r (ac_state s) = Ret ms
    \<and> mixed M (beside_move True) (p, s\<lparr>ac_stage := st, ac_state := ms\<rparr>) (map Inr es) (q, t\<lparr>ac_stage := st, ac_state := ms'\<rparr>)"
  using assms
proof (induction es arbitrary: q t ms' rule: rev_induct)
  case Nil
  then have "(q, t) = (p, s)"
    by (auto elim: mixed.cases)
  then show ?case
    using Nil by (auto intro: mixed.mixed_refl)
next
  case (snoc e es)
  obtain q1 t1 where first: "mixed M (beside_move True) (p, s) (map Inr es) (q1, t1)" and last: "beside_move True (q1, t1) e (q, t)"
    using snoc.prems by (cases rule: mixed.cases) auto
  then have q: "q = q1" and step: "beside_step True t1 e t"
    by simp_all
  have "\<And>code. r \<noteq> Inr () \<Longrightarrow> e \<noteq> Completed i code"
    using snoc.prems(3) by auto
  from beside_call_ends [OF step snoc.prems(2) this, of st] obtain ms1 where
    ms1: "call_ends i r (ac_state t1) = Ret ms1"
    and step1: "beside_step True (t1\<lparr>ac_stage := st, ac_state := ms1\<rparr>) e (t\<lparr>ac_stage := st, ac_state := ms'\<rparr>)"
    by blast
  have "\<And>code. r \<noteq> Inr () \<Longrightarrow> Completed i code \<notin> set es"
    using snoc.prems(3) by auto
  from snoc.IH [OF first ms1 this] obtain ms where "call_ends i r (ac_state s) = Ret ms"
    and run: "mixed M (beside_move True) (p, s\<lparr>ac_stage := st, ac_state := ms\<rparr>) (map Inr es) (q1, t1\<lparr>ac_stage := st, ac_state := ms1\<rparr>)"
    by blast
  moreover have "beside_move True (q1, t1\<lparr>ac_stage := st, ac_state := ms1\<rparr>) e (q, t\<lparr>ac_stage := st, ac_state := ms'\<rparr>)"
    using step1 q by simp
  ultimately show ?case
    using mixed.mixed_beside [where beside = "beside_move True", OF run] by auto
qed

subsection \<open>Calls on several threads\<close>

text \<open>A step of the call together with what goes on beside the run of the guest in it. The future runs the
  start functions when it is first polled and the guest's \<open>__async_guest_call\<close> when it is polled again;
  the context's task runs \<open>__host_call_response_ready\<close>. An initialisation that fails is left as one
  step. No host call that ends beside the run has the id of the call itself, which would take 2 ^ 32
  ids.\<close>

inductive par_step ::
    "'g wasmtime_api \<Rightarrow> string \<Rightarrow> bytes \<Rightarrow> ('g, 'w) async_call \<Rightarrow> ac_event \<Rightarrow> (guest_label + ac_event) list
     \<Rightarrow> ('g, 'w) async_call \<Rightarrow> bool" for api op payload where
  par_alone: "ac_step api op payload s e t \<Longrightarrow> par_step api op payload s e [] t"
| par_opened:
    "ac_stage s = Unpolled \<Longrightarrow>
     mixed guest_move (beside_move True)
       (starters_prog (wc_module (ac_context s)) REQUIRED_STARTS,
        s\<lparr>ac_env := (ac_env s)\<lparr>context_count := context_count (ac_env s) + 1\<rparr>\<rparr>) ls (p, t) \<Longrightarrow>
     ended p = Some (Inr u) \<Longrightarrow>
     par_step api op payload s Silent ls (t\<lparr>ac_stage := Yielded (context_count (ac_env s))\<rparr>)"
| par_ran:
    "ac_stage s = Yielded k \<Longrightarrow> exported_async_call (ac_context s) = Some f \<Longrightarrow>
     new_invocation (Invocation_new op payload) (ac_state s) = (i, rx, ms1) \<Longrightarrow>
     mixed guest_move (beside_move True)
       (f i (i32_of_len (length op)) (i32_of_len (length payload)), s\<lparr>ac_state := ms1\<rparr>) ls (p, t) \<Longrightarrow>
     ended p = Some r \<Longrightarrow> call_ends i r (ac_state t) = Ret ms' \<Longrightarrow>
     (\<And>code. Completed i code \<notin> set (besides ls)) \<Longrightarrow>
     par_step api op payload s Silent ls (t\<lparr>ac_stage := Awaiting rx, ac_state := ms'\<rparr>)"
| par_delivered:
    "ac_task s \<Longrightarrow> ac_queue s = m # q \<Longrightarrow> message_args m = Some (i, code) \<Longrightarrow> response_ready (ac_context s) = Some f \<Longrightarrow>
     mixed guest_move (beside_move False) (f i code, s\<lparr>ac_queue := q\<rparr>) ls (p, t) \<Longrightarrow> ended p = Some r \<Longrightarrow>
     par_step api op payload s (Delivered i code) ls t"

inductive par_steps ::
    "'g wasmtime_api \<Rightarrow> string \<Rightarrow> bytes \<Rightarrow> ('g, 'w) async_call \<Rightarrow> (ac_event \<times> (guest_label + ac_event) list) list
     \<Rightarrow> ('g, 'w) async_call \<Rightarrow> bool" for api op payload s where
  par_refl: "par_steps api op payload s [] s"
| par_then: "par_steps api op payload s tr t \<Longrightarrow> par_step api op payload t e ls u \<Longrightarrow>
    par_steps api op payload s (tr @ [(e, ls)]) u"

definition events_of :: "(ac_event \<times> (guest_label + ac_event) list) list \<Rightarrow> ac_event list" where
  "events_of tr = concat (map (\<lambda>(e, ls). e # besides ls) tr)"

lemma ac_cons: "ac_step api op payload s e t \<Longrightarrow> ac_steps api op payload t tr u \<Longrightarrow> ac_steps api op payload s (e # tr) u"
  using ac_steps_trans [OF _ ac_steps.step [OF ac_steps.refl]] by fastforce

lemma serial_opened:
  assumes stage: "ac_stage s = Unpolled"
    and run: "mixed guest_move (beside_move True)
       (starters_prog (wc_module (ac_context s)) REQUIRED_STARTS,
        s\<lparr>ac_env := (ac_env s)\<lparr>context_count := context_count (ac_env s) + 1\<rparr>\<rparr>) ls (p, t)"
    and ended: "ended p = Some (Inr u)" and free: "race_free clashes ls"
  shows "ac_steps api op payload s (Silent # besides ls) (t\<lparr>ac_stage := Yielded (context_count (ac_env s))\<rparr>)"
proof -
  let ?ev = "(ac_env s)\<lparr>context_count := context_count (ac_env s) + 1\<rparr>"
  let ?st = "Yielded (context_count (ac_env s))"
  obtain c where c: "run_guest (starters_prog (wc_module (ac_context s)) REQUIRED_STARTS) (ac_cx (s\<lparr>ac_env := ?ev\<rparr>)) = Ret (Inr u, c)"
    and rest: "mixed guest_move (beside_move True) (p, set_cx c (s\<lparr>ac_env := ?ev\<rparr>)) (map Inr (besides ls)) (p, t)"
    by (rule serial_run [OF run free ended])
  let ?u = "(set_cx c (s\<lparr>ac_env := ?ev\<rparr>))\<lparr>ac_stage := ?st, ac_state := mstate c\<rparr>"
  have "mixed guest_move (beside_move True) (p, ?u) (map Inr (besides ls)) (p, t\<lparr>ac_stage := ?st, ac_state := ac_state t\<rparr>)"
    using besides_call_ends [OF rest, of 0 "Inr ()" "ac_state t" ?st] by (simp add: call_ends_def)
  then have later: "ac_steps api op payload ?u (besides ls) (t\<lparr>ac_stage := ?st\<rparr>)"
    using besides_run by fastforce
  have "wasmtime_context_init (ac_context s) (ac_state s) ?ev
      = Ret (Inr u, (ac_context s)\<lparr>wc_inst := inst c\<rparr>, mstate c, env c)"
    using c by (simp add: wasmtime_context_init_def run_starters_eq ac_cx_def)
  from ac_step.opened [OF stage this HOL.refl, of api op payload]
  have "ac_step api op payload s Silent ?u"
    by (simp add: set_cx_def) (cases s; simp)
  then show ?thesis
    using later by (rule ac_cons)
qed

lemma serial_ran:
  assumes stage: "ac_stage s = Yielded k" and f: "exported_async_call (ac_context s) = Some f"
    and ni: "new_invocation (Invocation_new op payload) (ac_state s) = (i, rx, ms1)"
    and run: "mixed guest_move (beside_move True)
       (f i (i32_of_len (length op)) (i32_of_len (length payload)), s\<lparr>ac_state := ms1\<rparr>) ls (p, t)"
    and ended: "ended p = Some r" and ends: "call_ends i r (ac_state t) = Ret ms'"
    and own: "\<And>code. Completed i code \<notin> set (besides ls)" and free: "race_free clashes ls"
  shows "ac_steps api op payload s (Silent # besides ls) (t\<lparr>ac_stage := Awaiting rx, ac_state := ms'\<rparr>)"
proof -
  let ?ol = "i32_of_len (length op)" let ?ml = "i32_of_len (length payload)"
  obtain c where c: "run_guest (f i ?ol ?ml) (ac_cx (s\<lparr>ac_state := ms1\<rparr>)) = Ret (r, c)"
    and rest: "mixed guest_move (beside_move True) (p, set_cx c (s\<lparr>ac_state := ms1\<rparr>)) (map Inr (besides ls)) (p, t)"
    by (rule serial_run [OF run free ended])
  obtain ms where ms: "call_ends i r (mstate c) = Ret ms"
    and later: "mixed guest_move (beside_move True) (p, (set_cx c (s\<lparr>ac_state := ms1\<rparr>))\<lparr>ac_stage := Awaiting rx, ac_state := ms\<rparr>)
      (map Inr (besides ls)) (p, t\<lparr>ac_stage := Awaiting rx, ac_state := ms'\<rparr>)"
    using besides_call_ends [OF rest ends own, of "Awaiting rx"] by auto
  let ?u = "(set_cx c (s\<lparr>ac_state := ms1\<rparr>))\<lparr>ac_stage := Awaiting rx, ac_state := ms\<rparr>"
  let ?cc = "\<lparr>wcc_context = ac_context s, wcc_id = k\<rparr>"
  have "wasmtime_call_async (ac_context s) i ?ol ?ml ms1 (ac_env s) = Ret (Inr 0, (ac_context s)\<lparr>wc_inst := inst c\<rparr>, ms, env c)"
    using c ms f
    by (auto simp: wasmtime_call_async_def exported_async_call_def call_ends_def ac_cx_def Let_def split: sum.splits)
  then have "call_async_run (wasmtime_engine api) ?cc op payload (ac_state s) (ac_env s)
      = Ret (Inr rx, ?cc\<lparr>wcc_context := (ac_context s)\<lparr>wc_inst := inst c\<rparr>\<rparr>, ms, env c)"
    using ni by (simp add: call_async_run_def WapcCallContext_call_async_def Let_def Invocation_new_def)
  from ac_step.ran [OF stage this HOL.refl]
  have "ac_step api op payload s Silent ?u"
    by (cases s) (simp add: set_cx_def)
  moreover have "ac_steps api op payload ?u (besides ls) (t\<lparr>ac_stage := Awaiting rx, ac_state := ms'\<rparr>)"
    using besides_run [OF later] by blast
  ultimately show ?thesis
    by (rule ac_cons)
qed

lemma serial_delivered:
  assumes "ac_task s" and "ac_queue s = m # q" and "message_args m = Some (i, code)" and "response_ready (ac_context s) = Some f"
    and run: "mixed guest_move (beside_move False) (f i code, s\<lparr>ac_queue := q\<rparr>) ls (p, t)" and ended: "ended p = Some r"
    and free: "race_free clashes ls"
  shows "ac_steps api op payload s (Delivered i code # besides ls) t"
proof -
  obtain c where c: "run_guest (f i code) (ac_cx (s\<lparr>ac_queue := q\<rparr>)) = Ret (r, c)"
    and rest: "mixed guest_move (beside_move False) (p, set_cx c (s\<lparr>ac_queue := q\<rparr>)) (map Inr (besides ls)) (p, t)"
    by (rule serial_run [OF run free ended])
  have "run_guest (f i code) (ac_cx s) = Ret (r, c)"
    using c by (simp add: ac_cx_def)
  from ac_step.delivered [OF assms(1-4) this]
  have "ac_step api op payload s (Delivered i code) (set_cx c (s\<lparr>ac_queue := q\<rparr>))"
    by (cases s) (simp add: set_cx_def)
  moreover have "ac_steps api op payload (set_cx c (s\<lparr>ac_queue := q\<rparr>)) (besides ls) t"
    using besides_run [OF rest] by blast
  ultimately show ?thesis
    by (rule ac_cons)
qed

lemma par_step_serial:
  assumes "par_step api op payload s e ls t" and "race_free clashes ls"
  shows "ac_steps api op payload s (e # besides ls) t"
  using assms
proof (induction rule: par_step.induct)
  case (par_alone s e t)
  then show ?case
    using ac_cons ac_steps.refl by fastforce
qed (blast intro: serial_opened serial_ran serial_delivered)+

lemma par_steps_serial:
  assumes "par_steps api op payload s tr t" and "\<And>e ls. (e, ls) \<in> set tr \<Longrightarrow> race_free clashes ls"
  shows "ac_steps api op payload s (events_of tr) t"
  using assms
proof (induction rule: par_steps.induct)
  case par_refl
  then show ?case
    by (simp add: events_of_def ac_steps.refl)
next
  case (par_then tr t e ls u)
  then have "ac_steps api op payload s (events_of tr) t" and "race_free clashes ls"
    by auto
  note this(1) par_step_serial [OF par_then.hyps(2) this(2)]
  from ac_steps_trans [OF this(2,1)] show ?case
    by (simp add: events_of_def)
qed

subsection \<open>Runs that do not race\<close>

lemma linker_fn_index:
  assumes "linker_fn e ps c = Ret (r, c')" and "e \<noteq> HostCall"
  shows "if e = AsyncHostCall
    then r = Some (call_index (mstate c)) \<and> call_index (mstate c') = call_index (mstate c) + 1
      \<and> (\<exists>t. task_id t = call_index (mstate c) \<and> spawned (env c') = spawned (env c) @ [t])
    else call_index (mstate c') = call_index (mstate c) \<and> spawned (env c') = spawned (env c)"
proof (cases "e = AsyncHostCall")
  case True
  then show ?thesis
    using assms(1)
    by (auto simp: linker_async_host_call_def with_params_def obind_eq_Ret_iff do_async_host_call_def next_call_index_def
        init_host_call_def Let_def split: if_splits)
next
  case False
  have fin: "call_index ms' = call_index ms" if "finish_guest_invocation i k ms = Ret ms'"
    for i k and ms ms' :: "'b module_state"
    using that by (auto simp: finish_guest_invocation_def Let_def obind_eq_Ret_iff oneshot_send_def split: option.splits)
  have "call_index (mstate c') = call_index (mstate c)"
    using linker_fn_mstate [OF assms(1)] assms(2) False
    by (auto simp: set_guest_response_def set_guest_error_def dest: fin)
  moreover have "spawned (env c') = spawned (env c)"
    using assms False
    by (cases e; force simp: linker_console_log_def linker_guest_request_def
        linker_host_response_def linker_host_response_len_def
        linker_guest_response_ready_def linker_guest_response_def linker_guest_error_def
        linker_host_error_def linker_host_error_len_def with_params_def do_console_log_def
        obind_eq_Ret_iff Let_def set_caller_memory_def split: if_splits option.splits)
  ultimately show ?thesis
    using False by simp
qed

text \<open>A guest that makes no synchronous host call and asks for no results but those of the ids in \<open>R\<close>.\<close>

primrec asks_only :: "i32 set \<Rightarrow> ('g, 'r) guest_prog \<Rightarrow> bool" where
  "asks_only R (GRet x) = True"
| "asks_only R (GTrap m) = True"
| "asks_only R (GGet k) = (\<forall>i. asks_only R (k i))"
| "asks_only R (GPut i p) = asks_only R p"
| "asks_only R (GCall e ps k) =
     (e \<noteq> HostCall \<and> (e \<in> result_fns \<and> ps \<noteq> [] \<longrightarrow> hd ps \<in> R) \<and> (\<forall>r. asks_only R (k r)))"

definition ids_below :: "('g, 'w) async_call \<Rightarrow> bool" where
  "ids_below s \<longleftrightarrow> (\<forall>t \<in> set (spawned (ac_env s)). task_id t < call_index (ac_state s))"

lemma beside_ids:
  assumes "beside_step polled s e t"
  shows "call_index (ac_state t) = call_index (ac_state s)" and "ids_below s \<Longrightarrow> ids_below t"
    and "e = Completed i code \<Longrightarrow> ids_below s \<Longrightarrow> i < call_index (ac_state s)"
proof -
  have without: "x \<in> set (without k xs) \<Longrightarrow> x \<in> set xs" for k x and xs :: "host_task list"
    by (auto simp: without_def dest: in_set_takeD in_set_dropD)
  have fin: "call_index ms' = call_index ms \<and> j = task_id u" if "finish_async_host_call u ms w = Ret ((j, c), ms', w')"
    for u w w' j c and ms ms' :: "'b module_state"
  proof -
    from that obtain r where "j = task_id u" "record_host_result j r ms = (c, ms')"
      by (elim finish_async_Ret)
    then have "ms' = file_result j r ms" "j = task_id u"
      by (simp_all add: file_result_def)
    then show ?thesis
      by simp
  qed
  show "call_index (ac_state t) = call_index (ac_state s)" and "ids_below s \<Longrightarrow> ids_below t"
    using assms by (cases rule: beside_step.cases; auto simp: ids_below_def dest!: fin without)+
  show "e = Completed i code \<Longrightarrow> ids_below s \<Longrightarrow> i < call_index (ac_state s)"
    using assms by (cases rule: beside_step.cases) (auto simp: ids_below_def dest!: fin)
qed

text \<open>Such a run has no race unless a host call of \<open>R\<close> ends beside it, as long as the ids do not wrap
  around.\<close>

lemma asking_run_race_free:
  assumes "mixed guest_move (beside_move polled) (p, s) ls (q, t)" and "asks_only R p" and "ids_below s"
    and "unat (call_index (ac_state s)) + length ls < 2 ^ 32"
    and "\<And>i code. Completed i code \<in> set (besides ls) \<Longrightarrow> i \<notin> R"
  shows "race_free clashes ls"
proof -
  have "race_free clashes ls \<and> asks_only R q \<and> ids_below t
      \<and> unat (call_index (ac_state t)) \<le> unat (call_index (ac_state s)) + length ls
      \<and> (\<forall>i code. Completed i code \<in> set (besides ls) \<longrightarrow> i < call_index (ac_state t))"
    using assms(1,4,5)
  proof (induction ls arbitrary: q t rule: rev_induct)
    case Nil
    then have "(q, t) = (p, s)"
      by (auto elim: mixed.cases)
    then show ?case
      using assms(2,3) by simp
  next
    case (snoc l ls)
    obtain q1 t1 where first: "mixed guest_move (beside_move polled) (p, s) ls (q1, t1)"
      and last: "(\<exists>a. l = Inl a \<and> guest_move (q1, t1) a (q, t)) \<or> (\<exists>e. l = Inr e \<and> beside_move polled (q1, t1) e (q, t))"
      using snoc.prems(1) by (cases rule: mixed.cases) auto
    have IH: "race_free clashes ls" "asks_only R q1" "ids_below t1"
        "unat (call_index (ac_state t1)) \<le> unat (call_index (ac_state s)) + length ls"
        "\<And>i code. Completed i code \<in> set (besides ls) \<Longrightarrow> i < call_index (ac_state t1)"
      using snoc.IH [OF first] snoc.prems(2,3) by auto
    have others: "\<And>i code. Completed i code \<in> set (besides ls) \<Longrightarrow> i \<notin> R"
      using snoc.prems(3) by auto
    from last show ?case
    proof (elim disjE exE conjE)
      fix e
      assume l: "l = Inr e" and "beside_move polled (q1, t1) e (q, t)"
      then have q: "q = q1" and step: "beside_step polled t1 e t"
        by simp_all
      show ?thesis
        using IH beside_ids [OF step] q l by (auto simp: race_free_snoc)
    next
      fix a
      assume l: "l = Inl a" and "guest_move (q1, t1) a (q, t)"
      from this(2) show ?thesis
      proof (cases rule: guest_move.cases)
        case (move_get k)
        then show ?thesis
          using IH l by (auto simp: race_free_snoc)
      next
        case (move_put i)
        then show ?thesis
          using IH l by (auto simp: race_free_snoc ids_below_def ac_cx_def)
      next
        case (move_call e ps r c k)
        then have e: "e \<noteq> HostCall" and names: "e \<in> result_fns \<and> ps \<noteq> [] \<longrightarrow> hd ps \<in> R" and k: "asks_only R (k r)"
          using IH(2) by auto
        let ?n = "call_index (ac_state t1)"
        have idx: "mstate (ac_cx t1) = ac_state t1" "env (ac_cx t1) = ac_env t1"
          by (simp_all add: ac_cx_def)
        note index = linker_fn_index [OF move_call(5) e, unfolded idx]
        have "unat ?n + 1 < 2 ^ 32"
          using IH(4) snoc.prems(2) by simp
        then have suc: "unat (?n + 1) = unat ?n + 1"
          by (simp add: unat_word_ariths)
        then have succ: "x < ?n \<or> x = ?n \<Longrightarrow> x < ?n + 1" for x
          by (auto simp: word_less_nat_alt)
        have "\<not> clashes ev a" if "ev \<in> set (besides ls)" for ev
        proof (cases ev)
          case (Completed j code)
          then have "j < ?n" "j \<notin> R"
            using IH(5) others that by blast+
          then show ?thesis
            using names e index by (auto simp: Completed move_call names_id_def split: if_splits)
        qed (use e in \<open>simp_all add: move_call\<close>)
        moreover have "ids_below t \<and> unat (call_index (ac_state t)) \<le> unat ?n + 1 \<and> (\<forall>x. x < ?n \<longrightarrow> x < call_index (ac_state t))"
          using index IH(3) suc succ by (auto simp: move_call ids_below_def split: if_splits)
        ultimately show ?thesis
          using IH k l by (auto simp: race_free_snoc move_call)
      qed
    qed
  qed
  then show ?thesis
    by blast
qed

subsection \<open>The state of the calls under any interleaving\<close>

lemma new_invocation_steps: "new_invocation iv ms = (i, rx, ms1) \<Longrightarrow> ms_steps ms ms1"
  using ms_steps.step [OF ms_steps_single [OF ms_step.fetch] ms_step.invoke]
  by (auto simp: new_invocation_def Let_def split: prod.splits) force

lemma finish_async_ms_steps:
  assumes "finish_async_host_call t ms w = Ret ((i, code), ms', w')"
  shows "ms_steps ms ms'"
  using assms ms_step.end_host_call [of ms] by (elim finish_async_Ret) (metis ms_steps_single snd_conv)

lemma call_async_run_steps:
  assumes "call_async_run (wasmtime_engine api) cc op payload ms ev = Ret (r, cc', ms', ev')"
  shows "ms_steps ms ms'"
proof -
  obtain i rx ms1 where ni: "new_invocation (Invocation_new op payload) ms = (i, rx, ms1)"
    by (cases "new_invocation (Invocation_new op payload) ms")
  obtain res where res: "wasmtime_call_async (wcc_context cc) i (i32_of_len (length op)) (i32_of_len (length payload)) ms1 ev
      = Ret res"
    using assms by (auto simp: call_async_run_def WapcCallContext_call_async_def Let_def ni obind_eq_Ret_iff)
  obtain r1 c1 ms2 ev2 where res_eq: "res = (r1, c1, ms2, ev2)"
    by (cases res)
  have "ms2 = ms'"
    using assms res
    by (auto simp: call_async_run_def WapcCallContext_call_async_def Let_def ni res_eq map_err_def split: sum.splits if_splits)
  then show ?thesis
    using ms_steps_trans [OF wasmtime_call_async_steps new_invocation_steps [OF ni]] res res_eq by blast
qed

lemma ac_step_ms_steps: "ac_step api op payload s e t \<Longrightarrow> ms_steps (ac_state s) (ac_state t)"
proof (induction rule: ac_step.induct)
  case (opened s r wc' ms' ev' s')
  then have "ms_steps (ac_state s) ms'"
    by (auto simp: wasmtime_context_init_def run_starters_eq obind_eq_Ret_iff dest!: run_guest_steps)
  then show ?case
    using opened by (simp split: sum.splits)
next
  case (ran s k r cc' ms' ev' s')
  then show ?case
    using call_async_run_steps by (fastforce split: sum.splits)
qed (auto simp: ac_cx_def end_task_def intro: ms_steps.refl dest: finish_async_ms_steps run_guest_steps)

lemma mixed_ms_steps:
  "mixed guest_move (beside_move polled) x ls y \<Longrightarrow> ms_steps (ac_state (snd x)) (ac_state (snd y))"
proof (induction rule: mixed.induct)
  case mixed_refl
  then show ?case
    by (rule ms_steps.refl)
next
  case (mixed_move ls t a u)
  have "ms_steps (ac_state (snd t)) (ac_state (snd u))"
    using mixed_move.hyps(2) by cases (auto simp: ac_cx_def intro: ms_steps.refl dest: linker_fn_steps)
  then show ?case
    using mixed_move.IH ms_steps_trans by blast
next
  case (mixed_beside ls t e u)
  then have "beside_step polled (snd t) e (snd u)"
    by (cases t; cases u) simp
  from ac_step_ms_steps [OF beside_is_step [OF this]] show ?case
    using mixed_beside.IH ms_steps_trans by blast
qed

lemma call_ends_steps: "call_ends i r ms = Ret ms' \<Longrightarrow> ms_steps ms ms'"
  using ms_steps.step [OF ms_steps_single [OF ms_step.guest_failed] ms_step.completed]
  by (auto simp: call_ends_def intro: ms_steps.refl split: sum.splits)

lemma par_step_ms_steps: "par_step api op payload s e ls t \<Longrightarrow> ms_steps (ac_state s) (ac_state t)"
proof (induction rule: par_step.induct)
  case (par_ran s k f i rx ms1 ls p t r ms')
  have "ms_steps ms1 (ac_state t)"
    using mixed_ms_steps [OF par_ran.hyps(4)] by simp
  from ms_steps_trans [OF call_ends_steps [OF par_ran.hyps(6)] ms_steps_trans [OF this new_invocation_steps [OF par_ran.hyps(3)]]]
  show ?case
    by simp
qed (auto dest!: mixed_ms_steps ac_step_ms_steps)

lemma par_steps_ms_steps: "par_steps api op payload s tr t \<Longrightarrow> ms_steps (ac_state s) (ac_state t)"
  by (induction rule: par_steps.induct) (auto intro: ms_steps.refl ms_steps_trans dest: par_step_ms_steps)

text \<open>Whatever races there are, the state of the calls stays well-formed and a reply that is there stays.\<close>

lemma par_steps_keep:
  assumes "par_steps api op payload (ac_start wc (ModuleState_new sync async mid) ev) tr s"
  shows "ms_wf (ac_state s)"
    and "par_steps api op payload s tr' t \<Longrightarrow> replied rx v (ac_state s) \<Longrightarrow> replied rx v (ac_state t)"
  using par_steps_ms_steps [OF assms] ms_steps_wf [of "ModuleState_new sync async mid"]
  by (simp_all add: ac_start_def) (blast intro: replied_steps dest: par_steps_ms_steps)

subsection \<open>A guest that asks at once\<close>

text \<open>It makes an asynchronous host call, asks at once for the length of the response to the call \<open>ask\<close>, and
  fails if there is one. Nothing is delivered to it.\<close>

definition eager_call :: "i32 \<Rightarrow> (unit, unit) guest_prog" where
  "eager_call ask = GCall AsyncHostCall (replicate 8 0) (\<lambda>_. GCall HostResponseLen [ask] (\<lambda>n.
     if n = Some 0 then GRet () else GTrap ''early''))"

definition eager_module :: "i32 \<Rightarrow> unit wasm_module" where
  "eager_module ask = rude_module\<lparr>m_exports := [''__async_guest_call'' \<mapsto> Export_3_0 (\<lambda>_ _ _. eager_call ask)]\<rparr>"

definition eager_callback :: "nat host_callback" where
  "eager_callback i bd ns op v w = Ret (Inr [7], w)"

definition eager_start :: "i32 \<Rightarrow> (unit, nat) async_call" where
  "eager_start ask = ac_start \<lparr>wc_module = eager_module ask, wc_inst = m_instance (eager_module ask)\<rparr>
     (ModuleState_new None (Some eager_callback) 1) sample_env"

definition eager_state :: "nat module_state" where
  "eager_state = file_result 2 (Inr [7]) (waiting_state eager_callback)"

lemma eager_exports:
  "get_func_0_0 (eager_module ask) s = None"
  "get_func_3_0 (eager_module ask) (guest_export_name AsyncGuestCall) = Some (\<lambda>_ _ _. eager_call ask)"
  "get_func_2_0 (eager_module ask) f = None"
  by (simp_all add: eager_module_def get_func_0_0_def get_func_3_0_def get_func_2_0_def guest_name_defs rude_module_def)

lemma eager_spawn:
  assumes "spawned ev = []" and "in_runtime ev"
  shows "linker_fn AsyncHostCall (replicate 8 0)
     \<lparr>inst = m_instance (eager_module ask),
      mstate = (waiting_state cb)\<lparr>calls := (calls (waiting_state cb))(2 := None), call_index := 2\<rparr>, env = ev\<rparr>
   = Ret (Some 2, \<lparr>inst = m_instance (eager_module ask), mstate = waiting_state cb, env = ev\<lparr>spawned := [waiting_task]\<rparr>\<rparr>)"
proof -
  have "get_string_from_memory sample_mem 0 0 = Ret []"
    by (simp add: get_string_from_memory_def read_empty from_utf8_def string_of_bytes_def)
  then show ?thesis
    using assms
    by (simp add: linker_async_host_call_def with_params_def host_call_args_def read_empty
        get_caller_memory_def do_async_host_call_def next_call_index_def eager_module_def rude_module_def
        waiting_state_def waiting_task_def init_host_call_def calls_insert_def fun_upd_twist)
qed

lemma eager_runs:
  fixes p :: "(unit, unit) guest_prog"
  assumes n: "n = (if ask = 2 then 1 else 0)"
    and p: "p = (if ask = 2 then GTrap ''early'' else GRet ())" and ends: "ended p = Some r" "call_ends 1 r eager_state = Ret ms"
  shows "par_steps api ''echo'' [1, 2, 3] (eager_start ask)
    [(Silent, []), (Silent, [Inl (Called AsyncHostCall (replicate 8 0) (Some 2)), Inr (Completed 2 2),
       Inl (Called HostResponseLen [ask] (Some n))])]
    ((eager_start ask)\<lparr>ac_stage := Awaiting 0, ac_state := ms, ac_env := sample_env\<lparr>context_count := 2\<rparr>,
       ac_queue := [async_message 2 2]\<rparr>)"
proof -
  let ?s0 = "eager_start ask" and ?zeros = "replicate 8 0"
  let ?ev = "sample_env\<lparr>context_count := 2\<rparr>"
  let ?s1 = "?s0\<lparr>ac_stage := Yielded 1, ac_env := ?ev\<rparr>"
  let ?ms1 = "(waiting_state eager_callback)\<lparr>calls := (calls (waiting_state eager_callback))(2 := None), call_index := 2\<rparr>"
  let ?p1 = "GCall HostResponseLen [ask] (\<lambda>n. if n = Some 0 then GRet () else GTrap ''early'')"
  let ?t1 = "?s1\<lparr>ac_state := waiting_state eager_callback, ac_env := ?ev\<lparr>spawned := [waiting_task]\<rparr>\<rparr>"
  let ?t2 = "?s1\<lparr>ac_state := eager_state, ac_queue := [async_message 2 2]\<rparr>"
  have pn: "p = (if Some n = Some 0 then GRet () else GTrap ''early'')"
    by (simp add: n p)
  have env: "spawned sample_env = []" "in_runtime sample_env" "context_count sample_env = 1"
    by (simp_all add: sample_env_def)
  have [simp]: "sample_env\<lparr>context_count := 2, spawned := []\<rparr> = ?ev"
    by (simp add: sample_env_def)
  have zero: "mixed guest_move (beside_move True)
      (starters_prog (wc_module (ac_context ?s0)) REQUIRED_STARTS,
       ?s0\<lparr>ac_env := (ac_env ?s0)\<lparr>context_count := context_count (ac_env ?s0) + 1\<rparr>\<rparr>) []
      (GRet (), ?s0\<lparr>ac_env := ?ev\<rparr>)"
    by (simp add: REQUIRED_STARTS_def eager_start_def ac_start_def eager_exports env mixed.mixed_refl)
  have "par_step api ''echo'' [1, 2, 3] ?s0 Silent [] ?s1"
    using par_opened [OF _ zero, of "()" api "''echo''" "[1, 2, 3]"] by (simp add: eager_start_def ac_start_def env)
  then have first: "par_steps api ''echo'' [1, 2, 3] ?s0 [(Silent, [])] ?s1"
    using par_then [OF par_refl] by fastforce
  have cx: "ac_cx (?s1\<lparr>ac_state := ms'\<rparr>) = \<lparr>inst = m_instance (eager_module ask), mstate = ms', env = ?ev\<rparr>" for ms'
    by (simp add: eager_start_def ac_start_def ac_cx_def)
  have "linker_fn AsyncHostCall ?zeros (ac_cx (?s1\<lparr>ac_state := ?ms1\<rparr>)) = Ret (Some 2, ac_cx ?t1)"
    unfolding cx by (subst eager_spawn) (simp_all add: env eager_start_def ac_start_def ac_cx_def)
  from move_call [OF this, of "\<lambda>_. ?p1"]
  have spawn: "guest_move (eager_call ask, ?s1\<lparr>ac_state := ?ms1\<rparr>) (Called AsyncHostCall ?zeros (Some 2)) (?p1, ?t1)"
    by (simp add: eager_call_def set_cx_def ac_cx_def)
  have "finish_async_host_call waiting_task (waiting_state eager_callback) (world sample_env)
      = Ret ((2, 2), eager_state, world sample_env)"
    by (simp add: finish_async_host_call_def waiting_task_def waiting_state_def run_callback_def eager_callback_def
        record_host_result_def eager_state_def file_result_def)
  from beside_completed [of 0 ?t1 2 2 eager_state "world sample_env" True, simplified, OF this]
  have "beside_step True ?t1 (Completed 2 2) ?t2"
    by (simp add: without_def ac_send_def eager_start_def ac_start_def env)
  then have beside: "beside_move True (?p1, ?t1) (Completed 2 2) (?p1, ?t2)"
    unfolding beside_move.simps by blast
  have "linker_fn HostResponseLen [ask] (ac_cx ?t2) = Ret (Some n, ac_cx ?t2)"
    by (simp add: n linker_host_response_len_def with_params_def get_host_response_def ac_cx_def eager_state_def
        calls_file_result waiting_state_def put_result_def default_call_state_def i32_of_len_def)
  from move_call [OF this, of "\<lambda>n. if n = Some 0 then GRet () else GTrap ''early''"]
  have ask: "guest_move (?p1, ?t2) (Called HostResponseLen [ask] (Some n)) (p, ?t2)"
    unfolding pn set_cx_simps .
  have run: "mixed guest_move (beside_move True) (eager_call ask, ?s1\<lparr>ac_state := ?ms1\<rparr>)
      ((([] @ [Inl (Called AsyncHostCall ?zeros (Some 2))]) @ [Inr (Completed 2 2)]) @ [Inl (Called HostResponseLen [ask] (Some n))]) (p, ?t2)"
    by (rule mixed_move [where move = guest_move, OF mixed_beside [where beside = "beside_move True",
        OF mixed_move [where move = guest_move, OF mixed_refl]]])
      (fact spawn beside ask)+
  have "par_step api ''echo'' [1, 2, 3] ?s1 Silent
      [Inl (Called AsyncHostCall ?zeros (Some 2)), Inr (Completed 2 2), Inl (Called HostResponseLen [ask] (Some n))]
      (?t2\<lparr>ac_stage := Awaiting 0, ac_state := ms\<rparr>)"
    by (rule par_ran [where s = ?s1 and k = 1 and f = "\<lambda>_ _ _. eager_call ask" and i = 1 and rx = 0 and ?ms1.0 = ?ms1
        and t = ?t2, OF _ _ _ run [simplified append_Nil append_Cons] ends(1)])
      (use ends in \<open>simp_all add: eager_start_def ac_start_def exported_async_call_def eager_exports waiting_new_invocation
         del: guest_export_name.simps\<close>)
  from par_then [OF first this] show ?thesis
    by (simp add: eager_start_def ac_start_def)
qed

text \<open>When each run is a single step, no result is there yet when the guest asks, and its call is never
  answered.\<close>

definition eager_inv :: "i32 \<Rightarrow> (unit, nat) async_call \<Rightarrow> bool" where
  "eager_inv ask s \<longleftrightarrow> ac_context s = ac_context (eager_start ask) \<and> (\<forall>rx. ac_stage s = Awaiting rx \<longrightarrow> rx = 0 \<and> oneshots (ac_state s) = [Pending])
     \<and> (ac_stage s = Unpolled \<or> (\<exists>k. ac_stage s = Yielded k) \<longrightarrow>
         ac_state s = ac_state (eager_start ask) \<and> spawned (ac_env s) = [] \<and> in_runtime (ac_env s))"

lemma eager_step:
  assumes inv: "eager_inv ask s" and step: "ac_step api ''echo'' [1, 2, 3] s e t"
  shows "eager_inv ask t \<and> (\<forall>r. ac_stage t = Answered r \<longrightarrow> ac_stage s = Answered r)"
  using step
proof (cases rule: ac_step.cases)
  case (opened r wc' ms' ev' s')
  have "wasmtime_context_init (ac_context s) (ac_state s) ev = Ret (Inr (), ac_context s, ac_state s, ev)" for ev
    using inv by (simp add: eager_inv_def wasmtime_context_init_def REQUIRED_STARTS_def eager_start_def ac_start_def eager_exports)
  then show ?thesis
    using opened inv by (auto simp: eager_inv_def)
next
  case (ran k r cc' ms' ev' s')
  let ?wc = "ac_context (eager_start ask)"
  have "wc_inst ?wc = m_instance (eager_module ask)" "wc_module ?wc = eager_module ask"
    by (simp_all add: eager_start_def ac_start_def)
  moreover have "run_guest (eager_call ask) \<lparr>inst = m_instance (eager_module ask),
      mstate = (waiting_state eager_callback)\<lparr>calls := (calls (waiting_state eager_callback))(2 := None), call_index := 2\<rparr>,
      env = ac_env s\<rparr>
      = Ret (Inr (), \<lparr>inst = m_instance (eager_module ask), mstate = waiting_state eager_callback,
          env = (ac_env s)\<lparr>spawned := [waiting_task]\<rparr>\<rparr>)"
    using eager_spawn [of "ac_env s" ask eager_callback] inv ran(3)
    by (simp add: eager_inv_def eager_call_def del: linker_fn.simps)
      (simp add: linker_host_response_len_def with_params_def get_host_response_def waiting_state_def default_call_state_def)
  ultimately have "call_async_run (wasmtime_engine api) \<lparr>wcc_context = ?wc, wcc_id = k\<rparr> ''echo'' [1, 2, 3] (ac_state s) (ac_env s)
      = Ret (Inr 0, \<lparr>wcc_context = ?wc, wcc_id = k\<rparr>, waiting_state eager_callback, (ac_env s)\<lparr>spawned := [waiting_task]\<rparr>)"
    using inv ran(3)
    by (simp add: eager_inv_def call_async_run_def WapcCallContext_call_async_def eager_start_def ac_start_def
        waiting_new_invocation Let_def wasmtime_call_async_def eager_exports del: guest_export_name.simps run_guest.simps)
  then show ?thesis
    using ran inv by (auto simp: eager_inv_def waiting_state_def)
next
  case (answered rx r)
  then show ?thesis
    using inv by (auto simp: eager_inv_def call_async_reply_def async_result_def)
next
  case (completed k i code ms' w')
  from completed(4) obtain v where "record_host_result i v (ac_state s) = (code, ms')"
    by (elim finish_async_Ret)
  then have "ms' = file_result i v (ac_state s)"
    by (simp add: file_result_def)
  then show ?thesis
    using completed inv by (auto simp: eager_inv_def)
next
  case (delivered m q i code f r c')
  then show ?thesis
    using inv by (simp add: eager_inv_def response_ready_def eager_start_def ac_start_def eager_exports del: guest_export_name.simps)
qed (use inv in \<open>auto simp: eager_inv_def end_task_def context_dropped_def\<close>)

lemma eager_never_answered:
  assumes "ac_steps api ''echo'' [1, 2, 3] (eager_start ask) tr s"
  shows "eager_inv ask s \<and> (\<forall>r. ac_stage s \<noteq> Answered r)"
  using assms
proof (induction rule: ac_steps.induct)
  case refl
  then show ?case
    by (simp add: eager_inv_def eager_start_def ac_start_def ModuleState_new_def sample_env_def)
next
  case (step tr s e t)
  then show ?case
    using eager_step by blast
qed

lemma eager_fails:
  "\<exists>ms. call_ends 1 (Inl ''early'') eager_state = Ret ms
     \<and> call_async_reply (oneshots ms ! 0) = Some (wrap_call_error (Inl (GuestCallFailure ''early'')))"
  by (simp add: call_ends_def set_guest_call_complete_def eager_state_def file_result_eq put_result_def waiting_state_def
      set_guest_error_def sample_defs default_call_state_def call_async_reply_def async_result_def failure_of_def)

text \<open>A race can decide whether a call is answered. The call of the guest that asks at once for the
  response to its host call comes back, with the guest's failure, in an execution in which the host call ends
  during the run of the guest, and in no execution in which each run of the guest is a single step.\<close>

theorem race_decides_answer:
  "(\<exists>tr s. par_steps api ''echo'' [1, 2, 3] (eager_start 2) tr s
      \<and> ac_stage s = Answered (wrap_call_error (Inl (GuestCallFailure ''early''))))
   \<and> \<not> (\<exists>tr s r. ac_steps api ''echo'' [1, 2, 3] (eager_start 2) tr s \<and> ac_stage s = Answered r)"
proof
  let ?r = "wrap_call_error (Inl (GuestCallFailure ''early''))"
  obtain ms where ms: "call_ends 1 (Inl ''early'') eager_state = Ret ms" "call_async_reply (oneshots ms ! 0) = Some ?r"
    using eager_fails by blast
  let ?s = "(eager_start 2)\<lparr>ac_stage := Awaiting 0, ac_state := ms, ac_env := sample_env\<lparr>context_count := 2\<rparr>,
       ac_queue := [async_message 2 2]\<rparr>"
  obtain tr where "par_steps api ''echo'' [1, 2, 3] (eager_start 2) tr ?s"
    using eager_runs [where ask = 2 and p = "GTrap ''early''" and r = "Inl ''early''" and ms = ms] ms(1) by auto
  moreover have "par_step api ''echo'' [1, 2, 3] ?s Silent [] (drop_context (Answered ?r) ?s)"
    by (intro par_alone ac_step.answered [of ?s 0 ?r]) (simp_all add: ms(2))
  ultimately have "par_steps api ''echo'' [1, 2, 3] (eager_start 2) (tr @ [(Silent, [])]) (drop_context (Answered ?r) ?s)"
    by (rule par_then)
  then show "\<exists>tr s. par_steps api ''echo'' [1, 2, 3] (eager_start 2) tr s \<and> ac_stage s = Answered ?r"
    using drop_context_frame(2) by blast
qed (use eager_never_answered in blast)

text \<open>C9: threads make no difference to a call without races. Whatever host tasks end and whatever else
  happens while the guest runs, if the guest does not ask during a run for the result of a host call that
  ended during the same run and makes no synchronous host call after such a step, then the execution is
  one of \<open>Async_Calls\<close>, in which every run of the guest is a single step, with the same events in an order
  that postpones them to the end of the run, and the same final state.\<close>

theorem parallel_runs_are_serial:
  assumes "par_steps api op payload s tr t" and "\<And>e ls. (e, ls) \<in> set tr \<Longrightarrow> race_free clashes ls"
  shows "ac_steps api op payload s (events_of tr) t"
  using assms by (rule par_steps_serial)

theorem parallel_runs_are_serial_witness:
  "\<exists>s. ac_steps sample_api ''echo'' [1, 2, 3] (eager_start 1) [Silent, Silent, Completed 2 2] s
     \<and> ac_stage s = Awaiting 0 \<and> ac_queue s = [async_message 2 2] \<and> get_host_response 2 (ac_state s) = Some [7]"
proof -
  let ?tr = "[(Silent, []), (Silent, [Inl (Called AsyncHostCall (replicate 8 0) (Some 2)), Inr (Completed 2 2),
       Inl (Called HostResponseLen [1] (Some 0))])]"
  let ?s = "(eager_start 1)\<lparr>ac_stage := Awaiting 0, ac_state := eager_state, ac_env := sample_env\<lparr>context_count := 2\<rparr>,
       ac_queue := [async_message 2 2]\<rparr>"
  have "par_steps sample_api ''echo'' [1, 2, 3] (eager_start 1) ?tr ?s"
    by (rule eager_runs [where p = "GRet ()" and r = "Inr ()"]) (simp_all add: call_ends_def)
  moreover have "race_free clashes ls" if "(e, ls) \<in> set ?tr" for e ls
    using that by (auto simp: names_id_def)
  ultimately have "ac_steps sample_api ''echo'' [1, 2, 3] (eager_start 1) (events_of ?tr) ?s"
    by (rule parallel_runs_are_serial)
  moreover have "get_host_response 2 eager_state = Some [7]"
    by (simp add: eager_state_def get_host_response_def calls_file_result waiting_state_def put_result_def)
  ultimately show ?thesis
    by (intro exI [of _ ?s]) (simp add: events_of_def)
qed

end
