(* ===== verification/Call_Numbers.thy ===== *)
theory Call_Numbers
  imports Guest_Refinement
begin

text \<open>
  The two numberings of a call's host calls. The SDK numbers them with \<open>CALL_NUM\<close>
  (\<open>crates/wapc-guest/src/protocol.rs\<close>), which starts at 0, and asks for responses under these numbers. The
  host numbers them with \<open>call_index\<close> (\<open>crates/wapc/src/wapchost/modulestate.rs\<close>), which starts at 1 and is
  taken by the call itself, and files the responses under its own. Here each host call takes the next
  number of both, as \<open>host_call\<close> does; that the parameters of \<open>__host_call\<close> differ on the two sides
  (\<open>Guest_Refinement\<close>) is left aside.
\<close>

record numbered_call =
  sdk_number :: i32
  host_number :: i32
  call_result :: host_result

text \<open>Host calls one after the other, with the result of the host's callback for each.\<close>

inductive calls_made :: "('u sdk, 'w) cx \<Rightarrow> numbered_call list \<Rightarrow> ('u sdk, 'w) cx \<Rightarrow> bool" for c where
  no_call: "calls_made c [] c"
| one_more: "calls_made c log d \<Longrightarrow> run_guest fetch_call_num d = Ret (Inr n, d') \<Longrightarrow>
    callback_outcome (mstate d') binding ns op v (world (env d')) = Ret (r, w') \<Longrightarrow>
    do_host_call binding ns op v (mstate d') (world (env d')) = Ret (Inr code, ms', w') \<Longrightarrow>
    calls_made c (log @ [\<lparr>sdk_number = n, host_number = call_index (mstate d'), call_result = r\<rparr>])
      (d'\<lparr>mstate := ms', env := (env d')\<lparr>world := w'\<rparr>\<rparr>)"

lemma run_fetch_call_num:
  "run_guest fetch_call_num c =
     Ret (Inr (CALL_NUM (wstate (inst c))),
          c\<lparr>inst := (inst c)\<lparr>wstate := (wstate (inst c))\<lparr>CALL_NUM := CALL_NUM (wstate (inst c)) + 1\<rparr>\<rparr>\<rparr>)"
  by (simp add: fetch_call_num_def)

text \<open>What is under the number \<open>j\<close> of the host after the calls of \<open>log\<close>: a response and an error.\<close>

definition result_at :: "numbered_call list \<Rightarrow> nat \<Rightarrow> bytes option \<times> string option" where
  "result_at log j =
     (if j < 2 then (None, None)
      else case call_result (log ! (j - 2)) of Inr v \<Rightarrow> (Some v, None) | Inl e \<Rightarrow> (None, Some e))"

definition filed_at :: "i32 \<Rightarrow> 'w module_state \<Rightarrow> bytes option \<times> string option" where
  "filed_at i ms = (get_host_response i ms, get_host_error i ms)"

lemma result_at_snoc:
  "j < length log + 2 \<Longrightarrow> result_at (log @ [x]) j = result_at log j"
  "result_at (log @ [x]) (length log + 2) =
     (case call_result x of Inr v \<Rightarrow> (Some v, None) | Inl e \<Rightarrow> (None, Some e))"
  by (auto simp: result_at_def nth_append)

definition numbered_apart :: "numbered_call list \<Rightarrow> ('u sdk, 'w) cx \<Rightarrow> bool" where
  "numbered_apart log d \<longleftrightarrow> CALL_NUM (wstate (inst d)) = of_nat (length log)
     \<and> call_index (mstate d) = of_nat (length log + 2)
     \<and> (\<forall>k < length log. sdk_number (log ! k) = of_nat k \<and> host_number (log ! k) = of_nat (k + 2))
     \<and> (\<forall>j < length log + 2. filed_at (of_nat j) (mstate d) = result_at log j)"

lemma numbered_apart_start:
  assumes "CALL_NUM (wstate (inst c)) = 0" and "new_invocation iv (ModuleState_new sync async mid) = (i, rx, mstate c)"
  shows "numbered_apart [] c"
proof -
  have ms: "mstate c = snd (snd (new_invocation iv (ModuleState_new sync async mid)))"
    using assms(2) by simp
  have "filed_at (of_nat j) (mstate c) = (None, None)" if "j < 2" for j
    unfolding ms by (simp add: sample_defs filed_at_def get_host_response_def get_host_error_def)
  moreover have "call_index (mstate c) = 2"
    unfolding ms by (simp add: sample_defs)
  ultimately show ?thesis
    using assms(1) by (simp add: numbered_apart_def result_at_def)
qed

lemma numbered_apart_step:
  assumes inv: "numbered_apart log d" and small: "length log + 2 < 2 ^ 32"
    and n: "run_guest fetch_call_num d = Ret (Inr n, d')"
    and r: "callback_outcome (mstate d') binding ns op v (world (env d')) = Ret (r, w')"
    and call: "do_host_call binding ns op v (mstate d') (world (env d')) = Ret (Inr code, ms', w')"
  shows "numbered_apart (log @ [\<lparr>sdk_number = n, host_number = call_index (mstate d'), call_result = r\<rparr>])
    (d'\<lparr>mstate := ms', env := (env d')\<lparr>world := w'\<rparr>\<rparr>)"
proof -
  let ?m = "length log" and ?x = "\<lparr>sdk_number = n, host_number = call_index (mstate d'), call_result = r\<rparr>"
  have num: "n = of_nat ?m" "CALL_NUM (wstate (inst d')) = of_nat ?m + 1" and ms: "mstate d' = mstate d"
    using n inv by (auto simp: run_fetch_call_num numbered_apart_def)
  have idx: "call_index (mstate d) = of_nat (?m + 2)"
    using inv by (simp add: numbered_apart_def)
  have ms': "call_index ms' = of_nat (?m + 2) + 1"
      "filed_at (of_nat (?m + 2)) ms' = (case r of Inr v \<Rightarrow> (Some v, None) | Inl e \<Rightarrow> (None, Some e))"
      "\<And>j. j \<noteq> of_nat (?m + 2) \<Longrightarrow> calls ms' j = calls (mstate d) j"
    using do_host_call_result [OF r] call unfolding filed_at_def idx [symmetric] ms by (cases r; simp)+
  have "filed_at (of_nat j) ms' = result_at (log @ [?x]) j" if j: "j < Suc ?m + 2" for j
  proof (cases "j = ?m + 2")
    case True
    show ?thesis
      unfolding True result_at_snoc(2) ms'(2) by simp
  next
    case False
    then have less: "j < ?m + 2"
      using j by simp
    then have "(of_nat j :: i32) \<noteq> of_nat (?m + 2)"
      using False small by (subst of_nat_i32_eq_iff) auto
    then have "filed_at (of_nat j) ms' = filed_at (of_nat j) (mstate d)"
      by (simp add: filed_at_def get_host_response_def get_host_error_def ms'(3) del: of_nat_add)
    then show ?thesis
      using inv less by (simp add: numbered_apart_def result_at_snoc(1))
  qed
  moreover have "sdk_number ((log @ [?x]) ! k) = of_nat k \<and> host_number ((log @ [?x]) ! k) = of_nat (k + 2)"
    if "k < Suc ?m" for k
    using inv that num(1) idx ms by (cases "k = ?m") (auto simp: numbered_apart_def nth_append)
  ultimately show ?thesis
    using num ms'(1) by (simp add: numbered_apart_def)
qed

lemma numbered_apart_calls:
  assumes "calls_made c log d" and "numbered_apart [] c" and "length log + 2 < 2 ^ 32"
  shows "numbered_apart log d"
  using assms
proof (induction rule: calls_made.induct)
  case (one_more log d n d' binding ns op v r w' code ms')
  then show ?case
    using numbered_apart_step [of log d n d'] by simp
qed

text \<open>C28: the number the SDK gives a host call is two less than the number the host gives it. So under the
  number of a host call the SDK finds the response, or the error, of the host call two before it, and
  nothing for the first two of a call.\<close>

theorem sdk_reads_result_of_other_call:
  assumes "new_invocation iv (ModuleState_new sync async mid) = (i, rx, mstate c)"
    and "CALL_NUM (wstate (inst c)) = 0" and "calls_made c log d" and "length log + 2 < 2 ^ 32" and "k < length log"
  shows "host_number (log ! k) = sdk_number (log ! k) + 2
    \<and> (get_host_response (sdk_number (log ! k)) (mstate d), get_host_error (sdk_number (log ! k)) (mstate d)) =
        (if k < 2 then (None, None)
         else case call_result (log ! (k - 2)) of Inr v \<Rightarrow> (Some v, None) | Inl e \<Rightarrow> (None, Some e))"
proof -
  have "numbered_apart log d"
    using numbered_apart_calls [OF assms(3) numbered_apart_start [OF assms(2,1)] assms(4)] .
  then show ?thesis
    using assms(5) unfolding numbered_apart_def filed_at_def result_at_def by (auto simp: ac_simps)
qed

subsection \<open>Three host calls\<close>

definition numbered_start :: "(nat sdk, nat) cx" where
  "numbered_start =
     \<lparr>inst = bump_instance,
      mstate = snd (snd (new_invocation sample_invocation (ModuleState_new (Some sample_callback) None 1))),
      env = sample_env\<rparr>"

lemma another_call:
  assumes "calls_made c log d" and "sync_hostcall (mstate d) = Some sample_callback"
  shows "\<exists>x d'. calls_made c (log @ [x]) d' \<and> call_result x = Inr (v @ v) \<and> sync_hostcall (mstate d') = Some sample_callback"
proof -
  obtain n d' where n: "run_guest fetch_call_num d = Ret (Inr n, d')" and ms: "mstate d' = mstate d"
    by (simp add: run_fetch_call_num)
  have r: "callback_outcome (mstate d') [] [] ''op'' v (world (env d')) = Ret (Inr (v @ v), Suc (world (env d')))"
    using assms(2) by (simp add: ms callback_outcome_def run_callback_def sample_callback_def)
  have "do_host_call [] [] ''op'' v (mstate d') (world (env d'))
      = Ret (Inr (call_index (mstate d')),
             snd (record_host_result (call_index (mstate d')) (Inr (v @ v))
               (init_host_call (call_index (mstate d')) (snd (next_call_index (mstate d'))))), Suc (world (env d')))"
    using r by (simp add: do_host_call_eq record_host_result_def)
  from calls_made.one_more [OF assms(1) n r this] show ?thesis
    using assms(2) by (intro exI conjI) (assumption, simp_all add: ms next_call_index_def record_host_result_def)
qed

theorem sdk_reads_result_of_other_call_witness:
  "\<exists>log d. calls_made numbered_start log d \<and> length log = 3 \<and> call_result (log ! 2) = Inr [3, 3]
     \<and> get_host_response (sdk_number (log ! 2)) (mstate d) = Some [1, 1]"
proof -
  have "sync_hostcall (mstate numbered_start) = Some sample_callback"
    by (simp add: numbered_start_def sample_defs)
  from another_call [OF calls_made.no_call this, of "[1]"] obtain x1 d1 where
    1: "calls_made numbered_start ([] @ [x1]) d1" "call_result x1 = Inr [1, 1]" "sync_hostcall (mstate d1) = Some sample_callback"
    by auto
  from another_call [OF 1(1,3), of "[2]"] obtain x2 d2 where
    2: "calls_made numbered_start (([] @ [x1]) @ [x2]) d2" "sync_hostcall (mstate d2) = Some sample_callback"
    by auto
  from another_call [OF 2, of "[3]"] obtain x3 d3 where
    3: "calls_made numbered_start [x1, x2, x3] d3" "call_result x3 = Inr [3, 3]"
    by auto
  have start: "new_invocation sample_invocation (ModuleState_new (Some sample_callback) None 1) = (1, 0, mstate numbered_start)"
    by (simp add: numbered_start_def sample_defs)
  have "CALL_NUM (wstate (inst numbered_start)) = 0"
    by (simp add: numbered_start_def bump_instance_def)
  from sdk_reads_result_of_other_call [OF start this 3(1), of 2]
  have "get_host_response (sdk_number ([x1, x2, x3] ! 2)) (mstate d3) = Some [1, 1]"
    by (simp add: 1(2))
  then show ?thesis
    using 3 by (intro exI [of _ "[x1, x2, x3]"] exI [of _ d3]) simp
qed

end
